theory Spec2Isabelle
  imports Main
begin

section \<open>The ledger store: tables, constraints and the total trigger\<close>

text \<open>
  The schema script creates two tables, \<^verbatim>\<open>trips\<close> and \<^verbatim>\<open>expenses\<close>.  A table is a list
  of rows in insertion order.  A \<^verbatim>\<open>UUID\<close> is kept as its text.  A \<^verbatim>\<open>DECIMAL(10,2)\<close>
  value is kept as the integer number of hundredths, so \<^verbatim>\<open>120.50\<close> is \<open>12050\<close>; such a
  column holds exactly the values whose absolute value is below \<open>10^8\<close>, that is below
  \<open>10^10\<close> hundredths, and storing any other value raises \<^verbatim>\<open>numeric field overflow\<close>.
  The columns \<^verbatim>\<open>created_at\<close> and \<^verbatim>\<open>updated_at\<close> hold the wall clock and are left out.
\<close>

type_synonym uuid = string

datatype trip_status = planning | in_progress | completed

record trip_row =
  tr_id :: uuid
  tr_user_id :: uuid
  tr_trip_number :: string
  tr_origin :: string
  tr_destination :: string
  tr_travel_mode :: string
  tr_date :: string
  tr_time :: string
  tr_notes :: "string option"
  tr_travelers :: "string list"
  tr_total_expenses :: int
  tr_status :: trip_status

record expense_row =
  er_id :: uuid
  er_trip_id :: uuid
  er_user_id :: uuid
  er_description :: string
  er_amount :: int
  er_category :: string
  er_date :: string
  er_time :: string

record db =
  tbl_trips :: "trip_row list"
  tbl_expenses :: "expense_row list"

datatype sql_error =
    trip_not_found_or_access_denied
  | expense_not_found_or_access_denied
  | not_null_violation
  | check_violation
  | numeric_field_overflow
  | unique_violation
  | foreign_key_violation
  | row_level_security_violation

text \<open>
  Both tables have row level security enabled, with the policies
  \<^verbatim>\<open>FOR SELECT USING (auth.uid() = user_id)\<close>, \<^verbatim>\<open>FOR UPDATE USING (auth.uid() = user_id)\<close>,
  \<^verbatim>\<open>FOR DELETE USING (auth.uid() = user_id)\<close> and
  \<^verbatim>\<open>FOR INSERT WITH CHECK (auth.uid() = user_id)\<close>.  A statement sent through the client
  runs as the authenticated user and is bound by them: it reads, updates and deletes
  only rows that carry the user's id, and a row it inserts must carry it.  The body of a
  \<^verbatim>\<open>SECURITY DEFINER\<close> procedure runs as the owner of the procedure, who owns the tables
  and is not bound by the policies.  A trigger function runs as the role of the
  statement that fires it unless it is itself \<^verbatim>\<open>SECURITY DEFINER\<close>, and
  \<^verbatim>\<open>update_trip_total_expenses\<close> is not.
\<close>

datatype role = table_owner | authenticated uuid

definition policy :: "role \<Rightarrow> uuid \<Rightarrow> bool" where
  "policy r user_id = (case r of table_owner \<Rightarrow> True | authenticated uid \<Rightarrow> uid = user_id)"

text \<open>The rows of the two tables a role can see.\<close>

definition visible :: "role \<Rightarrow> db \<Rightarrow> db" where
  "visible r d =
     \<lparr>tbl_trips = filter (\<lambda>t. policy r (tr_user_id t)) (tbl_trips d),
      tbl_expenses = filter (\<lambda>e. policy r (er_user_id e)) (tbl_expenses d)\<rparr>"

definition numeric_10_2 :: "int \<Rightarrow> bool" where
  "numeric_10_2 v \<longleftrightarrow> \<bar>v\<bar> < 10000000000"

text \<open>The \<^verbatim>\<open>CHECK\<close> constraint of the column \<^verbatim>\<open>expenses.category\<close>.\<close>

definition category_check :: "string \<Rightarrow> bool" where
  "category_check c \<longleftrightarrow>
     c \<in> set [''transport'', ''food'', ''accommodation'', ''entertainment'', ''other'']"

text \<open>SQL's \<^verbatim>\<open>COALESCE(a, b)\<close> with a second argument that is never \<^verbatim>\<open>NULL\<close>.\<close>

definition COALESCE :: "'a option \<Rightarrow> 'a \<Rightarrow> 'a" where
  "COALESCE a b = (case a of Some v \<Rightarrow> v | None \<Rightarrow> b)"

text \<open>
  \<^verbatim>\<open>SELECT COALESCE(SUM(amount), 0) FROM expenses WHERE trip_id = ...\<close>: the sum of an empty
  selection is \<^verbatim>\<open>NULL\<close> in SQL and \<^verbatim>\<open>COALESCE\<close> turns it into 0, which is what
  \<^const>\<open>sum_list\<close> gives for the empty list.
\<close>

definition sum_amount :: "db \<Rightarrow> uuid \<Rightarrow> int" where
  "sum_amount d tid =
     sum_list (map er_amount (filter (\<lambda>e. er_trip_id e = tid) (tbl_expenses d)))"

text \<open>
  The trigger function \<^verbatim>\<open>update_trip_total_expenses\<close>, run as role \<open>r\<close> for a row whose
  \<^verbatim>\<open>trip_id\<close> is \<open>tid\<close> (\<^verbatim>\<open>COALESCE(NEW.trip_id, OLD.trip_id)\<close>).  Its \<^verbatim>\<open>UPDATE trips\<close>
  reaches the trip with that id if the role may update it, and overwrites its total by
  the sum over the expense rows of the trip that the role can see; the assignment to
  the \<^verbatim>\<open>DECIMAL(10,2)\<close> column raises when the sum does not fit.
\<close>

definition update_trip_total_expenses :: "role \<Rightarrow> uuid \<Rightarrow> db \<Rightarrow> sql_error + db" where
  "update_trip_total_expenses r tid d =
     (let s = sum_amount (visible r d) tid;
          target = (\<lambda>t. tr_id t = tid \<and> policy r (tr_user_id t))
      in if list_ex target (tbl_trips d) \<and> \<not> numeric_10_2 s
         then Inl numeric_field_overflow
         else Inr (d\<lparr>tbl_trips :=
                     map (\<lambda>t. if target t then t\<lparr>tr_total_expenses := s\<rparr> else t)
                         (tbl_trips d)\<rparr>))"

text \<open>
  The three triggers are \<^verbatim>\<open>AFTER ... FOR EACH ROW\<close>: the function runs once for every row
  the statement inserted, updated or deleted, as the role of the statement; an error in
  any run aborts the statement.
\<close>

fun fire_triggers :: "role \<Rightarrow> uuid list \<Rightarrow> db \<Rightarrow> sql_error + db" where
  "fire_triggers r [] d = Inr d"
| "fire_triggers r (tid # tids) d =
     (case update_trip_total_expenses r tid d of
        Inl e \<Rightarrow> Inl e
      | Inr d' \<Rightarrow> fire_triggers r tids d')"

text \<open>
  \<^verbatim>\<open>INSERT INTO expenses (trip_id, user_id, description, amount, category, date, time)
  VALUES (...)\<close> with the generated primary key \<open>new_id\<close>, run as role \<open>r\<close>.  A \<^verbatim>\<open>NULL\<close>
  value is \<open>None\<close>.  The amount is brought to \<^verbatim>\<open>DECIMAL(10,2)\<close> when the row is formed;
  then come the \<^verbatim>\<open>WITH CHECK\<close> of the policy, the \<^verbatim>\<open>NOT NULL\<close> and \<^verbatim>\<open>CHECK\<close>
  constraints, the primary key, and after the statement the foreign key and the
  trigger.
\<close>

definition insert_expense ::
  "role \<Rightarrow> uuid \<Rightarrow> uuid \<Rightarrow> uuid \<Rightarrow> string option \<Rightarrow> int option \<Rightarrow> string option \<Rightarrow>
   string option \<Rightarrow> string option \<Rightarrow> db \<Rightarrow> sql_error + db" where
  "insert_expense r new_id trip user description amount category date time d =
     (if (case amount of Some am \<Rightarrow> \<not> numeric_10_2 am | None \<Rightarrow> False)
      then Inl numeric_field_overflow
      else if \<not> policy r user then Inl row_level_security_violation
      else case (description, amount, category, date, time) of
        (Some de, Some am, Some ca, Some da, Some ti) \<Rightarrow>
          if \<not> category_check ca then Inl check_violation
          else if list_ex (\<lambda>e. er_id e = new_id) (tbl_expenses d) then Inl unique_violation
          else if \<not> list_ex (\<lambda>t. tr_id t = trip) (tbl_trips d) then Inl foreign_key_violation
          else fire_triggers r [trip]
                 (d\<lparr>tbl_expenses := tbl_expenses d @
                    [\<lparr>er_id = new_id, er_trip_id = trip, er_user_id = user,
                      er_description = de, er_amount = am, er_category = ca,
                      er_date = da, er_time = ti\<rparr>]\<rparr>)
      | _ \<Rightarrow> Inl not_null_violation)"

text \<open>
  \<^verbatim>\<open>UPDATE expenses SET description = COALESCE(p_description, description), ...
  WHERE id = p_expense_id AND user_id = p_user_id\<close>, run as role \<open>r\<close>: the rows it
  updates are the rows of the \<^verbatim>\<open>WHERE\<close> clause that the role may update.  The manual
  path sends the same statement with only the supplied columns in its \<^verbatim>\<open>SET\<close> list.
\<close>

definition set_expense_columns ::
  "string option \<Rightarrow> int option \<Rightarrow> string option \<Rightarrow> string option \<Rightarrow> string option \<Rightarrow>
   expense_row \<Rightarrow> expense_row" where
  "set_expense_columns p_description p_amount p_category p_date p_time e =
     e\<lparr>er_description := COALESCE p_description (er_description e),
       er_amount := COALESCE p_amount (er_amount e),
       er_category := COALESCE p_category (er_category e),
       er_date := COALESCE p_date (er_date e),
       er_time := COALESCE p_time (er_time e)\<rparr>"

definition update_expense ::
  "role \<Rightarrow> uuid \<Rightarrow> uuid \<Rightarrow> string option \<Rightarrow> int option \<Rightarrow> string option \<Rightarrow>
   string option \<Rightarrow> string option \<Rightarrow> db \<Rightarrow> sql_error + db" where
  "update_expense r p_expense_id p_user_id p_description p_amount p_category p_date p_time d =
     (let hit = (\<lambda>e. er_id e = p_expense_id \<and> er_user_id e = p_user_id \<and>
                      policy r (er_user_id e));
          new_rows = map (set_expense_columns p_description p_amount p_category p_date p_time)
                         (filter hit (tbl_expenses d))
      in if list_ex (\<lambda>e. \<not> numeric_10_2 (er_amount e)) new_rows then Inl numeric_field_overflow
         else if list_ex (\<lambda>e. \<not> category_check (er_category e)) new_rows then Inl check_violation
         else fire_triggers r (map er_trip_id new_rows)
                (d\<lparr>tbl_expenses :=
                    map (\<lambda>e. if hit e
                              then set_expense_columns p_description p_amount p_category
                                     p_date p_time e
                              else e)
                        (tbl_expenses d)\<rparr>))"

text \<open>
  \<^verbatim>\<open>DELETE FROM expenses WHERE id = p_expense_id AND user_id = p_user_id\<close>, run as role
  \<open>r\<close>.
\<close>

definition delete_expense :: "role \<Rightarrow> uuid \<Rightarrow> uuid \<Rightarrow> db \<Rightarrow> sql_error + db" where
  "delete_expense r p_expense_id p_user_id d =
     (let hit = (\<lambda>e. er_id e = p_expense_id \<and> er_user_id e = p_user_id \<and>
                      policy r (er_user_id e))
      in fire_triggers r (map er_trip_id (filter hit (tbl_expenses d)))
           (d\<lparr>tbl_expenses := filter (\<lambda>e. \<not> hit e) (tbl_expenses d)\<rparr>))"

text \<open>
  A statement on the \<^verbatim>\<open>expenses\<close> table as the client sends it: the insert of
  \<^verbatim>\<open>addExpenseManual\<close> and \<^verbatim>\<open>expenseService.addExpense\<close>, the update and the delete of the
  manual paths and of \<^verbatim>\<open>expenseService\<close>, each with its \<^verbatim>\<open>id\<close> and \<^verbatim>\<open>user_id\<close>.  A
  statement that raises is rolled back and leaves the database as it was; one that
  returns has settled.
\<close>

datatype mutation =
    Insert uuid uuid uuid "string option" "int option" "string option" "string option"
      "string option"
  | Update uuid uuid "string option" "int option" "string option" "string option"
      "string option"
  | Delete uuid uuid

fun run_mutation :: "role \<Rightarrow> mutation \<Rightarrow> db \<Rightarrow> sql_error + db" where
  "run_mutation r (Insert new_id trip user de am ca da ti) d =
     insert_expense r new_id trip user de am ca da ti d"
| "run_mutation r (Update eid user de am ca da ti) d =
     update_expense r eid user de am ca da ti d"
| "run_mutation r (Delete eid user) d = delete_expense r eid user d"

definition settle :: "role \<Rightarrow> db \<Rightarrow> mutation \<Rightarrow> db" where
  "settle r d m = (case run_mutation r m d of Inl e \<Rightarrow> d | Inr d' \<Rightarrow> d')"

definition total_invariant :: "db \<Rightarrow> bool" where
  "total_invariant d \<longleftrightarrow>
     list_all (\<lambda>t. tr_total_expenses t = sum_amount d (tr_id t)) (tbl_trips d)"

section \<open>The stored procedures\<close>

text \<open>
  A procedure takes the database and either raises, or returns its JSON result and the
  new database.  A call through \<^verbatim>\<open>supabase.rpc\<close> is one transaction: when the procedure
  raises, nothing it did persists (\<open>rpc\<close> below).  The four procedures are
  \<^verbatim>\<open>SECURITY DEFINER\<close>: their statements, and the triggers these fire, run as
  \<open>table_owner\<close>, and what a caller may touch is decided by the tests on \<^verbatim>\<open>p_user_id\<close> in
  their bodies.
\<close>

definition rpc :: "(db \<Rightarrow> sql_error + 'a \<times> db) \<Rightarrow> db \<Rightarrow> (sql_error + 'a) \<times> db" where
  "rpc f d = (case f d of Inl e \<Rightarrow> (Inl e, d) | Inr (r, d') \<Rightarrow> (Inr r, d'))"

text \<open>
  \<^verbatim>\<open>SELECT total_expenses INTO new_total FROM trips WHERE id = ...\<close>: the value of the
  first row selected, \<^verbatim>\<open>NULL\<close> when there is none.
\<close>

definition select_total_expenses :: "uuid \<Rightarrow> db \<Rightarrow> int option" where
  "select_total_expenses tid d =
     map_option tr_total_expenses (find (\<lambda>t. tr_id t = tid) (tbl_trips d))"

record add_expense_json =
  aj_expense_id :: uuid
  aj_new_total :: "int option"

definition add_expense_with_total ::
  "uuid \<Rightarrow> uuid \<Rightarrow> uuid \<Rightarrow> string option \<Rightarrow> int option \<Rightarrow> string option \<Rightarrow>
   string option \<Rightarrow> string option \<Rightarrow> db \<Rightarrow> sql_error + add_expense_json \<times> db" where
  "add_expense_with_total new_expense_id p_trip_id p_user_id p_description p_amount
       p_category p_date p_time d =
     (if \<not> list_ex (\<lambda>t. tr_id t = p_trip_id \<and> tr_user_id t = p_user_id) (tbl_trips d)
      then Inl trip_not_found_or_access_denied
      else case insert_expense table_owner new_expense_id p_trip_id p_user_id p_description
                  p_amount p_category p_date p_time d of
             Inl e \<Rightarrow> Inl e
           | Inr d' \<Rightarrow>
               Inr (\<lparr>aj_expense_id = new_expense_id,
                     aj_new_total = select_total_expenses p_trip_id d'\<rparr>, d'))"

record update_expense_json =
  uj_description :: string
  uj_amount :: int
  uj_category :: string
  uj_date :: string
  uj_time :: string
  uj_new_total :: "int option"
  uj_trip_id :: uuid

text \<open>
  \<^verbatim>\<open>update_expense_with_total\<close>.  \<open>expense_trip_id\<close> is \<^verbatim>\<open>NULL\<close> exactly when no row has
  the id and the user; \<^verbatim>\<open>RETURNING * INTO updated_expense\<close> keeps the first updated row,
  which is the first row found with its columns set.
\<close>

definition update_expense_with_total ::
  "uuid \<Rightarrow> uuid \<Rightarrow> string option \<Rightarrow> int option \<Rightarrow> string option \<Rightarrow> string option \<Rightarrow>
   string option \<Rightarrow> db \<Rightarrow> sql_error + update_expense_json \<times> db" where
  "update_expense_with_total p_expense_id p_user_id p_description p_amount p_category
       p_date p_time d =
     (case find (\<lambda>e. er_id e = p_expense_id \<and> er_user_id e = p_user_id) (tbl_expenses d) of
        None \<Rightarrow> Inl expense_not_found_or_access_denied
      | Some found \<Rightarrow>
          (let expense_trip_id = er_trip_id found in
           case update_expense table_owner p_expense_id p_user_id p_description p_amount
                  p_category p_date p_time d of
             Inl e \<Rightarrow> Inl e
           | Inr d' \<Rightarrow>
               (let updated_expense =
                      set_expense_columns p_description p_amount p_category p_date p_time found
                in Inr (\<lparr>uj_description = er_description updated_expense,
                          uj_amount = er_amount updated_expense,
                          uj_category = er_category updated_expense,
                          uj_date = er_date updated_expense,
                          uj_time = er_time updated_expense,
                          uj_new_total = select_total_expenses expense_trip_id d',
                          uj_trip_id = expense_trip_id\<rparr>, d'))))"

record delete_expense_json =
  dj_new_total :: "int option"
  dj_trip_id :: uuid

definition delete_expense_with_total ::
  "uuid \<Rightarrow> uuid \<Rightarrow> db \<Rightarrow> sql_error + delete_expense_json \<times> db" where
  "delete_expense_with_total p_expense_id p_user_id d =
     (case find (\<lambda>e. er_id e = p_expense_id \<and> er_user_id e = p_user_id) (tbl_expenses d) of
        None \<Rightarrow> Inl expense_not_found_or_access_denied
      | Some found \<Rightarrow>
          (let expense_trip_id = er_trip_id found in
           case delete_expense table_owner p_expense_id p_user_id d of
             Inl e \<Rightarrow> Inl e
           | Inr d' \<Rightarrow>
               Inr (\<lparr>dj_new_total = select_total_expenses expense_trip_id d',
                     dj_trip_id = expense_trip_id\<rparr>, d')))"

subsection \<open>The batch procedure\<close>

text \<open>
  An element of the JSON array \<^verbatim>\<open>p_expenses\<close>: \<^verbatim>\<open>expense_item->>'description'\<close> is \<^verbatim>\<open>NULL\<close>
  (\<open>None\<close>) when the key is missing; the amount is the value of the cast
  \<^verbatim>\<open>(expense_item->>'amount')::DECIMAL(10,2)\<close> in hundredths.  Each element is paired with
  the key \<^verbatim>\<open>uuid_generate_v4()\<close> gives its row.
\<close>

record expense_item =
  ei_description :: "string option"
  ei_amount :: "int option"
  ei_category :: "string option"
  ei_date :: "string option"
  ei_time :: "string option"

record inserted_expense_json =
  ij_id :: uuid
  ij_description :: "string option"
  ij_amount :: "int option"
  ij_category :: "string option"
  ij_date :: "string option"
  ij_time :: "string option"

record batch_json =
  bj_expenses :: "inserted_expense_json list"
  bj_new_total :: "int option"
  bj_count :: "nat option"

text \<open>The \<^verbatim>\<open>FOR expense_item IN ... LOOP\<close>: one \<^verbatim>\<open>INSERT\<close> statement per element.\<close>

fun batch_loop ::
  "uuid \<Rightarrow> uuid \<Rightarrow> (uuid \<times> expense_item) list \<Rightarrow> inserted_expense_json list \<Rightarrow> db \<Rightarrow>
   sql_error + inserted_expense_json list \<times> db" where
  "batch_loop p_trip_id p_user_id [] inserted_expenses d = Inr (inserted_expenses, d)"
| "batch_loop p_trip_id p_user_id ((new_expense_id, it) # rest) inserted_expenses d =
     (case insert_expense table_owner new_expense_id p_trip_id p_user_id (ei_description it)
             (ei_amount it) (ei_category it) (ei_date it) (ei_time it) d of
        Inl e \<Rightarrow> Inl e
      | Inr d' \<Rightarrow>
          batch_loop p_trip_id p_user_id rest
            (inserted_expenses @
               [\<lparr>ij_id = new_expense_id, ij_description = ei_description it,
                 ij_amount = ei_amount it, ij_category = ei_category it,
                 ij_date = ei_date it, ij_time = ei_time it\<rparr>])
            d')"

text \<open>\<^verbatim>\<open>array_length(inserted_expenses, 1)\<close> is \<^verbatim>\<open>NULL\<close> for the empty array.\<close>

definition array_length :: "'a list \<Rightarrow> nat option" where
  "array_length xs = (if xs = [] then None else Some (length xs))"

definition batch_add_expenses ::
  "uuid \<Rightarrow> uuid \<Rightarrow> (uuid \<times> expense_item) list \<Rightarrow> db \<Rightarrow> sql_error + batch_json \<times> db" where
  "batch_add_expenses p_trip_id p_user_id p_expenses d =
     (if \<not> list_ex (\<lambda>t. tr_id t = p_trip_id \<and> tr_user_id t = p_user_id) (tbl_trips d)
      then Inl trip_not_found_or_access_denied
      else case batch_loop p_trip_id p_user_id p_expenses [] d of
             Inl e \<Rightarrow> Inl e
           | Inr (inserted_expenses, d') \<Rightarrow>
               Inr (\<lparr>bj_expenses = inserted_expenses,
                     bj_new_total = select_total_expenses p_trip_id d',
                     bj_count = array_length inserted_expenses\<rparr>, d'))"




section \<open>Trips: numbering, creation, update, deletion\<close>

text \<open>The text of a non-negative \<^verbatim>\<open>INTEGER\<close> (\<^verbatim>\<open>trip_count::TEXT\<close>).\<close>

definition digit_char :: "nat \<Rightarrow> char" where
  "digit_char n = ''0123456789'' ! n"

fun integer_text :: "nat \<Rightarrow> string" where
  "integer_text n =
     (if n < 10 then [digit_char n]
      else integer_text (n div 10) @ [digit_char (n mod 10)])"

declare integer_text.simps [simp del]

text \<open>
  \<^verbatim>\<open>LPAD(s, len, fill)\<close> with a one-character fill: the text is filled on the left up to
  the length, and cut on the right to the length when it is longer.
\<close>

definition LPAD :: "string \<Rightarrow> nat \<Rightarrow> char \<Rightarrow> string" where
  "LPAD s len fill =
     (if length s \<ge> len then take len s else replicate (len - length s) fill @ s)"

definition generate_trip_number :: "uuid \<Rightarrow> db \<Rightarrow> string" where
  "generate_trip_number user_uuid d =
     (let trip_count = length (filter (\<lambda>t. tr_user_id t = user_uuid) (tbl_trips d)) + 1
      in ''TR'' @ LPAD (integer_text trip_count) 3 CHR ''0'')"

text \<open>
  A JavaScript text that is absent or empty is falsy: \<^verbatim>\<open>if (x)\<close> skips it and
  \<^verbatim>\<open>x || null\<close> is \<^verbatim>\<open>null\<close>.
\<close>

definition truthy :: "string option \<Rightarrow> string option" where
  "truthy v = (case v of Some s \<Rightarrow> (if s = [] then None else Some s) | None \<Rightarrow> None)"

text \<open>
  \<^verbatim>\<open>tripService.createTrip\<close> for the authenticated user: the number comes from
  \<^verbatim>\<open>generate_trip_number\<close>, then the row is inserted with the generated key \<open>new_id\<close>;
  \<^verbatim>\<open>notes\<close> is stored as \<^verbatim>\<open>tripData.notes || null\<close> and \<^verbatim>\<open>total_expenses\<close> takes its
  default 0.  The functions of \<^verbatim>\<open>tripService\<close> run their statements as the authenticated
  user \<open>user\<close> and name \<^verbatim>\<open>user_id = user.id\<close> in every one of them, in the row inserted,
  in the \<^verbatim>\<open>WHERE\<close> clause or as \<^verbatim>\<open>user_uuid\<close>, so the rows the policies let them touch
  are the rows they select already.
\<close>

record trip_data =
  td_origin :: string
  td_destination :: string
  td_travelMode :: string
  td_date :: string
  td_time :: string
  td_notes :: "string option"
  td_travelers :: "string list"
  td_status :: trip_status

definition createTrip :: "uuid \<Rightarrow> uuid \<Rightarrow> trip_data \<Rightarrow> db \<Rightarrow> sql_error + db" where
  "createTrip new_id user tripData d =
     (let tripNumber = generate_trip_number user d in
      if list_ex (\<lambda>t. tr_id t = new_id) (tbl_trips d) then Inl unique_violation
      else Inr (d\<lparr>tbl_trips := tbl_trips d @
                  [\<lparr>tr_id = new_id, tr_user_id = user, tr_trip_number = tripNumber,
                    tr_origin = td_origin tripData, tr_destination = td_destination tripData,
                    tr_travel_mode = td_travelMode tripData, tr_date = td_date tripData,
                    tr_time = td_time tripData, tr_notes = truthy (td_notes tripData),
                    tr_travelers = td_travelers tripData, tr_total_expenses = 0,
                    tr_status = td_status tripData\<rparr>]\<rparr>))"

text \<open>
  \<^verbatim>\<open>tripService.deleteTrip\<close>: \<^verbatim>\<open>DELETE FROM trips WHERE id = tripId AND user_id = user.id\<close>;
  \<^verbatim>\<open>ON DELETE CASCADE\<close> removes the expense rows of a deleted trip.
\<close>

definition deleteTrip :: "uuid \<Rightarrow> uuid \<Rightarrow> db \<Rightarrow> db" where
  "deleteTrip tripId user d =
     (let gone = map tr_id (filter (\<lambda>t. tr_id t = tripId \<and> tr_user_id t = user) (tbl_trips d))
      in \<lparr>tbl_trips = filter (\<lambda>t. \<not> (tr_id t = tripId \<and> tr_user_id t = user)) (tbl_trips d),
          tbl_expenses = filter (\<lambda>e. er_trip_id e \<notin> set gone) (tbl_expenses d)\<rparr>)"

text \<open>
  \<^verbatim>\<open>tripService.updateTrip\<close>.  \<^verbatim>\<open>Partial<Trip>\<close>: a property that is absent is \<open>None\<close>.
  The guards \<^verbatim>\<open>if (updates.origin)\<close> test truthiness, so an empty string or an absent
  property leaves the column out of the statement; \<^verbatim>\<open>notes\<close> is tested against
  \<^verbatim>\<open>undefined\<close>; a non-empty array and every status are truthy, and so is the empty
  array.
\<close>

record trip_updates =
  tu_origin :: "string option"
  tu_destination :: "string option"
  tu_travelMode :: "string option"
  tu_date :: "string option"
  tu_time :: "string option"
  tu_notes :: "string option"
  tu_travelers :: "string list option"
  tu_status :: "trip_status option"

definition updateTrip :: "uuid \<Rightarrow> uuid \<Rightarrow> trip_updates \<Rightarrow> db \<Rightarrow> db" where
  "updateTrip tripId user updates d =
     d\<lparr>tbl_trips :=
         map (\<lambda>t. if tr_id t = tripId \<and> tr_user_id t = user
                   then t\<lparr>tr_origin := COALESCE (truthy (tu_origin updates)) (tr_origin t),
                          tr_destination :=
                            COALESCE (truthy (tu_destination updates)) (tr_destination t),
                          tr_travel_mode :=
                            COALESCE (truthy (tu_travelMode updates)) (tr_travel_mode t),
                          tr_date := COALESCE (truthy (tu_date updates)) (tr_date t),
                          tr_time := COALESCE (truthy (tu_time updates)) (tr_time t),
                          tr_notes := (case tu_notes updates of
                                         Some n \<Rightarrow> Some n | None \<Rightarrow> tr_notes t),
                          tr_travelers := COALESCE (tu_travelers updates) (tr_travelers t),
                          tr_status := COALESCE (tu_status updates) (tr_status t)\<rparr>
                   else t)
             (tbl_trips d)\<rparr>"

text \<open>
  The hook's \<^verbatim>\<open>startTrip\<close> and \<^verbatim>\<open>completeTrip\<close> send \<^verbatim>\<open>{ status: 'in_progress' }\<close> and
  \<^verbatim>\<open>{ status: 'completed' }\<close> through \<^verbatim>\<open>updateTrip\<close>.
\<close>

definition no_updates :: trip_updates where
  "no_updates =
     \<lparr>tu_origin = None, tu_destination = None, tu_travelMode = None, tu_date = None,
      tu_time = None, tu_notes = None, tu_travelers = None, tu_status = None\<rparr>"

definition startTrip :: "uuid \<Rightarrow> uuid \<Rightarrow> db \<Rightarrow> db" where
  "startTrip tripId user d = updateTrip tripId user (no_updates\<lparr>tu_status := Some in_progress\<rparr>) d"

definition completeTrip :: "uuid \<Rightarrow> uuid \<Rightarrow> db \<Rightarrow> db" where
  "completeTrip tripId user d = updateTrip tripId user (no_updates\<lparr>tu_status := Some completed\<rparr>) d"

text \<open>The order of the lifecycle: planning, then in progress, then completed.\<close>

fun status_rank :: "trip_status \<Rightarrow> nat" where
  "status_rank planning = 0"
| "status_rank in_progress = 1"
| "status_rank completed = 2"

section \<open>The plain expense service\<close>




text \<open>Two users, a trip each, and one expense on each trip.\<close>

definition two_user_db :: db where
  "two_user_db =
     \<lparr>tbl_trips =
        [\<lparr>tr_id = ''T'', tr_user_id = ''U'', tr_trip_number = ''TR001'', tr_origin = ''Pune'',
          tr_destination = ''Goa'', tr_travel_mode = ''car'', tr_date = ''2024-01-01'',
          tr_time = ''09:00'', tr_notes = None, tr_travelers = [],
          tr_total_expenses = 12050, tr_status = completed\<rparr>,
         \<lparr>tr_id = ''S'', tr_user_id = ''V'', tr_trip_number = ''TR001'', tr_origin = ''Agra'',
          tr_destination = ''Delhi'', tr_travel_mode = ''train'', tr_date = ''2024-02-01'',
          tr_time = ''07:30'', tr_notes = None, tr_travelers = [],
          tr_total_expenses = 4500, tr_status = planning\<rparr>],
      tbl_expenses =
        [\<lparr>er_id = ''A'', er_trip_id = ''T'', er_user_id = ''U'', er_description = ''lunch'',
          er_amount = 12050, er_category = ''food'', er_date = ''2024-01-01'',
          er_time = ''13:00''\<rparr>,
         \<lparr>er_id = ''B'', er_trip_id = ''S'', er_user_id = ''V'', er_description = ''taxi'',
          er_amount = 4500, er_category = ''transport'', er_date = ''2024-02-01'',
          er_time = ''15:00''\<rparr>]\<rparr>"


section \<open>Sequences of trip operations\<close>

datatype trip_op =
    Create uuid uuid trip_data
  | DeleteTrip uuid uuid


text \<open>A \<^verbatim>\<open>createTrip\<close> that throws leaves the database as it was.\<close>

fun settle_trip :: "db \<Rightarrow> trip_op \<Rightarrow> db" where
  "settle_trip d (Create new_id user tripData) =
     (case createTrip new_id user tripData d of Inl e \<Rightarrow> d | Inr d' \<Rightarrow> d')"
| "settle_trip d (DeleteTrip tripId user) = deleteTrip tripId user d"

definition empty_db :: db where
  "empty_db = \<lparr>tbl_trips = [], tbl_expenses = []\<rparr>"

definition some_trip :: trip_data where
  "some_trip =
     \<lparr>td_origin = ''Pune'', td_destination = ''Goa'', td_travelMode = ''car'',
      td_date = ''2024-01-01'', td_time = ''09:00'', td_notes = None, td_travelers = [],
      td_status = planning\<rparr>"








section \<open>The life of the ledger\<close>

text \<open>
  Everything that changes the two tables: trips are created, updated and deleted;
  expenses are inserted, updated and deleted by a statement an authenticated user
  sends, or through a call of one of the four procedures.  The rows of a deleted trip's
  expenses go with it; the triggers the cascade fires find no trip row left to update.
\<close>

datatype ledger_op =
    On_trips trip_op
  | Trip_update uuid uuid trip_updates
  | Statement uuid mutation
  | Call_add_expense_with_total uuid uuid uuid "string option" "int option" "string option"
      "string option" "string option"
  | Call_update_expense_with_total uuid uuid "string option" "int option" "string option"
      "string option" "string option"
  | Call_delete_expense_with_total uuid uuid
  | Call_batch_add_expenses uuid uuid "(uuid \<times> expense_item) list"

fun settle_op :: "db \<Rightarrow> ledger_op \<Rightarrow> db" where
  "settle_op d (On_trips op) = settle_trip d op"
| "settle_op d (Trip_update tripId user updates) = updateTrip tripId user updates d"
| "settle_op d (Statement uid m) = settle (authenticated uid) d m"
| "settle_op d (Call_add_expense_with_total new_id trip user de am ca da ti) =
     snd (rpc (add_expense_with_total new_id trip user de am ca da ti) d)"
| "settle_op d (Call_update_expense_with_total eid user de am ca da ti) =
     snd (rpc (update_expense_with_total eid user de am ca da ti) d)"
| "settle_op d (Call_delete_expense_with_total eid user) =
     snd (rpc (delete_expense_with_total eid user) d)"
| "settle_op d (Call_batch_add_expenses trip user items) =
     snd (rpc (batch_add_expenses trip user items) d)"

text \<open>The one operation that is an \<^verbatim>\<open>INSERT\<close> into \<^verbatim>\<open>expenses\<close> outside the procedures.\<close>

fun plain_insert :: "ledger_op \<Rightarrow> bool" where
  "plain_insert (Statement uid (Insert new_id trip user de am ca da ti)) = True"
| "plain_insert op = False"

text \<open>The database before a sequence of operations, and after each of them.\<close>

fun states :: "db \<Rightarrow> ledger_op list \<Rightarrow> db list" where
  "states d [] = [d]"
| "states d (op # ops) = d # states (settle_op d op) ops"

text \<open>
  What the schema keeps true: the primary key of \<^verbatim>\<open>trips\<close>, the foreign key of
  \<^verbatim>\<open>expenses\<close>, and with them the totals.
\<close>

definition ledger_ok :: "db \<Rightarrow> bool" where
  "ledger_ok d \<longleftrightarrow>
     total_invariant d \<and> distinct (map tr_id (tbl_trips d)) \<and>
     list_all (\<lambda>e. list_ex (\<lambda>t. tr_id t = er_trip_id e) (tbl_trips d)) (tbl_expenses d)"

text \<open>
  Every expense row carries the user of the trip it belongs to.  Nothing in the schema
  asks for it: the policy of an insert looks at the \<^verbatim>\<open>user_id\<close> of the new row only, and
  the foreign key at the existence of the trip.
\<close>

definition owned :: "db \<Rightarrow> bool" where
  "owned d \<longleftrightarrow>
     list_all
       (\<lambda>e. list_all (\<lambda>t. tr_id t = er_trip_id e \<longrightarrow> tr_user_id t = er_user_id e)
               (tbl_trips d))
       (tbl_expenses d)"




text \<open>
  User \<open>U\<close> sends a plain insert of an expense of 0.20 with the id of the trip of user
  \<open>V\<close>.
\<close>

definition foreign_insert :: ledger_op where
  "foreign_insert =
     Statement ''U''
       (Insert ''C'' ''S'' ''U'' (Some ''tip'') (Some 20) (Some ''other'') (Some ''2024-02-01'')
          (Some ''16:00''))"

text \<open>
  The scenario of the specification from the empty database, the first expense added
  through the procedure and the second by a plain insert.
\<close>

definition scenario_ops :: "ledger_op list" where
  "scenario_ops =
     [On_trips (Create ''T'' ''U'' some_trip),
      Call_add_expense_with_total ''A'' ''T'' ''U'' (Some ''lunch'') (Some 12050) (Some ''food'')
        (Some ''2024-01-01'') (Some ''13:00''),
      Statement ''U''
        (Insert ''B'' ''T'' ''U'' (Some ''taxi'') (Some 4500) (Some ''transport'')
           (Some ''2024-01-01'') (Some ''15:00'')),
      Statement ''U'' (Update ''A'' ''U'' None (Some 20000) None None None),
      Call_delete_expense_with_total ''B'' ''U'']"
section \<open>The client: numbers, expenses and trips in memory\<close>

subsection \<open>JavaScript numbers\<close>

text \<open>
  An amount in the client is a JavaScript \<^verbatim>\<open>number\<close>, a binary64 value.  A finite one is
  kept as the pair \<open>(m, e)\<close> of integers that stands for \<open>m \<times> 2\<^sup>e\<close>, in the one form
  where \<open>m\<close> is odd, or \<open>(0, 0)\<close> for zero, so that equal numbers are equal pairs.
  \<^verbatim>\<open>+\<close> and \<^verbatim>\<open>-\<close> give the exact result rounded to 53 significant bits, ties to the even
  significand.  The exponent is not bounded here: overflow to \<^verbatim>\<open>Infinity\<close>, \<^verbatim>\<open>NaN\<close> and the
  sign of zero are left out (a sum that falls among the subnormal numbers is exact in
  binary64 and is exact here).  0.1 is \<open>(3602879701896397, -55)\<close>, 0.2 is
  \<open>(3602879701896397, -54)\<close>, 120.5 is \<open>(241, -1)\<close>.
\<close>

type_synonym number = "int \<times> int"

function normalize_number :: "int \<Rightarrow> int \<Rightarrow> number" where
  "normalize_number m e =
     (if m = 0 then (0, 0)
      else if even m then normalize_number (m div 2) (e + 1)
      else (m, e))"
  by pat_completeness auto
termination
  by (relation "measure (\<lambda>(m, e). nat \<bar>m\<bar>)") auto

declare normalize_number.simps [simp del]

text \<open>How many low bits a magnitude has beyond 53.\<close>

fun excess_bits :: "nat \<Rightarrow> nat" where
  "excess_bits a = (if a < 2 ^ 53 then 0 else Suc (excess_bits (a div 2)))"

declare excess_bits.simps [simp del]

definition round_to_double :: "int \<Rightarrow> int \<Rightarrow> number" where
  "round_to_double m e =
     (let a = nat \<bar>m\<bar>;
          k = excess_bits a;
          q = a div 2 ^ k;
          r = a mod 2 ^ k;
          q' = (if 2 * r > 2 ^ k \<or> (2 * r = 2 ^ k \<and> odd q) then q + 1 else q)
      in normalize_number (sgn m * int q') (e + int k))"

definition js_add :: "number \<Rightarrow> number \<Rightarrow> number" where
  "js_add x y =
     (let e = min (snd x) (snd y)
      in round_to_double (fst x * 2 ^ nat (snd x - e) + fst y * 2 ^ nat (snd y - e)) e)"

definition js_sub :: "number \<Rightarrow> number \<Rightarrow> number" where
  "js_sub x y = js_add x (- fst y, snd y)"

subsection \<open>Expenses and trips\<close>

datatype category = transport | food | accommodation | entertainment | other

text \<open>
  \<^verbatim>\<open>Omit<Expense, 'id'>\<close> is the record \<open>ExpenseData\<close>, and \<^verbatim>\<open>Expense\<close> extends it by the
  \<^verbatim>\<open>id\<close>.  In \<^verbatim>\<open>Partial<Expense>\<close> a property that is absent is \<open>None\<close>.
\<close>

record ExpenseData =
  description :: string
  amount :: number
  category :: category
  date :: string
  time :: string

record Expense = ExpenseData +
  id_expense :: string

record PartialExpense =
  id_opt :: "string option"
  description_opt :: "string option"
  amount_opt :: "number option"
  category_opt :: "category option"
  date_opt :: "string option"
  time_opt :: "string option"

record Trip =
  id_trip :: string
  tripNumber :: string
  origin :: string
  destination :: string
  travelMode :: string
  date_trip :: string
  time_trip :: string
  notes_trip :: "string option"
  travelers :: "string list"
  expenses :: "Expense list"
  totalExpenses :: number
  status :: trip_status
  createdAt :: string
  updatedAt :: string

text \<open>\<^verbatim>\<open>{ id: ..., ...expense }\<close> and \<^verbatim>\<open>{ ...exp, ...updates }\<close>.\<close>

definition with_id :: "string \<Rightarrow> ExpenseData \<Rightarrow> Expense" where
  "with_id i expense =
     \<lparr>description = description expense, amount = amount expense,
      category = category expense, date = date expense, time = time expense,
      id_expense = i\<rparr>"

definition spread :: "Expense \<Rightarrow> PartialExpense \<Rightarrow> Expense" where
  "spread exp updates =
     \<lparr>description = (case description_opt updates of Some v \<Rightarrow> v | None \<Rightarrow> description exp),
      amount = (case amount_opt updates of Some v \<Rightarrow> v | None \<Rightarrow> amount exp),
      category = (case category_opt updates of Some v \<Rightarrow> v | None \<Rightarrow> category exp),
      date = (case date_opt updates of Some v \<Rightarrow> v | None \<Rightarrow> date exp),
      time = (case time_opt updates of Some v \<Rightarrow> v | None \<Rightarrow> time exp),
      id_expense = (case id_opt updates of Some v \<Rightarrow> v | None \<Rightarrow> id_expense exp)\<rparr>"

subsection \<open>The state of the hook\<close>

text \<open>
  \<^verbatim>\<open>useOptimizedTripManager\<close> holds the trips, the active trip and the set of pending
  operation ids; \<open>user\<close> is the id of the authenticated user, if any; \<open>toasts\<close> collects
  the titles of the notifications shown, oldest first.

  A function the hook returns belongs to the render that made it.  What it reads as
  \<^verbatim>\<open>user\<close>, \<^verbatim>\<open>trips\<close> and \<^verbatim>\<open>activeTrip\<close> are the values of that render, for as long as it
  runs, also after its \<^verbatim>\<open>await\<close>: they are the fields of the state \<open>seen\<close> of that
  render.  What it writes, it writes through \<^verbatim>\<open>setTrips(prev => ...)\<close> and
  \<^verbatim>\<open>setActiveTrip(prev => ...)\<close>, which work on the state of the moment, \<open>st\<close>.  The set of
  pending operations is a ref, read and written in place.  When nothing has changed
  since the render, \<open>seen\<close> is \<open>st\<close>.
\<close>

record hook_state =
  user :: "string option"
  trips :: "Trip list"
  activeTrip :: "Trip option"
  pendingOperations :: "string set"
  toasts :: "string list"

definition applyOptimisticUpdate ::
  "hook_state \<Rightarrow> string \<Rightarrow> (Trip \<Rightarrow> Trip) \<Rightarrow> hook_state \<Rightarrow> hook_state" where
  "applyOptimisticUpdate seen tripId updateFn st =
     st\<lparr>trips := map (\<lambda>trip. if id_trip trip = tripId then updateFn trip else trip) (trips st),
        activeTrip :=
          (if map_option id_trip (activeTrip seen) = Some tripId
           then map_option updateFn (activeTrip st)
           else activeTrip st)\<rparr>"

definition toast :: "string \<Rightarrow> hook_state \<Rightarrow> hook_state" where
  "toast title st = st\<lparr>toasts := toasts st @ [title]\<rparr>"

text \<open>
  What the awaited service call hands back: the thrown error, or the result.
\<close>

datatype js_error = Error string

record add_result =
  ar_expense :: Expense
  ar_newTotal :: number

record update_result =
  ur_expense :: Expense
  ur_newTotal :: number
  ur_tripId :: string

record delete_result =
  dr_newTotal :: number
  dr_tripId :: string

subsection \<open>\<^verbatim>\<open>addExpense\<close>\<close>

text \<open>
  An \<^verbatim>\<open>async\<close> function runs up to its \<^verbatim>\<open>await\<close>, and goes on when the awaited promise
  has settled.  \<open>addExpense_begin\<close> is the part before the \<^verbatim>\<open>await\<close>; it hands over what
  the rest needs, the operation id and the temporary expense, or nothing when the
  function has returned.  \<open>now1\<close> and \<open>now2\<close> are the two readings of \<^verbatim>\<open>Date.now()\<close> and \<open>isoNow\<close>
  is \<^verbatim>\<open>new Date().toISOString()\<close>.
\<close>

definition addExpense_begin ::
  "hook_state \<Rightarrow> nat \<Rightarrow> nat \<Rightarrow> string \<Rightarrow> string \<Rightarrow> ExpenseData \<Rightarrow> hook_state \<Rightarrow>
   (string \<times> Expense) option \<times> hook_state" where
  "addExpense_begin seen now1 now2 isoNow tripId expense st =
     (if user seen = None then (None, st)
      else let operationId = ''add-'' @ tripId @ ''-'' @ integer_text now1 in
        if operationId \<in> pendingOperations st then (None, st)
        else let tempExpense = with_id (''temp-'' @ integer_text now2) expense in
          (Some (operationId, tempExpense),
           applyOptimisticUpdate seen tripId
             (\<lambda>trip. trip\<lparr>expenses := expenses trip @ [tempExpense],
                           totalExpenses := js_add (totalExpenses trip) (amount expense),
                           updatedAt := isoNow\<rparr>)
             (st\<lparr>pendingOperations := insert operationId (pendingOperations st)\<rparr>)))"

text \<open>The \<^verbatim>\<open>try\<close> after the \<^verbatim>\<open>await\<close>, the \<^verbatim>\<open>catch\<close>, and the \<^verbatim>\<open>finally\<close>.\<close>

definition addExpense_confirm ::
  "hook_state \<Rightarrow> string \<Rightarrow> Expense \<Rightarrow> add_result \<Rightarrow> hook_state \<Rightarrow> hook_state" where
  "addExpense_confirm seen tripId tempExpense result st =
     toast ''Expense Added''
       (applyOptimisticUpdate seen tripId
          (\<lambda>trip. trip\<lparr>expenses :=
                          map (\<lambda>exp. if id_expense exp = id_expense tempExpense
                                      then ar_expense result else exp)
                              (expenses trip),
                        totalExpenses := ar_newTotal result\<rparr>)
          st)"

definition addExpense_revert ::
  "hook_state \<Rightarrow> string \<Rightarrow> Expense \<Rightarrow> ExpenseData \<Rightarrow> hook_state \<Rightarrow> hook_state" where
  "addExpense_revert seen tripId tempExpense expense st =
     toast ''Error''
       (applyOptimisticUpdate seen tripId
          (\<lambda>trip. trip\<lparr>expenses :=
                          filter (\<lambda>exp. id_expense exp \<noteq> id_expense tempExpense)
                                 (expenses trip),
                        totalExpenses := js_sub (totalExpenses trip) (amount expense)\<rparr>)
          st)"

definition addExpense_settle ::
  "hook_state \<Rightarrow> string \<Rightarrow> ExpenseData \<Rightarrow> string \<times> Expense \<Rightarrow> js_error + add_result \<Rightarrow>
   hook_state \<Rightarrow> hook_state" where
  "addExpense_settle seen tripId expense ctx outcome st =
     (let st' = (case outcome of
                   Inr result \<Rightarrow> addExpense_confirm seen tripId (snd ctx) result st
                 | Inl error \<Rightarrow> addExpense_revert seen tripId (snd ctx) expense st)
      in st'\<lparr>pendingOperations := pendingOperations st' - {fst ctx}\<rparr>)"

text \<open>The whole call when nothing else touches the state while it waits.\<close>

definition addExpense ::
  "hook_state \<Rightarrow> nat \<Rightarrow> nat \<Rightarrow> string \<Rightarrow> string \<Rightarrow> ExpenseData \<Rightarrow> js_error + add_result \<Rightarrow>
   hook_state \<Rightarrow> hook_state" where
  "addExpense seen now1 now2 isoNow tripId expense outcome st =
     (case addExpense_begin seen now1 now2 isoNow tripId expense st of
        (None, st') \<Rightarrow> st'
      | (Some ctx, st') \<Rightarrow> addExpense_settle seen tripId expense ctx outcome st')"

subsection \<open>\<^verbatim>\<open>updateExpense\<close>\<close>

text \<open>
  The part before the \<^verbatim>\<open>await\<close> captures the original expense and the original total
  from the trips of its render.  When the trip or the expense is not found there the
  function returns after it has entered the operation id into the pending set.
\<close>

definition updateExpense_begin ::
  "hook_state \<Rightarrow> nat \<Rightarrow> string \<Rightarrow> string \<Rightarrow> string \<Rightarrow> PartialExpense \<Rightarrow> hook_state \<Rightarrow>
   (string \<times> Expense \<times> number) option \<times> hook_state" where
  "updateExpense_begin seen now isoNow tripId expenseId updates st =
     (if user seen = None then (None, st)
      else let operationId = ''update-'' @ expenseId @ ''-'' @ integer_text now in
        if operationId \<in> pendingOperations st then (None, st)
        else let st1 = st\<lparr>pendingOperations := insert operationId (pendingOperations st)\<rparr> in
          case find (\<lambda>t. id_trip t = tripId) (trips seen) of
            None \<Rightarrow> (None, st1)
          | Some originalTrip \<Rightarrow>
              (case find (\<lambda>e. id_expense e = expenseId) (expenses originalTrip) of
                 None \<Rightarrow> (None, st1)
               | Some originalExpense \<Rightarrow>
                   let originalTotal = totalExpenses originalTrip;
                       newAmount = (case amount_opt updates of
                                      Some a \<Rightarrow> a | None \<Rightarrow> amount originalExpense);
                       totalDiff = js_sub newAmount (amount originalExpense)
                   in (Some (operationId, originalExpense, originalTotal),
                       applyOptimisticUpdate seen tripId
                         (\<lambda>trip. trip\<lparr>expenses :=
                                         map (\<lambda>exp. if id_expense exp = expenseId
                                                     then spread exp updates else exp)
                                             (expenses trip),
                                       totalExpenses := js_add (totalExpenses trip) totalDiff,
                                       updatedAt := isoNow\<rparr>)
                         st1)))"

definition updateExpense_confirm ::
  "hook_state \<Rightarrow> string \<Rightarrow> string \<Rightarrow> update_result \<Rightarrow> hook_state \<Rightarrow> hook_state" where
  "updateExpense_confirm seen tripId expenseId result st =
     toast ''Expense Updated''
       (applyOptimisticUpdate seen tripId
          (\<lambda>trip. trip\<lparr>expenses :=
                          map (\<lambda>exp. if id_expense exp = expenseId
                                      then ur_expense result else exp)
                              (expenses trip),
                        totalExpenses := ur_newTotal result\<rparr>)
          st)"

definition updateExpense_revert ::
  "hook_state \<Rightarrow> string \<Rightarrow> string \<Rightarrow> Expense \<Rightarrow> number \<Rightarrow> hook_state \<Rightarrow> hook_state" where
  "updateExpense_revert seen tripId expenseId originalExpense originalTotal st =
     toast ''Error''
       (applyOptimisticUpdate seen tripId
          (\<lambda>trip. trip\<lparr>expenses :=
                          map (\<lambda>exp. if id_expense exp = expenseId
                                      then originalExpense else exp)
                              (expenses trip),
                        totalExpenses := originalTotal\<rparr>)
          st)"

definition updateExpense_settle ::
  "hook_state \<Rightarrow> string \<Rightarrow> string \<Rightarrow> string \<times> Expense \<times> number \<Rightarrow>
   js_error + update_result \<Rightarrow> hook_state \<Rightarrow> hook_state" where
  "updateExpense_settle seen tripId expenseId ctx outcome st =
     (let st' = (case outcome of
                   Inr result \<Rightarrow> updateExpense_confirm seen tripId expenseId result st
                 | Inl error \<Rightarrow>
                     updateExpense_revert seen tripId expenseId (fst (snd ctx))
                       (snd (snd ctx)) st)
      in st'\<lparr>pendingOperations := pendingOperations st' - {fst ctx}\<rparr>)"

definition updateExpense ::
  "hook_state \<Rightarrow> nat \<Rightarrow> string \<Rightarrow> string \<Rightarrow> string \<Rightarrow> PartialExpense \<Rightarrow>
   js_error + update_result \<Rightarrow> hook_state \<Rightarrow> hook_state" where
  "updateExpense seen now isoNow tripId expenseId updates outcome st =
     (case updateExpense_begin seen now isoNow tripId expenseId updates st of
        (None, st') \<Rightarrow> st'
      | (Some ctx, st') \<Rightarrow> updateExpense_settle seen tripId expenseId ctx outcome st')"

subsection \<open>\<^verbatim>\<open>deleteExpense\<close>\<close>

text \<open>
  The expense to delete is looked up in the trips of the render.  The \<^verbatim>\<open>catch\<close> puts the
  captured expense back and sorts the list by \<^verbatim>\<open>new Date(date + ' ' + time).getTime()\<close>,
  latest first; \<open>getTime\<close> is that reading of a text as a time, and the sort keeps the
  order of expenses with equal times.
\<close>

definition deleteExpense_begin ::
  "hook_state \<Rightarrow> nat \<Rightarrow> string \<Rightarrow> string \<Rightarrow> string \<Rightarrow> hook_state \<Rightarrow>
   (string \<times> Expense) option \<times> hook_state"
  where
  "deleteExpense_begin seen now isoNow tripId expenseId st =
     (if user seen = None then (None, st)
      else let operationId = ''delete-'' @ expenseId @ ''-'' @ integer_text now in
        if operationId \<in> pendingOperations st then (None, st)
        else let st1 = st\<lparr>pendingOperations := insert operationId (pendingOperations st)\<rparr> in
          case find (\<lambda>t. id_trip t = tripId) (trips seen) of
            None \<Rightarrow> (None, st1)
          | Some originalTrip \<Rightarrow>
              (case find (\<lambda>e. id_expense e = expenseId) (expenses originalTrip) of
                 None \<Rightarrow> (None, st1)
               | Some expenseToDelete \<Rightarrow>
                   (Some (operationId, expenseToDelete),
                    applyOptimisticUpdate seen tripId
                      (\<lambda>trip. trip\<lparr>expenses :=
                                      filter (\<lambda>exp. id_expense exp \<noteq> expenseId)
                                             (expenses trip),
                                    totalExpenses :=
                                      js_sub (totalExpenses trip) (amount expenseToDelete),
                                    updatedAt := isoNow\<rparr>)
                      st1)))"

definition deleteExpense_confirm ::
  "hook_state \<Rightarrow> string \<Rightarrow> delete_result \<Rightarrow> hook_state \<Rightarrow> hook_state" where
  "deleteExpense_confirm seen tripId result st =
     toast ''Expense Deleted''
       (applyOptimisticUpdate seen tripId
          (\<lambda>trip. trip\<lparr>totalExpenses := dr_newTotal result\<rparr>) st)"

definition deleteExpense_revert ::
  "hook_state \<Rightarrow> (string \<Rightarrow> int) \<Rightarrow> string \<Rightarrow> Expense \<Rightarrow> hook_state \<Rightarrow> hook_state" where
  "deleteExpense_revert seen getTime tripId expenseToDelete st =
     toast ''Error''
       (applyOptimisticUpdate seen tripId
          (\<lambda>trip. trip\<lparr>expenses :=
                          sort_key (\<lambda>e. - getTime (date e @ '' '' @ time e))
                                   (expenses trip @ [expenseToDelete]),
                        totalExpenses :=
                          js_add (totalExpenses trip) (amount expenseToDelete)\<rparr>)
          st)"

definition deleteExpense_settle ::
  "hook_state \<Rightarrow> (string \<Rightarrow> int) \<Rightarrow> string \<Rightarrow> string \<times> Expense \<Rightarrow>
   js_error + delete_result \<Rightarrow> hook_state \<Rightarrow> hook_state" where
  "deleteExpense_settle seen getTime tripId ctx outcome st =
     (let st' = (case outcome of
                   Inr result \<Rightarrow> deleteExpense_confirm seen tripId result st
                 | Inl error \<Rightarrow> deleteExpense_revert seen getTime tripId (snd ctx) st)
      in st'\<lparr>pendingOperations := pendingOperations st' - {fst ctx}\<rparr>)"

definition deleteExpense ::
  "hook_state \<Rightarrow> (string \<Rightarrow> int) \<Rightarrow> nat \<Rightarrow> string \<Rightarrow> string \<Rightarrow> string \<Rightarrow>
   js_error + delete_result \<Rightarrow> hook_state \<Rightarrow> hook_state" where
  "deleteExpense seen getTime now isoNow tripId expenseId outcome st =
     (case deleteExpense_begin seen now isoNow tripId expenseId st of
        (None, st') \<Rightarrow> st'
      | (Some ctx, st') \<Rightarrow> deleteExpense_settle seen getTime tripId ctx outcome st')"

subsection \<open>A trip in memory\<close>

definition lunch :: Expense where
  "lunch =
     \<lparr>description = ''lunch'', amount = (3602879701896397, -55), category = food,
      date = ''2024-01-01'', time = ''13:00'', id_expense = ''e1''\<rparr>"

definition goa_trip :: Trip where
  "goa_trip =
     \<lparr>id_trip = ''T'', tripNumber = ''TR001'', origin = ''Pune'', destination = ''Goa'',
      travelMode = ''car'', date_trip = ''2024-01-01'', time_trip = ''09:00'', notes_trip = None,
      travelers = [], expenses = [lunch], totalExpenses = (3602879701896397, -55),
      status = in_progress, createdAt = ''2024-01-01T08:00:00.000Z'',
      updatedAt = ''2024-01-01T08:00:00.000Z''\<rparr>"

definition goa_state :: hook_state where
  "goa_state =
     \<lparr>user = Some ''U'', trips = [goa_trip], activeTrip = Some goa_trip,
      pendingOperations = {}, toasts = []\<rparr>"

definition tea :: ExpenseData where
  "tea =
     \<lparr>description = ''tea'', amount = (3602879701896397, -54), category = food,
      date = ''2024-01-01'', time = ''16:00''\<rparr>"

definition no_changes :: PartialExpense where
  "no_changes =
     \<lparr>id_opt = None, description_opt = None, amount_opt = None, category_opt = None,
      date_opt = None, time_opt = None\<rparr>"

definition costs_more :: PartialExpense where
  "costs_more = no_changes\<lparr>amount_opt := Some (3602879701896397, -54)\<rparr>"

text \<open>
  The answer of the service to the update of the amount of the lunch to 0.2, and the
  state after that update has gone through.
\<close>

definition dearer_lunch :: update_result where
  "dearer_lunch =
     \<lparr>ur_expense = lunch\<lparr>amount := (3602879701896397, -54)\<rparr>,
      ur_newTotal = (3602879701896397, -54), ur_tripId = ''T''\<rparr>"

definition goa_state_later :: hook_state where
  "goa_state_later =
     updateExpense goa_state 7 ''now'' ''T'' ''e1'' costs_more (Inr dearer_lunch) goa_state"

text \<open>An update of the description, and an update that carries another id.\<close>

definition renamed :: PartialExpense where
  "renamed = no_changes\<lparr>description_opt := Some ''brunch''\<rparr>"

definition other_id :: PartialExpense where
  "other_id = costs_more\<lparr>id_opt := Some ''e9''\<rparr>"
section \<open>The optimized expense service\<close>

text \<open>
  \<^verbatim>\<open>optimizedExpenseService\<close> talks to the backend through the \<^verbatim>\<open>supabase\<close> client.  Each
  place where a function awaits the client has its answer as a field of a record; an
  answer is what the client resolves to there: the user or \<^verbatim>\<open>null\<close>, or the \<^verbatim>\<open>error\<close>
  (its message) on the left and the \<^verbatim>\<open>data\<close> on the right.  A numeric column arrives as
  the number \<^verbatim>\<open>parseFloat\<close> reads from it.  A function returns the calls it made to the
  client, in order, and either the error it throws or its result.
\<close>

datatype client_call =
    auth_getUser
  | rpc_call string
  | from_insert string
  | from_update string
  | from_select string
  | from_delete string

record expenses_data =
  xd_id :: string
  xd_trip_id :: string
  xd_description :: string
  xd_amount :: number
  xd_category :: category
  xd_date :: string
  xd_time :: string

record add_rpc_data =
  ad_expense_id :: string
  ad_new_total :: number

record add_answers =
  add_user :: "string option"
  add_rpc :: "string + add_rpc_data"
  add_manual_user :: "string option"
  add_insert :: "string + expenses_data"
  add_trip_total :: "string + number"

definition addExpenseManual ::
  "add_answers \<Rightarrow> string \<Rightarrow> ExpenseData \<Rightarrow> client_call list \<times> (js_error + add_result)" where
  "addExpenseManual answers tripId expense =
     (case add_manual_user answers of
        None \<Rightarrow> ([auth_getUser], Inl (Error ''User not authenticated''))
      | Some uid \<Rightarrow>
          (case add_insert answers of
             Inl message \<Rightarrow>
               ([auth_getUser, from_insert ''expenses''],
                Inl (Error (''Failed to add expense: '' @ message)))
           | Inr expenseData \<Rightarrow>
               ([auth_getUser, from_insert ''expenses'', from_select ''trips''],
                Inr \<lparr>ar_expense =
                       \<lparr>description = xd_description expenseData,
                        amount = xd_amount expenseData,
                        category = xd_category expenseData,
                        date = xd_date expenseData, time = xd_time expenseData,
                        id_expense = xd_id expenseData\<rparr>,
                     ar_newTotal =
                       (case add_trip_total answers of
                          Inr total_expenses \<Rightarrow> total_expenses
                        | Inl tripError \<Rightarrow> amount expense)\<rparr>)))"

definition addExpenseOptimized ::
  "add_answers \<Rightarrow> string \<Rightarrow> ExpenseData \<Rightarrow> client_call list \<times> (js_error + add_result)" where
  "addExpenseOptimized answers tripId expense =
     (case add_user answers of
        None \<Rightarrow> ([auth_getUser], Inl (Error ''User not authenticated''))
      | Some uid \<Rightarrow>
          (case add_rpc answers of
             Inl error \<Rightarrow>
               (let (calls, outcome) = addExpenseManual answers tripId expense
                in ([auth_getUser, rpc_call ''add_expense_with_total''] @ calls, outcome))
           | Inr data \<Rightarrow>
               ([auth_getUser, rpc_call ''add_expense_with_total''],
                Inr \<lparr>ar_expense = with_id (ad_expense_id data) expense,
                     ar_newTotal = ad_new_total data\<rparr>)))"

record update_rpc_data =
  ud_description :: string
  ud_amount :: number
  ud_category :: category
  ud_date :: string
  ud_time :: string
  ud_new_total :: number
  ud_trip_id :: string

record update_answers =
  upd_user :: "string option"
  upd_rpc :: "string + update_rpc_data"
  upd_manual_user :: "string option"
  upd_update :: "string + expenses_data"
  upd_trip_total :: "string + number"

definition updateExpenseManual ::
  "update_answers \<Rightarrow> string \<Rightarrow> PartialExpense \<Rightarrow>
   client_call list \<times> (js_error + update_result)" where
  "updateExpenseManual answers expenseId updates =
     (case upd_manual_user answers of
        None \<Rightarrow> ([auth_getUser], Inl (Error ''User not authenticated''))
      | Some uid \<Rightarrow>
          (case upd_update answers of
             Inl message \<Rightarrow>
               ([auth_getUser, from_update ''expenses''],
                Inl (Error (''Failed to update expense: '' @ message)))
           | Inr expenseData \<Rightarrow>
               ([auth_getUser, from_update ''expenses'', from_select ''trips''],
                Inr \<lparr>ur_expense =
                       \<lparr>description = xd_description expenseData,
                        amount = xd_amount expenseData,
                        category = xd_category expenseData,
                        date = xd_date expenseData, time = xd_time expenseData,
                        id_expense = xd_id expenseData\<rparr>,
                     ur_newTotal =
                       (case upd_trip_total answers of
                          Inr total_expenses \<Rightarrow> total_expenses
                        | Inl tripError \<Rightarrow> xd_amount expenseData),
                     ur_tripId = xd_trip_id expenseData\<rparr>)))"

definition updateExpenseOptimized ::
  "update_answers \<Rightarrow> string \<Rightarrow> PartialExpense \<Rightarrow>
   client_call list \<times> (js_error + update_result)" where
  "updateExpenseOptimized answers expenseId updates =
     (case upd_user answers of
        None \<Rightarrow> ([auth_getUser], Inl (Error ''User not authenticated''))
      | Some uid \<Rightarrow>
          (case upd_rpc answers of
             Inl error \<Rightarrow>
               (let (calls, outcome) = updateExpenseManual answers expenseId updates
                in ([auth_getUser, rpc_call ''update_expense_with_total''] @ calls, outcome))
           | Inr data \<Rightarrow>
               ([auth_getUser, rpc_call ''update_expense_with_total''],
                Inr \<lparr>ur_expense =
                       \<lparr>description = ud_description data, amount = ud_amount data,
                        category = ud_category data, date = ud_date data,
                        time = ud_time data, id_expense = expenseId\<rparr>,
                     ur_newTotal = ud_new_total data,
                     ur_tripId = ud_trip_id data\<rparr>)))"

record delete_rpc_data =
  dd_new_total :: number
  dd_trip_id :: string

text \<open>
  In the manual delete the first answer is the row read before the deletion (its
  \<^verbatim>\<open>trip_id\<close>), and the \<^verbatim>\<open>delete\<close> answers with an error or with none.
\<close>

record delete_answers =
  del_user :: "string option"
  del_rpc :: "string + delete_rpc_data"
  del_manual_user :: "string option"
  del_select :: "string + string"
  del_delete :: "string option"
  del_trip_total :: "string + number"

definition deleteExpenseManual ::
  "delete_answers \<Rightarrow> string \<Rightarrow> client_call list \<times> (js_error + delete_result)" where
  "deleteExpenseManual answers expenseId =
     (case del_manual_user answers of
        None \<Rightarrow> ([auth_getUser], Inl (Error ''User not authenticated''))
      | Some uid \<Rightarrow>
          (case del_select answers of
             Inl message \<Rightarrow>
               ([auth_getUser, from_select ''expenses''],
                Inl (Error (''Failed to fetch expense details: '' @ message)))
           | Inr trip_id \<Rightarrow>
               (case del_delete answers of
                  Some message \<Rightarrow>
                    ([auth_getUser, from_select ''expenses'', from_delete ''expenses''],
                     Inl (Error (''Failed to delete expense: '' @ message)))
                | None \<Rightarrow>
                    ([auth_getUser, from_select ''expenses'', from_delete ''expenses'',
                      from_select ''trips''],
                     Inr \<lparr>dr_newTotal =
                            (case del_trip_total answers of
                               Inr total_expenses \<Rightarrow> total_expenses
                             | Inl tripError \<Rightarrow> (0, 0)),
                          dr_tripId = trip_id\<rparr>))))"

definition deleteExpenseOptimized ::
  "delete_answers \<Rightarrow> string \<Rightarrow> client_call list \<times> (js_error + delete_result)" where
  "deleteExpenseOptimized answers expenseId =
     (case del_user answers of
        None \<Rightarrow> ([auth_getUser], Inl (Error ''User not authenticated''))
      | Some uid \<Rightarrow>
          (case del_rpc answers of
             Inl error \<Rightarrow>
               (let (calls, outcome) = deleteExpenseManual answers expenseId
                in ([auth_getUser, rpc_call ''delete_expense_with_total''] @ calls, outcome))
           | Inr data \<Rightarrow>
               ([auth_getUser, rpc_call ''delete_expense_with_total''],
                Inr \<lparr>dr_newTotal = dd_new_total data, dr_tripId = dd_trip_id data\<rparr>)))"

text \<open>How often a call occurs among the calls made.\<close>

definition times_called :: "client_call \<Rightarrow> client_call list \<Rightarrow> nat" where
  "times_called c calls = length (filter (\<lambda>x. x = c) calls)"

text \<open>
  Answers for the examples: the stored procedure is not there, the plain write goes
  through, and the read of the trip fails; and the same with a failing write.
\<close>

definition tea_row :: expenses_data where
  "tea_row =
     \<lparr>xd_id = ''e2'', xd_trip_id = ''T'', xd_description = ''tea'',
      xd_amount = (3602879701896397, -54), xd_category = food, xd_date = ''2024-01-01'',
      xd_time = ''16:00''\<rparr>"

definition add_read_fails :: add_answers where
  "add_read_fails =
     \<lparr>add_user = Some ''U'', add_rpc = Inl ''function not found'',
      add_manual_user = Some ''U'', add_insert = Inr tea_row,
      add_trip_total = Inl ''timeout''\<rparr>"

definition add_write_fails :: add_answers where
  "add_write_fails = add_read_fails\<lparr>add_insert := Inl ''timeout''\<rparr>"

definition update_read_fails :: update_answers where
  "update_read_fails =
     \<lparr>upd_user = Some ''U'', upd_rpc = Inl ''function not found'',
      upd_manual_user = Some ''U'', upd_update = Inr tea_row,
      upd_trip_total = Inl ''timeout''\<rparr>"

definition update_write_fails :: update_answers where
  "update_write_fails = update_read_fails\<lparr>upd_update := Inl ''timeout''\<rparr>"

definition delete_read_fails :: delete_answers where
  "delete_read_fails =
     \<lparr>del_user = Some ''U'', del_rpc = Inl ''function not found'',
      del_manual_user = Some ''U'', del_select = Inr ''T'', del_delete = None,
      del_trip_total = Inl ''timeout''\<rparr>"

definition delete_write_fails :: delete_answers where
  "delete_write_fails = delete_read_fails\<lparr>del_delete := Some ''timeout''\<rparr>"

section \<open>The operation cache\<close>

subsection \<open>The text of a payload\<close>

text \<open>
  The cache keys are built with \<^verbatim>\<open>JSON.stringify\<close>.  An object is the list of its own
  enumerable properties, name and value, in the order in which \<^verbatim>\<open>JSON.stringify\<close> visits
  them; for names that are not array indices, as those of an expense, that is the order
  in which the properties were created.  The values are the primitive ones; a text is a
  list of characters below 256.  \<^verbatim>\<open>Number::toString\<close>, which gives a number its shortest
  decimal text, belongs to the engine: it is the parameter \<open>number_text\<close>, and nothing is
  assumed about it.
\<close>

datatype js_value =
    js_undefined
  | js_null
  | js_boolean bool
  | js_number number
  | js_string string

type_synonym js_object = "(string \<times> js_value) list"

definition hex_digit :: "nat \<Rightarrow> char" where
  "hex_digit n = ''0123456789abcdef'' ! n"

text \<open>
  \<^verbatim>\<open>QuoteJSONString\<close>: the quotation mark and the backslash get a backslash, the control
  characters their short escape or \<^verbatim>\<open>\u00\<close> and two hexadecimal digits.
\<close>

definition quote_char :: "char \<Rightarrow> string" where
  "quote_char ch =
     (if ch = CHR 0x08 then [CHR 0x5C, CHR ''b'']
      else if ch = CHR 0x09 then [CHR 0x5C, CHR ''t'']
      else if ch = CHR 0x0A then [CHR 0x5C, CHR ''n'']
      else if ch = CHR 0x0C then [CHR 0x5C, CHR ''f'']
      else if ch = CHR 0x0D then [CHR 0x5C, CHR ''r'']
      else if ch = CHR 0x22 then [CHR 0x5C, CHR 0x22]
      else if ch = CHR 0x5C then [CHR 0x5C, CHR 0x5C]
      else if (of_char ch :: nat) < 32
        then [CHR 0x5C, CHR ''u'', CHR ''0'', CHR ''0'',
              hex_digit (of_char ch div 16), hex_digit (of_char ch mod 16)]
      else [ch])"

definition QuoteJSONString :: "string \<Rightarrow> string" where
  "QuoteJSONString s = [CHR 0x22] @ concat (map quote_char s) @ [CHR 0x22]"

text \<open>
  \<^verbatim>\<open>SerializeJSONProperty\<close> for a primitive value: \<^verbatim>\<open>undefined\<close> has no text, and a property
  with that value is left out of the text of its object.
\<close>

fun SerializeJSONProperty :: "(number \<Rightarrow> string) \<Rightarrow> js_value \<Rightarrow> string option" where
  "SerializeJSONProperty number_text js_undefined = None"
| "SerializeJSONProperty number_text js_null = Some ''null''"
| "SerializeJSONProperty number_text (js_boolean b) = Some (if b then ''true'' else ''false'')"
| "SerializeJSONProperty number_text (js_number n) = Some (number_text n)"
| "SerializeJSONProperty number_text (js_string s) = Some (QuoteJSONString s)"

fun separated :: "string list \<Rightarrow> string" where
  "separated [] = []"
| "separated [s] = s"
| "separated (s # t # ss) = s @ '','' @ separated (t # ss)"

text \<open>\<^verbatim>\<open>JSON.stringify(object)\<close>, without indentation.\<close>

definition JSON_stringify :: "(number \<Rightarrow> string) \<Rightarrow> js_object \<Rightarrow> string" where
  "JSON_stringify number_text object =
     ''{'' @
     separated
       (List.map_filter
          (\<lambda>(name, v). map_option (\<lambda>text. QuoteJSONString name @ '':'' @ text)
                          (SerializeJSONProperty number_text v))
          object) @
     ''}''"

subsection \<open>\<^verbatim>\<open>cachedExpenseService\<close>\<close>

text \<open>
  \<^verbatim>\<open>cachedExpenseService\<close> keeps a map from cache keys to promises.  A key is the text
  \<^verbatim>\<open>add-<tripId>-<JSON of the expense>\<close>, \<^verbatim>\<open>update-<expenseId>-<JSON of the updates>\<close> or
  \<^verbatim>\<open>delete-<expenseId>\<close>.  A promise is the number of the operation it belongs to, counted
  in the order in which \<^verbatim>\<open>optimizedExpenseService\<close> was called.  Every call of
  \<^verbatim>\<open>optimizedExpenseService\<close> sends its mutation to the backend, so the list \<open>started\<close> is
  the list of mutations sent.  \<open>timers\<close> are the pending \<^verbatim>\<open>setTimeout\<close> callbacks, each with
  the key it will delete after \<^verbatim>\<open>CACHE_TIMEOUT\<close>, one second; \<open>settled\<close> are the promises
  that have resolved or rejected.
\<close>

datatype operation =
    addExpenseOptimized_of string js_object
  | updateExpenseOptimized_of string js_object
  | deleteExpenseOptimized_of string

record service_state =
  operationCache :: "string \<rightharpoonup> nat"
  started :: "operation list"
  timers :: "string list"
  settled :: "nat set"

text \<open>
  The body the three functions share: return the cached promise, or start the
  operation, cache its promise and set the timer.
\<close>

definition cached :: "string \<Rightarrow> operation \<Rightarrow> service_state \<Rightarrow> nat \<times> service_state" where
  "cached cacheKey operation s =
     (case operationCache s cacheKey of
        Some promise \<Rightarrow> (promise, s)
      | None \<Rightarrow>
          (length (started s),
           s\<lparr>started := started s @ [operation],
              operationCache := (operationCache s)(cacheKey \<mapsto> length (started s)),
              timers := timers s @ [cacheKey]\<rparr>))"

definition cached_addExpense ::
  "(number \<Rightarrow> string) \<Rightarrow> string \<Rightarrow> js_object \<Rightarrow> service_state \<Rightarrow> nat \<times> service_state" where
  "cached_addExpense number_text tripId expense =
     cached (''add-'' @ tripId @ ''-'' @ JSON_stringify number_text expense)
       (addExpenseOptimized_of tripId expense)"

definition cached_updateExpense ::
  "(number \<Rightarrow> string) \<Rightarrow> string \<Rightarrow> js_object \<Rightarrow> service_state \<Rightarrow> nat \<times> service_state" where
  "cached_updateExpense number_text expenseId updates =
     cached (''update-'' @ expenseId @ ''-'' @ JSON_stringify number_text updates)
       (updateExpenseOptimized_of expenseId updates)"

definition cached_deleteExpense :: "string \<Rightarrow> service_state \<Rightarrow> nat \<times> service_state" where
  "cached_deleteExpense expenseId =
     cached (''delete-'' @ expenseId) (deleteExpenseOptimized_of expenseId)"

text \<open>The callback of a timer: \<^verbatim>\<open>operationCache.delete(cacheKey)\<close>.\<close>

definition timer_fires :: "string \<Rightarrow> service_state \<Rightarrow> service_state" where
  "timer_fires cacheKey s =
     (if cacheKey \<in> set (timers s)
      then s\<lparr>operationCache := (operationCache s)(cacheKey := None),
             timers := remove1 cacheKey (timers s)\<rparr>
      else s)"

definition promise_settles :: "nat \<Rightarrow> service_state \<Rightarrow> service_state" where
  "promise_settles promise s = s\<lparr>settled := insert promise (settled s)\<rparr>"

text \<open>What can happen to the service, one thing after the other.\<close>

datatype event =
    Calls_addExpense string js_object
  | Calls_updateExpense string js_object
  | Calls_deleteExpense string
  | Timer_fires string
  | Promise_settles nat

fun step :: "(number \<Rightarrow> string) \<Rightarrow> service_state \<Rightarrow> event \<Rightarrow> service_state" where
  "step number_text s (Calls_addExpense tripId expense) =
     snd (cached_addExpense number_text tripId expense s)"
| "step number_text s (Calls_updateExpense expenseId updates) =
     snd (cached_updateExpense number_text expenseId updates s)"
| "step number_text s (Calls_deleteExpense expenseId) = snd (cached_deleteExpense expenseId s)"
| "step number_text s (Timer_fires cacheKey) = timer_fires cacheKey s"
| "step number_text s (Promise_settles promise) = promise_settles promise s"

definition initial_service :: service_state where
  "initial_service = \<lparr>operationCache = Map.empty, started = [], timers = [], settled = {}\<rparr>"

text \<open>
  The expense of 0.2 for tea as an object, and the same properties with the amount
  created first.
\<close>

definition tea_object :: js_object where
  "tea_object =
     [(''description'', js_string ''tea''), (''amount'', js_number (3602879701896397, -54)),
      (''category'', js_string ''food''), (''date'', js_string ''2024-01-01''),
      (''time'', js_string ''16:00'')]"

definition tea_object_amount_first :: js_object where
  "tea_object_amount_first =
     [(''amount'', js_number (3602879701896397, -54)), (''description'', js_string ''tea''),
      (''category'', js_string ''food''), (''date'', js_string ''2024-01-01''),
      (''time'', js_string ''16:00'')]"
section \<open>The sum invariant\<close>

lemma policy_table_owner [simp]: "policy table_owner u"
  by (simp add: policy_def)

lemma policy_authenticated [simp]: "policy (authenticated c) u \<longleftrightarrow> c = u"
  by (simp add: policy_def)

lemma visible_table_owner [simp]: "visible table_owner d = d"
  by (simp add: visible_def)

lemma update_trip_total_expenses_expenses:
  "update_trip_total_expenses r tid d = Inr d' \<Longrightarrow> tbl_expenses d' = tbl_expenses d"
  by (auto simp: update_trip_total_expenses_def Let_def split: if_splits)

lemma sum_amount_cong:
  "tbl_expenses d' = tbl_expenses d \<Longrightarrow> sum_amount d' tid = sum_amount d tid"
  by (simp add: sum_amount_def)

lemma update_trip_total_expenses_trips:
  "update_trip_total_expenses table_owner tid d = Inr d' \<Longrightarrow>
   tbl_trips d' =
     map (\<lambda>t. if tr_id t = tid then t\<lparr>tr_total_expenses := sum_amount d tid\<rparr> else t)
         (tbl_trips d)"
  by (auto simp: update_trip_total_expenses_def Let_def split: if_splits)

lemma fire_triggers_expenses:
  "fire_triggers r tids d = Inr d' \<Longrightarrow> tbl_expenses d' = tbl_expenses d"
proof (induction tids arbitrary: d)
  case Nil
  then show ?case by simp
next
  case (Cons tid tids)
  then show ?case
    by (auto split: sum.splits dest: update_trip_total_expenses_expenses)
qed

text \<open>
  After the triggers have run for the trips in \<open>tids\<close>, each of those trips carries the
  full sum, whatever it carried before, and every other trip row is untouched.
\<close>

lemma fire_triggers_trips:
  "fire_triggers table_owner tids d = Inr d' \<Longrightarrow>
   tbl_trips d' =
     map (\<lambda>t. if tr_id t \<in> set tids then t\<lparr>tr_total_expenses := sum_amount d (tr_id t)\<rparr>
               else t)
         (tbl_trips d)"
proof (induction tids arbitrary: d)
  case Nil
  then show ?case by (simp add: map_idI)
next
  case (Cons tid tids)
  from Cons.prems obtain d1 where
    d1: "update_trip_total_expenses table_owner tid d = Inr d1" and
    rest: "fire_triggers table_owner tids d1 = Inr d'"
    by (auto split: sum.splits)
  have ex: "tbl_expenses d1 = tbl_expenses d"
    using d1 by (rule update_trip_total_expenses_expenses)
  have s: "\<And>x. sum_amount d1 x = sum_amount d x"
    using ex by (rule sum_amount_cong)
  show ?case
    by (simp add: Cons.IH [OF rest] update_trip_total_expenses_trips [OF d1] s)
qed

lemma total_invariant_after_triggers:
  assumes fired: "fire_triggers table_owner tids d1 = Inr d'"
    and old: "total_invariant d"
    and trips: "tbl_trips d1 = tbl_trips d"
    and others: "\<And>tid. tid \<notin> set tids \<Longrightarrow> sum_amount d1 tid = sum_amount d tid"
  shows "total_invariant d'"
proof -
  have ex: "tbl_expenses d' = tbl_expenses d1"
    using fired by (rule fire_triggers_expenses)
  have s: "\<And>x. sum_amount d' x = sum_amount d1 x"
    using ex by (rule sum_amount_cong)
  show ?thesis
    using old others
    by (auto simp: total_invariant_def list_all_iff fire_triggers_trips [OF fired] trips s)
qed

lemma sum_amount_append:
  "sum_amount (d\<lparr>tbl_expenses := tbl_expenses d @ [r]\<rparr>) tid =
     sum_amount d tid + (if er_trip_id r = tid then er_amount r else 0)"
  by (simp add: sum_amount_def)

lemma set_expense_columns_trip_id [simp]:
  "er_trip_id (set_expense_columns de am ca da ti e) = er_trip_id e"
  by (simp add: set_expense_columns_def)

lemma sum_amount_update_other:
  assumes "tid \<notin> er_trip_id ` {e \<in> set rows. hit e}"
  shows "sum_list (map er_amount (filter (\<lambda>e. er_trip_id e = tid)
            (map (\<lambda>e. if hit e then set_expense_columns de am ca da ti e else e) rows))) =
         sum_list (map er_amount (filter (\<lambda>e. er_trip_id e = tid) rows))"
  using assms by (induction rows) auto

lemma sum_amount_delete_other:
  assumes "tid \<notin> er_trip_id ` {e \<in> set rows. hit e}"
  shows "sum_list (map er_amount (filter (\<lambda>e. er_trip_id e = tid)
            (filter (\<lambda>e. \<not> hit e) rows))) =
         sum_list (map er_amount (filter (\<lambda>e. er_trip_id e = tid) rows))"
  using assms by (induction rows) auto

lemma insert_expense_invariant:
  assumes "insert_expense table_owner new_id trip uid de am ca da ti d = Inr d'"
    and "total_invariant d"
  shows "total_invariant d'"
proof -
  from assms(1) obtain row where
    fired: "fire_triggers table_owner [trip] (d\<lparr>tbl_expenses := tbl_expenses d @ [row]\<rparr>) =
              Inr d'"
    and row: "er_trip_id row = trip"
    by (auto simp: insert_expense_def split: option.splits if_splits)
  show ?thesis
    by (rule total_invariant_after_triggers [OF fired assms(2)])
       (simp_all add: sum_amount_append row)
qed

lemma update_expense_fired:
  assumes "update_expense r eid uid de am ca da ti d = Inr d'"
  shows "fire_triggers r
           (map er_trip_id
              (filter (\<lambda>e. er_id e = eid \<and> er_user_id e = uid \<and> policy r (er_user_id e))
                 (tbl_expenses d)))
           (d\<lparr>tbl_expenses :=
                map (\<lambda>e. if er_id e = eid \<and> er_user_id e = uid \<and> policy r (er_user_id e)
                          then set_expense_columns de am ca da ti e else e)
                    (tbl_expenses d)\<rparr>) = Inr d'"
  using assms by (auto simp: update_expense_def Let_def comp_def split: if_splits)

lemma delete_expense_fired:
  assumes "delete_expense r eid uid d = Inr d'"
  shows "fire_triggers r
           (map er_trip_id
              (filter (\<lambda>e. er_id e = eid \<and> er_user_id e = uid \<and> policy r (er_user_id e))
                 (tbl_expenses d)))
           (d\<lparr>tbl_expenses :=
                filter (\<lambda>e. \<not> (er_id e = eid \<and> er_user_id e = uid \<and> policy r (er_user_id e)))
                    (tbl_expenses d)\<rparr>) = Inr d'"
  using assms by (simp add: delete_expense_def Let_def)

lemma update_expense_invariant:
  assumes "update_expense table_owner eid uid de am ca da ti d = Inr d'"
    and "total_invariant d"
  shows "total_invariant d'"
proof -
  let ?hit = "\<lambda>e. er_id e = eid \<and> er_user_id e = uid"
  let ?d1 = "d\<lparr>tbl_expenses :=
                 map (\<lambda>e. if ?hit e then set_expense_columns de am ca da ti e else e)
                     (tbl_expenses d)\<rparr>"
  let ?tids = "map er_trip_id (filter ?hit (tbl_expenses d))"
  from update_expense_fired [OF assms(1)]
  have fired: "fire_triggers table_owner ?tids ?d1 = Inr d'"
    by simp
  have tids: "set ?tids = er_trip_id ` {e \<in> set (tbl_expenses d). ?hit e}"
    by auto
  show ?thesis
  proof (rule total_invariant_after_triggers [OF fired assms(2)])
    show "tbl_trips ?d1 = tbl_trips d" by simp
  next
    fix tid assume "tid \<notin> set ?tids"
    then have "tid \<notin> er_trip_id ` {e \<in> set (tbl_expenses d). ?hit e}"
      using tids by simp
    then show "sum_amount ?d1 tid = sum_amount d tid"
      unfolding sum_amount_def by (simp add: sum_amount_update_other)
  qed
qed

lemma delete_expense_invariant:
  assumes "delete_expense table_owner eid uid d = Inr d'" and "total_invariant d"
  shows "total_invariant d'"
proof -
  let ?hit = "\<lambda>e. er_id e = eid \<and> er_user_id e = uid"
  let ?d1 = "d\<lparr>tbl_expenses := filter (\<lambda>e. \<not> ?hit e) (tbl_expenses d)\<rparr>"
  let ?tids = "map er_trip_id (filter ?hit (tbl_expenses d))"
  from delete_expense_fired [OF assms(1)]
  have fired: "fire_triggers table_owner ?tids ?d1 = Inr d'"
    by simp
  have tids: "set ?tids = er_trip_id ` {e \<in> set (tbl_expenses d). ?hit e}"
    by auto
  show ?thesis
  proof (rule total_invariant_after_triggers [OF fired assms(2)])
    show "tbl_trips ?d1 = tbl_trips d" by simp
  next
    fix tid assume "tid \<notin> set ?tids"
    then have "tid \<notin> er_trip_id ` {e \<in> set (tbl_expenses d). ?hit e}"
      using tids by simp
    then show "sum_amount ?d1 tid = sum_amount d tid"
      using sum_amount_delete_other [of tid "tbl_expenses d" ?hit]
      by (simp add: sum_amount_def)
  qed
qed

lemma run_mutation_invariant:
  "run_mutation table_owner m d = Inr d' \<Longrightarrow> total_invariant d \<Longrightarrow> total_invariant d'"
  by (cases m)
     (auto intro: insert_expense_invariant update_expense_invariant delete_expense_invariant)


subsection \<open>The keys\<close>

lemma fire_triggers_ids:
  "fire_triggers table_owner tids d = Inr d' \<Longrightarrow>
   map tr_id (tbl_trips d') = map tr_id (tbl_trips d)"
  by (simp add: fire_triggers_trips comp_def if_distrib [of tr_id] cong: if_cong)

lemma run_mutation_ids:
  assumes "run_mutation table_owner m d = Inr d'"
  shows "map tr_id (tbl_trips d') = map tr_id (tbl_trips d)"
proof (cases m)
  case (Insert new_id trip uid de am ca da ti)
  with assms obtain d1 where
    "fire_triggers table_owner [trip] d1 = Inr d'" "tbl_trips d1 = tbl_trips d"
    by (auto simp: insert_expense_def split: option.splits if_splits)
  then show ?thesis
    using fire_triggers_ids by metis
next
  case (Update eid uid de am ca da ti)
  with assms obtain tids d1 where
    "fire_triggers table_owner tids d1 = Inr d'" "tbl_trips d1 = tbl_trips d"
    by (auto simp: update_expense_def Let_def split: if_splits)
  then show ?thesis
    using fire_triggers_ids by metis
next
  case (Delete eid uid)
  with assms obtain tids d1 where
    "fire_triggers table_owner tids d1 = Inr d'" "tbl_trips d1 = tbl_trips d"
    by (auto simp: delete_expense_def Let_def)
  then show ?thesis
    using fire_triggers_ids by metis
qed

lemma run_mutation_foreign_key:
  assumes "run_mutation table_owner m d = Inr d'"
    and "list_all (\<lambda>e. list_ex (\<lambda>t. tr_id t = er_trip_id e) (tbl_trips d)) (tbl_expenses d)"
  shows "er_trip_id ` set (tbl_expenses d') \<subseteq> tr_id ` set (tbl_trips d)"
proof -
  have old: "er_trip_id ` set (tbl_expenses d) \<subseteq> tr_id ` set (tbl_trips d)"
    using assms(2) by (auto simp: list_all_iff list_ex_iff) (metis imageI)
  show ?thesis
  proof (cases m)
    case (Insert new_id trip uid de am ca da ti)
    with assms(1) obtain row where
      fired: "fire_triggers table_owner [trip] (d\<lparr>tbl_expenses := tbl_expenses d @ [row]\<rparr>) =
                Inr d'" and
      row: "er_trip_id row = trip" and fk: "list_ex (\<lambda>t. tr_id t = trip) (tbl_trips d)"
      by (auto simp: insert_expense_def split: option.splits if_splits)
    from fk have "trip \<in> tr_id ` set (tbl_trips d)"
      by (auto simp: list_ex_iff)
    then show ?thesis
      using fire_triggers_expenses [OF fired] old row by auto
  next
    case (Update eid uid de am ca da ti)
    with assms(1) have "update_expense table_owner eid uid de am ca da ti d = Inr d'"
      by simp
    from fire_triggers_expenses [OF update_expense_fired [OF this]]
    have "er_trip_id ` set (tbl_expenses d') \<subseteq> er_trip_id ` set (tbl_expenses d)"
      by auto
    then show ?thesis
      using old by auto
  next
    case (Delete eid uid)
    with assms(1) have "delete_expense table_owner eid uid d = Inr d'"
      by simp
    from fire_triggers_expenses [OF delete_expense_fired [OF this]]
    have "set (tbl_expenses d') \<subseteq> set (tbl_expenses d)"
      by auto
    then show ?thesis
      using old by auto
  qed
qed

lemma ledger_ok_run_mutation:
  assumes "ledger_ok d" and "run_mutation table_owner m d = Inr d'"
  shows "ledger_ok d'"
proof -
  have ids: "map tr_id (tbl_trips d') = map tr_id (tbl_trips d)"
    using assms(2) by (rule run_mutation_ids)
  then have set_ids: "tr_id ` set (tbl_trips d') = tr_id ` set (tbl_trips d)"
    by (metis list.set_map)
  have "er_trip_id ` set (tbl_expenses d') \<subseteq> tr_id ` set (tbl_trips d')"
    using run_mutation_foreign_key [OF assms(2)] assms(1) set_ids by (simp add: ledger_ok_def)
  then have "list_all (\<lambda>e. list_ex (\<lambda>t. tr_id t = er_trip_id e) (tbl_trips d')) (tbl_expenses d')"
    by (auto simp: list_all_iff list_ex_iff image_subset_iff) (metis imageE)
  moreover have "total_invariant d'"
    using assms by (simp add: run_mutation_invariant ledger_ok_def)
  ultimately show ?thesis
    using assms(1) ids by (simp add: ledger_ok_def)
qed

subsection \<open>A trigger run as the user who owns the trip\<close>

lemma ownedI:
  assumes "\<And>e t. e \<in> set (tbl_expenses d) \<Longrightarrow> t \<in> set (tbl_trips d) \<Longrightarrow>
             tr_id t = er_trip_id e \<Longrightarrow> tr_user_id t = er_user_id e"
  shows "owned d"
  using assms by (auto simp: owned_def list_all_iff)

lemma ownedD:
  assumes "owned d" and "e \<in> set (tbl_expenses d)" and "t \<in> set (tbl_trips d)"
    and "tr_id t = er_trip_id e"
  shows "tr_user_id t = er_user_id e"
  using assms by (auto simp: owned_def list_all_iff)

lemma owned_cong:
  assumes "set (tbl_expenses d') \<subseteq> set (tbl_expenses d)"
    and "map (\<lambda>t. (tr_id t, tr_user_id t)) (tbl_trips d') =
         map (\<lambda>t. (tr_id t, tr_user_id t)) (tbl_trips d)"
    and "owned d"
  shows "owned d'"
proof (rule ownedI)
  fix e t
  assume e: "e \<in> set (tbl_expenses d')" and t: "t \<in> set (tbl_trips d')"
    and eq: "tr_id t = er_trip_id e"
  from t have "(tr_id t, tr_user_id t) \<in> set (map (\<lambda>t. (tr_id t, tr_user_id t)) (tbl_trips d'))"
    by auto
  then have "(tr_id t, tr_user_id t) \<in> set (map (\<lambda>t. (tr_id t, tr_user_id t)) (tbl_trips d))"
    by (simp only: assms(2))
  then obtain t0 where t0: "t0 \<in> set (tbl_trips d)" "tr_id t0 = tr_id t"
    "tr_user_id t0 = tr_user_id t"
    by auto
  from e assms(1) have "e \<in> set (tbl_expenses d)"
    by auto
  from ownedD [OF assms(3) this t0(1)] eq t0 show "tr_user_id t = er_user_id e"
    by simp
qed

lemma update_trip_total_expenses_keys:
  "update_trip_total_expenses r tid d = Inr d' \<Longrightarrow>
   map (\<lambda>t. (tr_id t, tr_user_id t)) (tbl_trips d') =
     map (\<lambda>t. (tr_id t, tr_user_id t)) (tbl_trips d)"
  by (auto simp: update_trip_total_expenses_def Let_def split: if_splits)

lemma fire_triggers_keys:
  "fire_triggers r tids d = Inr d' \<Longrightarrow>
   map (\<lambda>t. (tr_id t, tr_user_id t)) (tbl_trips d') =
     map (\<lambda>t. (tr_id t, tr_user_id t)) (tbl_trips d)"
proof (induction tids arbitrary: d)
  case Nil
  then show ?case by simp
next
  case (Cons tid tids)
  then show ?case
    by (auto split: sum.splits dest: update_trip_total_expenses_keys)
qed

lemma keys_set:
  assumes "map (\<lambda>t. (tr_id t, tr_user_id t)) (tbl_trips d') =
           map (\<lambda>t. (tr_id t, tr_user_id t)) (tbl_trips d)"
  shows "(\<lambda>t. (tr_id t, tr_user_id t)) ` set (tbl_trips d') =
         (\<lambda>t. (tr_id t, tr_user_id t)) ` set (tbl_trips d)"
  using assms by (metis list.set_map)

text \<open>
  When every expense row of a trip carries the user of the trip, the trigger run as that
  user sees all the rows of the trip and may update the trip: it does what it does when
  run as the owner of the tables.
\<close>

lemma trigger_as_owner:
  assumes "owned d" and "\<And>t. t \<in> set (tbl_trips d) \<Longrightarrow> tr_id t = tid \<Longrightarrow> tr_user_id t = c"
  shows "update_trip_total_expenses (authenticated c) tid d =
         update_trip_total_expenses table_owner tid d"
proof -
  have target: "(tr_id t = tid \<and> c = tr_user_id t) = (tr_id t = tid)"
    if "t \<in> set (tbl_trips d)" for t
    using assms(2) [OF that] by auto
  have ex: "list_ex (\<lambda>t. tr_id t = tid \<and> c = tr_user_id t) (tbl_trips d) =
            list_ex (\<lambda>t. tr_id t = tid) (tbl_trips d)"
    using target by (auto simp: list_ex_iff)
  show ?thesis
  proof (cases "list_ex (\<lambda>t. tr_id t = tid) (tbl_trips d)")
    case True
    then obtain t0 where t0: "t0 \<in> set (tbl_trips d)" "tr_id t0 = tid"
      by (auto simp: list_ex_iff)
    have c: "tr_user_id t0 = c"
      using assms(2) [OF t0] .
    have "filter (\<lambda>e. er_trip_id e = tid) (filter (\<lambda>e. c = er_user_id e) (tbl_expenses d)) =
          filter (\<lambda>e. er_trip_id e = tid) (tbl_expenses d)"
    proof -
      have "c = er_user_id e" if "e \<in> set (tbl_expenses d)" "er_trip_id e = tid" for e
        using ownedD [OF assms(1) that(1) t0(1)] t0(2) that(2) c by simp
      then show ?thesis
        by (auto intro: filter_cong)
    qed
    then have s: "sum_amount (visible (authenticated c) d) tid = sum_amount d tid"
      by (simp add: sum_amount_def visible_def)
    have m: "map (\<lambda>t. if tr_id t = tid \<and> c = tr_user_id t
                    then t\<lparr>tr_total_expenses := sum_amount d tid\<rparr> else t) (tbl_trips d) =
          map (\<lambda>t. if tr_id t = tid
                    then t\<lparr>tr_total_expenses := sum_amount d tid\<rparr> else t) (tbl_trips d)"
      using target by (auto intro: map_cong)
    show ?thesis
      unfolding update_trip_total_expenses_def Let_def
      by (simp only: policy_authenticated policy_table_owner visible_table_owner s ex m
            simp_thms)
  next
    case False
    then have no: "\<And>t. t \<in> set (tbl_trips d) \<Longrightarrow> tr_id t \<noteq> tid"
      by (auto simp: list_ex_iff)
    have m: "map (\<lambda>t. if tr_id t = tid \<and> c = tr_user_id t
                    then t\<lparr>tr_total_expenses := sum_amount (visible (authenticated c) d) tid\<rparr>
                    else t) (tbl_trips d) =
          map (\<lambda>t. if tr_id t = tid
                    then t\<lparr>tr_total_expenses := sum_amount d tid\<rparr> else t) (tbl_trips d)"
      using no by (auto intro: map_cong)
    show ?thesis
      unfolding update_trip_total_expenses_def Let_def
      using False
      by (simp only: policy_authenticated policy_table_owner visible_table_owner ex m
            simp_thms if_False)
  qed
qed

lemma fire_triggers_as_owner:
  assumes "owned d"
    and "\<And>t tid. t \<in> set (tbl_trips d) \<Longrightarrow> tid \<in> set tids \<Longrightarrow> tr_id t = tid \<Longrightarrow>
           tr_user_id t = c"
  shows "fire_triggers (authenticated c) tids d = fire_triggers table_owner tids d"
  using assms
proof (induction tids arbitrary: d)
  case Nil
  then show ?case by simp
next
  case (Cons tid tids)
  have first: "update_trip_total_expenses (authenticated c) tid d =
               update_trip_total_expenses table_owner tid d"
    by (rule trigger_as_owner [OF Cons.prems(1)]) (rule Cons.prems(2), simp_all)
  show ?case
  proof (cases "update_trip_total_expenses table_owner tid d")
    case (Inl e)
    then show ?thesis
      by (simp add: first)
  next
    case (Inr d1)
    have keys: "map (\<lambda>t. (tr_id t, tr_user_id t)) (tbl_trips d1) =
                map (\<lambda>t. (tr_id t, tr_user_id t)) (tbl_trips d)"
      using Inr by (rule update_trip_total_expenses_keys)
    have o1: "owned d1"
      using update_trip_total_expenses_expenses [OF Inr] keys Cons.prems(1)
      by (auto intro: owned_cong)
    have "fire_triggers (authenticated c) tids d1 = fire_triggers table_owner tids d1"
    proof (rule Cons.IH [OF o1])
      fix t tid'
      assume t: "t \<in> set (tbl_trips d1)" and tid': "tid' \<in> set tids" "tr_id t = tid'"
      from t have "(tr_id t, tr_user_id t) \<in> (\<lambda>t. (tr_id t, tr_user_id t)) ` set (tbl_trips d1)"
        by auto
      then have "(tr_id t, tr_user_id t) \<in> (\<lambda>t. (tr_id t, tr_user_id t)) ` set (tbl_trips d)"
        by (simp only: keys_set [OF keys])
      then obtain t0 where "t0 \<in> set (tbl_trips d)" "tr_id t0 = tr_id t"
        "tr_user_id t0 = tr_user_id t"
        by auto
      with Cons.prems(2) [of t0 tid'] tid' show "tr_user_id t = c"
        by simp
    qed
    then show ?thesis
      by (simp add: first Inr)
  qed
qed

text \<open>
  A statement of an authenticated user that leaves every expense row with the user of
  its trip has done what the same statement does when run as the owner of the tables.
\<close>

lemma insert_expense_as_owner:
  assumes "insert_expense (authenticated c) new_id trip uid de am ca da ti d = Inr d'"
    and "owned d'"
  shows "insert_expense table_owner new_id trip uid de am ca da ti d = Inr d'"
proof -
  from assms(1) obtain row where
    fired: "fire_triggers (authenticated c) [trip] (d\<lparr>tbl_expenses := tbl_expenses d @ [row]\<rparr>) =
              Inr d'" and
    row: "er_trip_id row = trip" "er_user_id row = c" and
    same: "\<And>r. insert_expense r new_id trip uid de am ca da ti d =
             (if policy r uid
              then fire_triggers r [trip] (d\<lparr>tbl_expenses := tbl_expenses d @ [row]\<rparr>)
              else Inl row_level_security_violation)"
    by (auto simp: insert_expense_def split: option.splits if_splits)
  let ?d1 = "d\<lparr>tbl_expenses := tbl_expenses d @ [row]\<rparr>"
  have keys: "map (\<lambda>t. (tr_id t, tr_user_id t)) (tbl_trips d') =
              map (\<lambda>t. (tr_id t, tr_user_id t)) (tbl_trips ?d1)"
    using fired by (rule fire_triggers_keys)
  have o1: "owned ?d1"
    by (rule owned_cong [OF _ keys [symmetric] assms(2)])
       (simp add: fire_triggers_expenses [OF fired])
  have "fire_triggers (authenticated c) [trip] ?d1 = fire_triggers table_owner [trip] ?d1"
  proof (rule fire_triggers_as_owner [OF o1])
    fix t tid
    assume "t \<in> set (tbl_trips ?d1)" "tid \<in> set [trip]" "tr_id t = tid"
    then show "tr_user_id t = c"
      using ownedD [OF o1, of row t] row by simp
  qed
  with fired show ?thesis
    by (simp add: same)
qed

lemma update_expense_as_owner:
  assumes "update_expense (authenticated c) eid c de am ca da ti d = Inr d'" and "owned d"
  shows "update_expense table_owner eid c de am ca da ti d = Inr d'"
proof -
  let ?hit = "\<lambda>e. er_id e = eid \<and> er_user_id e = c"
  let ?d1 = "d\<lparr>tbl_expenses :=
                 map (\<lambda>e. if ?hit e then set_expense_columns de am ca da ti e else e)
                     (tbl_expenses d)\<rparr>"
  let ?tids = "map er_trip_id (filter ?hit (tbl_expenses d))"
  have hit: "(\<lambda>e. er_id e = eid \<and> er_user_id e = c \<and> c = er_user_id e) = ?hit"
    by auto
  have o1: "owned ?d1"
  proof (rule ownedI)
    fix e t
    assume "e \<in> set (tbl_expenses ?d1)" and t: "t \<in> set (tbl_trips ?d1)"
      and eq: "tr_id t = er_trip_id e"
    then obtain e0 where e0: "e0 \<in> set (tbl_expenses d)" "er_trip_id e0 = er_trip_id e"
      "er_user_id e0 = er_user_id e"
      by (auto simp: set_expense_columns_def split: if_splits)
    from ownedD [OF assms(2) e0(1), of t] t eq e0 show "tr_user_id t = er_user_id e"
      by simp
  qed
  have "fire_triggers (authenticated c) ?tids ?d1 = fire_triggers table_owner ?tids ?d1"
  proof (rule fire_triggers_as_owner [OF o1])
    fix t tid
    assume t: "t \<in> set (tbl_trips ?d1)" and tid: "tid \<in> set ?tids" "tr_id t = tid"
    from tid(1) obtain e where e: "e \<in> set (tbl_expenses d)" "?hit e" "er_trip_id e = tid"
      by auto
    from ownedD [OF assms(2) e(1), of t] t tid e show "tr_user_id t = c"
      by simp
  qed
  then show ?thesis
    using assms(1)
    by (auto simp: update_expense_def hit Let_def comp_def split: if_splits)
qed

lemma delete_expense_as_owner:
  assumes "delete_expense (authenticated c) eid c d = Inr d'" and "owned d"
  shows "delete_expense table_owner eid c d = Inr d'"
proof -
  let ?hit = "\<lambda>e. er_id e = eid \<and> er_user_id e = c"
  let ?d1 = "d\<lparr>tbl_expenses := filter (\<lambda>e. \<not> ?hit e) (tbl_expenses d)\<rparr>"
  let ?tids = "map er_trip_id (filter ?hit (tbl_expenses d))"
  have hit: "(\<lambda>e. er_id e = eid \<and> er_user_id e = c \<and> c = er_user_id e) = ?hit"
    by auto
  have o1: "owned ?d1"
    by (rule owned_cong [OF _ _ assms(2)]) auto
  have "fire_triggers (authenticated c) ?tids ?d1 = fire_triggers table_owner ?tids ?d1"
  proof (rule fire_triggers_as_owner [OF o1])
    fix t tid
    assume t: "t \<in> set (tbl_trips ?d1)" and tid: "tid \<in> set ?tids" "tr_id t = tid"
    from tid(1) obtain e where e: "e \<in> set (tbl_expenses d)" "?hit e" "er_trip_id e = tid"
      by auto
    from ownedD [OF assms(2) e(1), of t] t tid e show "tr_user_id t = c"
      by simp
  qed
  then show ?thesis
    using assms(1) by (simp add: delete_expense_def hit Let_def)
qed

text \<open>
  An update or a delete that names another user than the one who sends it reaches no
  row.
\<close>

lemma db_same: "d\<lparr>tbl_expenses := tbl_expenses d\<rparr> = d"
  by simp

lemma update_expense_other_user:
  assumes "uid \<noteq> c"
  shows "update_expense (authenticated c) eid uid de am ca da ti d = Inr d"
proof -
  have hit: "(\<lambda>e. er_id e = eid \<and> er_user_id e = uid \<and> c = er_user_id e) = (\<lambda>e. False)"
    using assms by auto
  show ?thesis
    by (simp add: update_expense_def hit Let_def)
qed

lemma delete_expense_other_user:
  assumes "uid \<noteq> c"
  shows "delete_expense (authenticated c) eid uid d = Inr d"
proof -
  have hit: "(\<lambda>e. er_id e = eid \<and> er_user_id e = uid \<and> c = er_user_id e) = (\<lambda>e. False)"
    using assms by auto
  show ?thesis
    by (simp add: delete_expense_def hit Let_def)
qed

lemma ledger_ok_statement:
  assumes "ledger_ok d" and "owned d" and "owned (settle (authenticated c) d m)"
  shows "ledger_ok (settle (authenticated c) d m)"
proof (cases "run_mutation (authenticated c) m d")
  case (Inl e)
  then show ?thesis
    using assms(1) by (simp add: settle_def)
next
  case (Inr d')
  then have d': "settle (authenticated c) d m = d'"
    by (simp add: settle_def)
  show ?thesis
  proof (cases m)
    case (Insert new_id trip uid de am ca da ti)
    with Inr have "insert_expense (authenticated c) new_id trip uid de am ca da ti d = Inr d'"
      by simp
    from insert_expense_as_owner [OF this] assms(3) d'
    have "run_mutation table_owner m d = Inr d'"
      by (simp add: Insert)
    from ledger_ok_run_mutation [OF assms(1) this] d' show ?thesis
      by simp
  next
    case (Update eid uid de am ca da ti)
    show ?thesis
    proof (cases "uid = c")
      case True
      with Inr Update have "update_expense (authenticated c) eid c de am ca da ti d = Inr d'"
        by simp
      from update_expense_as_owner [OF this assms(2)] True
      have "run_mutation table_owner m d = Inr d'"
        by (simp add: Update)
      from ledger_ok_run_mutation [OF assms(1) this] d' show ?thesis
        by simp
    next
      case False
      from update_expense_other_user [OF this, of eid de am ca da ti d] Inr Update
      have "d' = d"
        by simp
      with assms(1) d' show ?thesis
        by simp
    qed
  next
    case (Delete eid uid)
    show ?thesis
    proof (cases "uid = c")
      case True
      with Inr Delete have "delete_expense (authenticated c) eid c d = Inr d'"
        by simp
      from delete_expense_as_owner [OF this assms(2)] True
      have "run_mutation table_owner m d = Inr d'"
        by (simp add: Delete)
      from ledger_ok_run_mutation [OF assms(1) this] d' show ?thesis
        by simp
    next
      case False
      from delete_expense_other_user [OF this, of eid d] Inr Delete
      have "d' = d"
        by simp
      with assms(1) d' show ?thesis
        by simp
    qed
  qed
qed

subsection \<open>Trips and procedures\<close>

lemma ledger_ok_createTrip:
  assumes "ledger_ok d" and "createTrip new_id uid tripData d = Inr d'"
  shows "ledger_ok d'"
proof -
  from assms(2) have
    fresh: "new_id \<notin> tr_id ` set (tbl_trips d)" and
    ex: "tbl_expenses d' = tbl_expenses d" and
    "\<exists>row. tbl_trips d' = tbl_trips d @ [row] \<and> tr_id row = new_id \<and>
           tr_total_expenses row = 0"
    by (auto simp: createTrip_def Let_def list_ex_iff split: if_splits)
  then obtain row where
    trips: "tbl_trips d' = tbl_trips d @ [row]" and
    row: "tr_id row = new_id" "tr_total_expenses row = 0"
    by blast
  have fk: "er_trip_id ` set (tbl_expenses d) \<subseteq> tr_id ` set (tbl_trips d)"
    using assms(1) by (auto simp: ledger_ok_def list_all_iff list_ex_iff) (metis imageI)
  have "filter (\<lambda>e. er_trip_id e = new_id) (tbl_expenses d) = []"
    using fk fresh by (auto simp: filter_empty_conv)
  then have new: "sum_amount d' new_id = 0"
    by (simp add: sum_amount_def ex)
  have s: "\<And>x. sum_amount d' x = sum_amount d x"
    using ex by (rule sum_amount_cong)
  have "total_invariant d'"
    using assms(1) new row by (simp add: ledger_ok_def total_invariant_def trips s)
  moreover have "distinct (map tr_id (tbl_trips d'))"
    using assms(1) fresh row by (simp add: ledger_ok_def trips)
  moreover have
    "list_all (\<lambda>e. list_ex (\<lambda>t. tr_id t = er_trip_id e) (tbl_trips d')) (tbl_expenses d')"
    using assms(1) by (auto simp: ledger_ok_def list_all_iff list_ex_iff trips ex)
  ultimately show ?thesis
    by (simp add: ledger_ok_def)
qed

lemma ledger_ok_deleteTrip:
  assumes "ledger_ok d"
  shows "ledger_ok (deleteTrip tripId uid d)"
proof -
  let ?hit = "\<lambda>t. tr_id t = tripId \<and> tr_user_id t = uid"
  let ?gone = "map tr_id (filter ?hit (tbl_trips d))"
  let ?d' = "deleteTrip tripId uid d"
  have trips: "tbl_trips ?d' = filter (\<lambda>t. \<not> ?hit t) (tbl_trips d)"
    and ex: "tbl_expenses ?d' = filter (\<lambda>e. er_trip_id e \<notin> set ?gone) (tbl_expenses d)"
    by (simp_all add: deleteTrip_def Let_def)
  have inj: "inj_on tr_id (set (tbl_trips d))"
    using assms by (simp add: ledger_ok_def distinct_map)
  have stays: "tr_id t \<notin> set ?gone" if "t \<in> set (tbl_trips d)" "\<not> ?hit t" for t
  proof
    assume "tr_id t \<in> set ?gone"
    then obtain t' where "t' \<in> set (tbl_trips d)" "?hit t'" "tr_id t' = tr_id t"
      by auto
    then show False
      using inj that by (auto dest: inj_onD)
  qed
  have sums: "sum_amount ?d' (tr_id t) = sum_amount d (tr_id t)"
    if "t \<in> set (tbl_trips d)" "\<not> ?hit t" for t
  proof -
    have "filter (\<lambda>e. er_trip_id e = tr_id t)
            (filter (\<lambda>e. er_trip_id e \<notin> set ?gone) (tbl_expenses d)) =
          filter (\<lambda>e. er_trip_id e = tr_id t) (tbl_expenses d)"
      using stays [OF that] by (auto intro: filter_cong)
    then show ?thesis
      by (simp add: sum_amount_def ex)
  qed
  have "total_invariant ?d'"
    using assms sums by (auto simp: ledger_ok_def total_invariant_def list_all_iff trips)
  moreover have "distinct (map tr_id (tbl_trips ?d'))"
    using assms by (simp add: ledger_ok_def trips distinct_map_filter)
  moreover have
    "list_all (\<lambda>e. list_ex (\<lambda>t. tr_id t = er_trip_id e) (tbl_trips ?d')) (tbl_expenses ?d')"
  proof -
    have "\<exists>t \<in> set (tbl_trips ?d'). tr_id t = er_trip_id e"
      if e: "e \<in> set (tbl_expenses d)" "er_trip_id e \<notin> set ?gone" for e
    proof -
      from assms e(1) obtain t where t: "t \<in> set (tbl_trips d)" "tr_id t = er_trip_id e"
        by (auto simp: ledger_ok_def list_all_iff list_ex_iff)
      with e(2) have "\<not> ?hit t"
        by auto
      with t show ?thesis
        by (auto simp: trips)
    qed
    then show ?thesis
      by (auto simp: list_all_iff list_ex_iff ex)
  qed
  ultimately show ?thesis
    by (simp add: ledger_ok_def)
qed

lemma ledger_ok_updateTrip:
  assumes "ledger_ok d"
  shows "ledger_ok (updateTrip tripId uid updates d)"
proof -
  let ?d' = "updateTrip tripId uid updates d"
  obtain f where
    trips: "tbl_trips ?d' = map f (tbl_trips d)" and
    f: "\<And>t. tr_id (f t) = tr_id t" "\<And>t. tr_total_expenses (f t) = tr_total_expenses t"
  proof
    show "tbl_trips ?d' =
            map (\<lambda>t. if tr_id t = tripId \<and> tr_user_id t = uid
                   then t\<lparr>tr_origin := COALESCE (truthy (tu_origin updates)) (tr_origin t),
                          tr_destination :=
                            COALESCE (truthy (tu_destination updates)) (tr_destination t),
                          tr_travel_mode :=
                            COALESCE (truthy (tu_travelMode updates)) (tr_travel_mode t),
                          tr_date := COALESCE (truthy (tu_date updates)) (tr_date t),
                          tr_time := COALESCE (truthy (tu_time updates)) (tr_time t),
                          tr_notes := (case tu_notes updates of
                                         Some n \<Rightarrow> Some n | None \<Rightarrow> tr_notes t),
                          tr_travelers := COALESCE (tu_travelers updates) (tr_travelers t),
                          tr_status := COALESCE (tu_status updates) (tr_status t)\<rparr>
                   else t)
                (tbl_trips d)"
      by (simp add: updateTrip_def)
  qed simp_all
  have ex: "tbl_expenses ?d' = tbl_expenses d"
    by (simp add: updateTrip_def)
  have s: "\<And>x. sum_amount ?d' x = sum_amount d x"
    using ex by (rule sum_amount_cong)
  have ids: "map tr_id (tbl_trips ?d') = map tr_id (tbl_trips d)"
    by (simp add: trips f comp_def)
  have "total_invariant ?d'"
    using assms by (simp add: ledger_ok_def total_invariant_def trips list_all_iff f s)
  moreover have
    "list_all (\<lambda>e. list_ex (\<lambda>t. tr_id t = er_trip_id e) (tbl_trips ?d')) (tbl_expenses ?d')"
    using assms by (simp add: ledger_ok_def list_all_iff list_ex_iff trips ex f)
  ultimately show ?thesis
    using assms ids by (simp add: ledger_ok_def)
qed

lemma ledger_ok_settle_trip: "ledger_ok d \<Longrightarrow> ledger_ok (settle_trip d op)"
  using ledger_ok_createTrip ledger_ok_deleteTrip
  by (cases op) (auto split: sum.splits)

lemma ledger_ok_rpc:
  assumes "ledger_ok d" and "\<And>j d'. f d = Inr (j, d') \<Longrightarrow> ledger_ok d'"
  shows "ledger_ok (snd (rpc f d))"
  using assms by (auto simp: rpc_def split: sum.splits)

lemma add_expense_with_total_Inr:
  assumes "add_expense_with_total new_id trip uid de am ca da ti d = Inr (j, d')"
  shows "insert_expense table_owner new_id trip uid de am ca da ti d = Inr d'"
    and "list_ex (\<lambda>t. tr_id t = trip \<and> tr_user_id t = uid) (tbl_trips d)"
  using assms by (auto simp: add_expense_with_total_def split: if_splits sum.splits)

lemma update_expense_with_total_Inr:
  assumes "update_expense_with_total eid uid de am ca da ti d = Inr (j, d')"
  shows "update_expense table_owner eid uid de am ca da ti d = Inr d'"
    and "\<exists>e \<in> set (tbl_expenses d). er_id e = eid \<and> er_user_id e = uid \<and>
           er_trip_id e = uj_trip_id j"
proof -
  let ?hit = "\<lambda>e. er_id e = eid \<and> er_user_id e = uid"
  from assms obtain e where f: "find ?hit (tbl_expenses d) = Some e"
    by (auto simp: update_expense_with_total_def split: option.splits)
  from assms f show "update_expense table_owner eid uid de am ca da ti d = Inr d'"
    by (auto simp: update_expense_with_total_def Let_def split: sum.splits)
  from assms f have "uj_trip_id j = er_trip_id e"
    by (auto simp: update_expense_with_total_def Let_def split: sum.splits)
  moreover from f have "e \<in> set (tbl_expenses d)" "?hit e"
    by (auto simp: find_Some_iff)
  ultimately show "\<exists>e \<in> set (tbl_expenses d). er_id e = eid \<and> er_user_id e = uid \<and>
           er_trip_id e = uj_trip_id j"
    by auto
qed

lemma delete_expense_with_total_Inr:
  assumes "delete_expense_with_total eid uid d = Inr (j, d')"
  shows "delete_expense table_owner eid uid d = Inr d'"
  using assms
  by (auto simp: delete_expense_with_total_def Let_def split: option.splits sum.splits)

lemma batch_loop_ledger_ok:
  assumes "batch_loop trip uid items acc d = Inr (acc', d')" and "ledger_ok d"
  shows "ledger_ok d'"
  using assms
proof (induction items arbitrary: acc d)
  case Nil
  then show ?case by simp
next
  case (Cons p items)
  obtain new_id it where p: "p = (new_id, it)"
    by (cases p)
  from Cons.prems(1) obtain d1 acc1 where
    ins: "insert_expense table_owner new_id trip uid (ei_description it) (ei_amount it)
            (ei_category it) (ei_date it) (ei_time it) d = Inr d1" and
    rest: "batch_loop trip uid items acc1 d1 = Inr (acc', d')"
    by (auto simp: p split: sum.splits)
  from ins have "run_mutation table_owner
                   (Insert new_id trip uid (ei_description it) (ei_amount it)
                      (ei_category it) (ei_date it) (ei_time it)) d = Inr d1"
    by simp
  from ledger_ok_run_mutation [OF Cons.prems(2) this] have "ledger_ok d1" .
  from Cons.IH [OF rest this] show ?case .
qed

lemma batch_add_expenses_Inr:
  assumes "batch_add_expenses trip uid items d = Inr (j, d')"
  shows "batch_loop trip uid items [] d = Inr (bj_expenses j, d')"
    and "list_ex (\<lambda>t. tr_id t = trip \<and> tr_user_id t = uid) (tbl_trips d)"
    and "bj_new_total j = select_total_expenses trip d'"
  using assms by (auto simp: batch_add_expenses_def split: if_splits sum.splits)

lemma ledger_ok_settle_op:
  assumes "ledger_ok d" and "owned d" and "owned (settle_op d op)"
  shows "ledger_ok (settle_op d op)"
proof (cases op)
  case (On_trips top)
  then show ?thesis
    using assms(1) by (simp add: ledger_ok_settle_trip)
next
  case (Trip_update tripId uid updates)
  then show ?thesis
    using assms(1) by (simp add: ledger_ok_updateTrip)
next
  case (Statement c m)
  then show ?thesis
    using assms by (simp add: ledger_ok_statement)
next
  case (Call_add_expense_with_total new_id trip uid de am ca da ti)
  have "ledger_ok (snd (rpc (add_expense_with_total new_id trip uid de am ca da ti) d))"
  proof (rule ledger_ok_rpc [OF assms(1)])
    fix j d'
    assume "add_expense_with_total new_id trip uid de am ca da ti d = Inr (j, d')"
    from add_expense_with_total_Inr(1) [OF this]
    have "run_mutation table_owner (Insert new_id trip uid de am ca da ti) d = Inr d'"
      by simp
    from ledger_ok_run_mutation [OF assms(1) this] show "ledger_ok d'" .
  qed
  then show ?thesis
    by (simp add: Call_add_expense_with_total)
next
  case (Call_update_expense_with_total eid uid de am ca da ti)
  have "ledger_ok (snd (rpc (update_expense_with_total eid uid de am ca da ti) d))"
  proof (rule ledger_ok_rpc [OF assms(1)])
    fix j d'
    assume "update_expense_with_total eid uid de am ca da ti d = Inr (j, d')"
    from update_expense_with_total_Inr(1) [OF this]
    have "run_mutation table_owner (Update eid uid de am ca da ti) d = Inr d'"
      by simp
    from ledger_ok_run_mutation [OF assms(1) this] show "ledger_ok d'" .
  qed
  then show ?thesis
    by (simp add: Call_update_expense_with_total)
next
  case (Call_delete_expense_with_total eid uid)
  have "ledger_ok (snd (rpc (delete_expense_with_total eid uid) d))"
  proof (rule ledger_ok_rpc [OF assms(1)])
    fix j d'
    assume "delete_expense_with_total eid uid d = Inr (j, d')"
    from delete_expense_with_total_Inr [OF this]
    have "run_mutation table_owner (Delete eid uid) d = Inr d'"
      by simp
    from ledger_ok_run_mutation [OF assms(1) this] show "ledger_ok d'" .
  qed
  then show ?thesis
    by (simp add: Call_delete_expense_with_total)
next
  case (Call_batch_add_expenses trip uid items)
  have "ledger_ok (snd (rpc (batch_add_expenses trip uid items) d))"
  proof (rule ledger_ok_rpc [OF assms(1)])
    fix j d'
    assume "batch_add_expenses trip uid items d = Inr (j, d')"
    from batch_loop_ledger_ok [OF batch_add_expenses_Inr(1) [OF this] assms(1)]
    show "ledger_ok d'" .
  qed
  then show ?thesis
    by (simp add: Call_batch_add_expenses)
qed

lemma ledger_ok_states:
  "ledger_ok d \<Longrightarrow> list_all owned (states d ops) \<Longrightarrow> ledger_ok (foldl settle_op d ops)"
proof (induction ops arbitrary: d)
  case Nil
  then show ?case by simp
next
  case (Cons op ops)
  from Cons.prems(2) have o: "owned d" and rest: "list_all owned (states (settle_op d op) ops)"
    by simp_all
  from rest have "owned (settle_op d op)"
    by (cases ops) simp_all
  from ledger_ok_settle_op [OF Cons.prems(1) o this] have "ledger_ok (settle_op d op)" .
  from Cons.IH [OF this rest] show ?case
    by simp
qed

lemma ledger_ok_empty: "ledger_ok empty_db"
  by (simp add: ledger_ok_def total_invariant_def empty_db_def)

subsection \<open>What keeps every expense with the user of its trip\<close>

lemma owned_mono:
  assumes "(\<lambda>e. (er_trip_id e, er_user_id e)) ` set (tbl_expenses d') \<subseteq>
           (\<lambda>e. (er_trip_id e, er_user_id e)) ` set (tbl_expenses d)"
    and "(\<lambda>t. (tr_id t, tr_user_id t)) ` set (tbl_trips d') \<subseteq>
         (\<lambda>t. (tr_id t, tr_user_id t)) ` set (tbl_trips d)"
    and "owned d"
  shows "owned d'"
proof (rule ownedI)
  fix e t
  assume e: "e \<in> set (tbl_expenses d')" and t: "t \<in> set (tbl_trips d')"
    and eq: "tr_id t = er_trip_id e"
  from e assms(1) obtain e0 where e0: "e0 \<in> set (tbl_expenses d)"
    "er_trip_id e0 = er_trip_id e" "er_user_id e0 = er_user_id e"
    by (auto simp: image_subset_iff image_iff)
  from t assms(2) obtain t0 where t0: "t0 \<in> set (tbl_trips d)" "tr_id t0 = tr_id t"
    "tr_user_id t0 = tr_user_id t"
    by (auto simp: image_subset_iff image_iff)
  from ownedD [OF assms(3) e0(1) t0(1)] eq e0 t0 show "tr_user_id t = er_user_id e"
    by simp
qed

lemma owned_fire_triggers:
  assumes "fire_triggers r tids d1 = Inr d'" and "owned d1"
  shows "owned d'"
  by (rule owned_mono [OF _ _ assms(2)])
     (simp_all add: fire_triggers_expenses [OF assms(1)]
        keys_set [OF fire_triggers_keys [OF assms(1)]])

lemma owned_update_expense:
  assumes "update_expense r eid uid de am ca da ti d = Inr d'" and "owned d"
  shows "owned d'"
proof (rule owned_fire_triggers [OF update_expense_fired [OF assms(1)]])
  show "owned (d\<lparr>tbl_expenses :=
                   map (\<lambda>e. if er_id e = eid \<and> er_user_id e = uid \<and> policy r (er_user_id e)
                             then set_expense_columns de am ca da ti e else e)
                       (tbl_expenses d)\<rparr>)"
    by (rule owned_mono [OF _ _ assms(2)])
       (auto simp: set_expense_columns_def image_iff)
qed

lemma owned_delete_expense:
  assumes "delete_expense r eid uid d = Inr d'" and "owned d"
  shows "owned d'"
proof (rule owned_fire_triggers [OF delete_expense_fired [OF assms(1)]])
  show "owned (d\<lparr>tbl_expenses :=
                   filter (\<lambda>e. \<not> (er_id e = eid \<and> er_user_id e = uid \<and>
                                   policy r (er_user_id e)))
                       (tbl_expenses d)\<rparr>)"
    by (rule owned_mono [OF _ _ assms(2)]) auto
qed

lemma insert_expense_Inr:
  assumes "insert_expense r new_id trip uid de am ca da ti d = Inr d'"
  obtains row where
    "fire_triggers r [trip] (d\<lparr>tbl_expenses := tbl_expenses d @ [row]\<rparr>) = Inr d'"
    "er_id row = new_id" "er_trip_id row = trip" "er_user_id row = uid"
    "tbl_expenses d' = tbl_expenses d @ [row]"
proof -
  from assms obtain row where
    fired: "fire_triggers r [trip] (d\<lparr>tbl_expenses := tbl_expenses d @ [row]\<rparr>) = Inr d'"
    and row: "er_id row = new_id" "er_trip_id row = trip" "er_user_id row = uid"
    by (auto simp: insert_expense_def split: option.splits if_splits)
  from fire_triggers_expenses [OF fired]
  have "tbl_expenses d' = tbl_expenses d @ [row]"
    by simp
  with fired row show ?thesis
    by (rule that)
qed

lemma owned_insert_expense:
  assumes "insert_expense r new_id trip uid de am ca da ti d = Inr d'" and "owned d"
    and "\<And>t. t \<in> set (tbl_trips d) \<Longrightarrow> tr_id t = trip \<Longrightarrow> tr_user_id t = uid"
  shows "owned d'"
proof -
  from assms(1) obtain row where
    fired: "fire_triggers r [trip] (d\<lparr>tbl_expenses := tbl_expenses d @ [row]\<rparr>) = Inr d'"
    and row: "er_trip_id row = trip" "er_user_id row = uid"
    by (rule insert_expense_Inr)
  have "owned (d\<lparr>tbl_expenses := tbl_expenses d @ [row]\<rparr>)"
  proof (rule ownedI)
    fix e t
    assume e: "e \<in> set (tbl_expenses (d\<lparr>tbl_expenses := tbl_expenses d @ [row]\<rparr>))"
      and t: "t \<in> set (tbl_trips (d\<lparr>tbl_expenses := tbl_expenses d @ [row]\<rparr>))"
      and eq: "tr_id t = er_trip_id e"
    show "tr_user_id t = er_user_id e"
    proof (cases "e = row")
      case True
      with assms(3) [of t] t eq row show ?thesis
        by simp
    next
      case False
      with e have "e \<in> set (tbl_expenses d)"
        by simp
      from ownedD [OF assms(2) this, of t] t eq show ?thesis
        by simp
    qed
  qed
  with fired show ?thesis
    by (rule owned_fire_triggers)
qed

lemma trip_of_user:
  assumes "distinct (map tr_id (tbl_trips d))"
    and "list_ex (\<lambda>t. tr_id t = trip \<and> tr_user_id t = uid) (tbl_trips d)"
    and "t \<in> set (tbl_trips d)" and "tr_id t = trip"
  shows "tr_user_id t = uid"
proof -
  from assms(2) obtain t0 where t0: "t0 \<in> set (tbl_trips d)" "tr_id t0 = trip"
    "tr_user_id t0 = uid"
    by (auto simp: list_ex_iff)
  have "inj_on tr_id (set (tbl_trips d))"
    using assms(1) by (simp add: distinct_map)
  with t0 assms(3,4) have "t = t0"
    by (auto dest: inj_onD)
  with t0 show ?thesis
    by simp
qed

lemma batch_loop_owned:
  assumes "batch_loop trip uid items acc d = Inr (acc', d')" and "owned d"
    and "\<And>t. t \<in> set (tbl_trips d) \<Longrightarrow> tr_id t = trip \<Longrightarrow> tr_user_id t = uid"
  shows "owned d'"
  using assms
proof (induction items arbitrary: acc d)
  case Nil
  then show ?case by simp
next
  case (Cons p items)
  obtain new_id it where p: "p = (new_id, it)"
    by (cases p)
  from Cons.prems(1) obtain d1 acc1 where
    ins: "insert_expense table_owner new_id trip uid (ei_description it) (ei_amount it)
            (ei_category it) (ei_date it) (ei_time it) d = Inr d1" and
    rest: "batch_loop trip uid items acc1 d1 = Inr (acc', d')"
    by (auto simp: p split: sum.splits)
  have o1: "owned d1"
    using ins Cons.prems(2,3) by (rule owned_insert_expense)
  from ins obtain row where
    "fire_triggers table_owner [trip] (d\<lparr>tbl_expenses := tbl_expenses d @ [row]\<rparr>) = Inr d1"
    by (rule insert_expense_Inr)
  from keys_set [OF fire_triggers_keys [OF this]]
  have keys: "(\<lambda>t. (tr_id t, tr_user_id t)) ` set (tbl_trips d1) =
              (\<lambda>t. (tr_id t, tr_user_id t)) ` set (tbl_trips d)"
    by simp
  show ?case
  proof (rule Cons.IH [OF rest o1])
    fix t assume t: "t \<in> set (tbl_trips d1)" "tr_id t = trip"
    then have "(tr_id t, tr_user_id t) \<in> (\<lambda>t. (tr_id t, tr_user_id t)) ` set (tbl_trips d)"
      using keys by blast
    then obtain t0 where "t0 \<in> set (tbl_trips d)" "tr_id t0 = tr_id t"
      "tr_user_id t0 = tr_user_id t"
      by auto
    with Cons.prems(3) [of t0] t show "tr_user_id t = uid"
      by simp
  qed
qed

lemma owned_createTrip:
  assumes "createTrip new_id uid tripData d = Inr d'" and "owned d" and "ledger_ok d"
  shows "owned d'"
proof -
  from assms(1) have
    fresh: "new_id \<notin> tr_id ` set (tbl_trips d)" and
    ex: "tbl_expenses d' = tbl_expenses d" and
    "\<exists>row. tbl_trips d' = tbl_trips d @ [row] \<and> tr_id row = new_id"
    by (auto simp: createTrip_def Let_def list_ex_iff split: if_splits)
  then obtain row where trips: "tbl_trips d' = tbl_trips d @ [row]" and row: "tr_id row = new_id"
    by blast
  have fk: "er_trip_id ` set (tbl_expenses d) \<subseteq> tr_id ` set (tbl_trips d)"
    using assms(3) by (auto simp: ledger_ok_def list_all_iff list_ex_iff) (metis imageI)
  show ?thesis
  proof (rule ownedI)
    fix e t
    assume e: "e \<in> set (tbl_expenses d')" and t: "t \<in> set (tbl_trips d')"
      and eq: "tr_id t = er_trip_id e"
    from e ex have e0: "e \<in> set (tbl_expenses d)"
      by simp
    with fk fresh have "er_trip_id e \<noteq> new_id"
      by auto
    with t eq row trips have "t \<in> set (tbl_trips d)"
      by auto
    from ownedD [OF assms(2) e0 this eq] show "tr_user_id t = er_user_id e" .
  qed
qed

lemma owned_settle_op:
  assumes "ledger_ok d" and "owned d" and "\<not> plain_insert op"
  shows "owned (settle_op d op)"
proof (cases op)
  case (On_trips top)
  show ?thesis
  proof (cases top)
    case (Create new_id uid tripData)
    then show ?thesis
      using assms owned_createTrip by (auto simp: On_trips split: sum.splits)
  next
    case (DeleteTrip tripId uid)
    have "owned (deleteTrip tripId uid d)"
      by (rule owned_mono [OF _ _ assms(2)]) (auto simp: deleteTrip_def Let_def)
    then show ?thesis
      by (simp add: On_trips DeleteTrip)
  qed
next
  case (Trip_update tripId uid updates)
  have "map (\<lambda>t. (tr_id t, tr_user_id t)) (tbl_trips (updateTrip tripId uid updates d)) =
        map (\<lambda>t. (tr_id t, tr_user_id t)) (tbl_trips d)"
    by (simp add: updateTrip_def comp_def if_distrib [of "\<lambda>t. (tr_id t, tr_user_id t)"]
          cong: if_cong)
  from keys_set [OF this] have "owned (updateTrip tripId uid updates d)"
    by (intro owned_mono [OF _ _ assms(2)]) (simp_all add: updateTrip_def)
  then show ?thesis
    by (simp add: Trip_update)
next
  case (Statement c m)
  with assms(3) show ?thesis
    using assms(2) owned_update_expense owned_delete_expense
    by (cases m) (auto simp: settle_def split: sum.splits)
next
  case (Call_add_expense_with_total new_id trip uid de am ca da ti)
  have "owned d'" if "add_expense_with_total new_id trip uid de am ca da ti d = Inr (j, d')"
    for j d'
    using add_expense_with_total_Inr(1) [OF that] assms(2)
  proof (rule owned_insert_expense)
    fix t assume "t \<in> set (tbl_trips d)" "tr_id t = trip"
    with trip_of_user [OF _ add_expense_with_total_Inr(2) [OF that]] assms(1)
    show "tr_user_id t = uid"
      by (simp add: ledger_ok_def)
  qed
  then show ?thesis
    using assms(2) by (auto simp: Call_add_expense_with_total rpc_def split: sum.splits)
next
  case (Call_update_expense_with_total eid uid de am ca da ti)
  have "owned d'" if "update_expense_with_total eid uid de am ca da ti d = Inr (j, d')" for j d'
    using update_expense_with_total_Inr(1) [OF that] assms(2) by (rule owned_update_expense)
  then show ?thesis
    using assms(2) by (auto simp: Call_update_expense_with_total rpc_def split: sum.splits)
next
  case (Call_delete_expense_with_total eid uid)
  have "owned d'" if "delete_expense_with_total eid uid d = Inr (j, d')" for j d'
    using delete_expense_with_total_Inr [OF that] assms(2) by (rule owned_delete_expense)
  then show ?thesis
    using assms(2) by (auto simp: Call_delete_expense_with_total rpc_def split: sum.splits)
next
  case (Call_batch_add_expenses trip uid items)
  have "owned d'" if "batch_add_expenses trip uid items d = Inr (j, d')" for j d'
    using batch_add_expenses_Inr(1) [OF that] assms(2)
  proof (rule batch_loop_owned)
    fix t assume "t \<in> set (tbl_trips d)" "tr_id t = trip"
    with trip_of_user [OF _ batch_add_expenses_Inr(2) [OF that]] assms(1)
    show "tr_user_id t = uid"
      by (simp add: ledger_ok_def)
  qed
  then show ?thesis
    using assms(2) by (auto simp: Call_batch_add_expenses rpc_def split: sum.splits)
qed

lemma owned_states:
  "ledger_ok d \<Longrightarrow> owned d \<Longrightarrow> list_all (\<lambda>op. \<not> plain_insert op) ops \<Longrightarrow>
   list_all owned (states d ops)"
proof (induction ops arbitrary: d)
  case Nil
  then show ?case by simp
next
  case (Cons op ops)
  from Cons.prems have o: "owned (settle_op d op)"
    by (simp add: owned_settle_op)
  from ledger_ok_settle_op [OF Cons.prems(1,2) o] have "ledger_ok (settle_op d op)" .
  from Cons.IH [OF this o] Cons.prems show ?case
    by simp
qed

text \<open>
  Claim C1, as amended.  Take a database in which the keys hold and every trip's
  \<^verbatim>\<open>total_expenses\<close> is the sum of the amounts of its expense rows, and run any sequence
  of operations on it, in any order, each one settling or rolled back: statements on
  \<^verbatim>\<open>expenses\<close> sent by authenticated users, calls of the procedures, and the creation,
  update and deletion of trips.  If before and after every operation each expense row
  carries the user of its trip, then afterwards every trip's stored total is again the
  sum of the amounts of the expense rows whose \<^verbatim>\<open>trip_id\<close> is that trip's id, 0 for a trip
  without expense rows.  Every operation keeps the expense rows with the users of their
  trips except the plain \<^verbatim>\<open>INSERT\<close> into \<^verbatim>\<open>expenses\<close>.
\<close>

theorem sum_invariant_while_owned:
  "(ledger_ok d \<and> list_all owned (states d ops) \<longrightarrow>
      (\<forall>t \<in> set (tbl_trips (foldl settle_op d ops)).
         tr_total_expenses t =
           (\<Sum>e \<leftarrow> filter (\<lambda>e. er_trip_id e = tr_id t) (tbl_expenses (foldl settle_op d ops)).
              er_amount e))) \<and>
   (ledger_ok d \<and> owned d \<and> list_all (\<lambda>op. \<not> plain_insert op) ops \<longrightarrow>
      list_all owned (states d ops))"
proof (intro conjI impI)
  assume "ledger_ok d \<and> list_all owned (states d ops)"
  then have "ledger_ok (foldl settle_op d ops)"
    by (simp add: ledger_ok_states)
  then show "\<forall>t \<in> set (tbl_trips (foldl settle_op d ops)).
         tr_total_expenses t =
           (\<Sum>e \<leftarrow> filter (\<lambda>e. er_trip_id e = tr_id t) (tbl_expenses (foldl settle_op d ops)).
              er_amount e)"
    by (simp add: ledger_ok_def total_invariant_def list_all_iff sum_amount_def)
next
  assume "ledger_ok d \<and> owned d \<and> list_all (\<lambda>op. \<not> plain_insert op) ops"
  then show "list_all owned (states d ops)"
    by (simp add: owned_states)
qed

lemmas ledger_eval =
  settle_def insert_expense_def update_expense_def delete_expense_def
  update_trip_total_expenses_def sum_amount_def visible_def policy_def numeric_10_2_def
  category_check_def COALESCE_def set_expense_columns_def Let_def

lemmas call_eval =
  rpc_def add_expense_with_total_def update_expense_with_total_def
  delete_expense_with_total_def select_total_expenses_def

lemma scenario_states:
  "states empty_db scenario_ops =
     [empty_db,
      \<lparr>tbl_trips =
         [\<lparr>tr_id = ''T'', tr_user_id = ''U'', tr_trip_number = ''TR001'',
           tr_origin = ''Pune'', tr_destination = ''Goa'', tr_travel_mode = ''car'',
           tr_date = ''2024-01-01'', tr_time = ''09:00'', tr_notes = None,
           tr_travelers = [], tr_total_expenses = 0, tr_status = planning\<rparr>],
       tbl_expenses = []\<rparr>,
      \<lparr>tbl_trips =
         [\<lparr>tr_id = ''T'', tr_user_id = ''U'', tr_trip_number = ''TR001'',
           tr_origin = ''Pune'', tr_destination = ''Goa'', tr_travel_mode = ''car'',
           tr_date = ''2024-01-01'', tr_time = ''09:00'', tr_notes = None,
           tr_travelers = [], tr_total_expenses = 12050, tr_status = planning\<rparr>],
       tbl_expenses =
         [\<lparr>er_id = ''A'', er_trip_id = ''T'', er_user_id = ''U'', er_description = ''lunch'',
           er_amount = 12050, er_category = ''food'', er_date = ''2024-01-01'',
           er_time = ''13:00''\<rparr>]\<rparr>,
      \<lparr>tbl_trips =
         [\<lparr>tr_id = ''T'', tr_user_id = ''U'', tr_trip_number = ''TR001'',
           tr_origin = ''Pune'', tr_destination = ''Goa'', tr_travel_mode = ''car'',
           tr_date = ''2024-01-01'', tr_time = ''09:00'', tr_notes = None,
           tr_travelers = [], tr_total_expenses = 16550, tr_status = planning\<rparr>],
       tbl_expenses =
         [\<lparr>er_id = ''A'', er_trip_id = ''T'', er_user_id = ''U'', er_description = ''lunch'',
           er_amount = 12050, er_category = ''food'', er_date = ''2024-01-01'',
           er_time = ''13:00''\<rparr>,
          \<lparr>er_id = ''B'', er_trip_id = ''T'', er_user_id = ''U'', er_description = ''taxi'',
           er_amount = 4500, er_category = ''transport'', er_date = ''2024-01-01'',
           er_time = ''15:00''\<rparr>]\<rparr>,
      \<lparr>tbl_trips =
         [\<lparr>tr_id = ''T'', tr_user_id = ''U'', tr_trip_number = ''TR001'',
           tr_origin = ''Pune'', tr_destination = ''Goa'', tr_travel_mode = ''car'',
           tr_date = ''2024-01-01'', tr_time = ''09:00'', tr_notes = None,
           tr_travelers = [], tr_total_expenses = 24500, tr_status = planning\<rparr>],
       tbl_expenses =
         [\<lparr>er_id = ''A'', er_trip_id = ''T'', er_user_id = ''U'', er_description = ''lunch'',
           er_amount = 20000, er_category = ''food'', er_date = ''2024-01-01'',
           er_time = ''13:00''\<rparr>,
          \<lparr>er_id = ''B'', er_trip_id = ''T'', er_user_id = ''U'', er_description = ''taxi'',
           er_amount = 4500, er_category = ''transport'', er_date = ''2024-01-01'',
           er_time = ''15:00''\<rparr>]\<rparr>,
      \<lparr>tbl_trips =
         [\<lparr>tr_id = ''T'', tr_user_id = ''U'', tr_trip_number = ''TR001'',
           tr_origin = ''Pune'', tr_destination = ''Goa'', tr_travel_mode = ''car'',
           tr_date = ''2024-01-01'', tr_time = ''09:00'', tr_notes = None,
           tr_travelers = [], tr_total_expenses = 20000, tr_status = planning\<rparr>],
       tbl_expenses =
         [\<lparr>er_id = ''A'', er_trip_id = ''T'', er_user_id = ''U'', er_description = ''lunch'',
           er_amount = 20000, er_category = ''food'', er_date = ''2024-01-01'',
           er_time = ''13:00''\<rparr>]\<rparr>]"
  by (simp add: scenario_ops_def ledger_eval call_eval createTrip_def empty_db_def
        some_trip_def generate_trip_number_def LPAD_def integer_text.simps digit_char_def
        truthy_def eval_nat_numeral)

theorem sum_invariant_while_owned_witness:
  "ledger_ok empty_db \<and> list_all owned (states empty_db scenario_ops) \<and>
   list_all
     (\<lambda>t. tr_total_expenses t =
        (\<Sum>e \<leftarrow> filter (\<lambda>e. er_trip_id e = tr_id t)
                 (tbl_expenses (foldl settle_op empty_db scenario_ops)).
           er_amount e))
     (tbl_trips (foldl settle_op empty_db scenario_ops)) \<and>
   map tr_total_expenses (tbl_trips (last (states empty_db scenario_ops))) = [20000] \<and>
   map er_id (tbl_expenses (last (states empty_db scenario_ops))) = [''A''] \<and>
   list_all (\<lambda>op. \<not> plain_insert op) (take 2 scenario_ops) \<and>
   list_all owned (states empty_db (take 2 scenario_ops))"
proof -
  have o: "list_all owned (states empty_db scenario_ops)"
    unfolding scenario_states by (simp add: owned_def empty_db_def)
  have v: "map tr_total_expenses (tbl_trips (last (states empty_db scenario_ops))) = [20000] \<and>
           map er_id (tbl_expenses (last (states empty_db scenario_ops))) = [''A'']"
    by (simp add: scenario_states)
  have p: "list_all (\<lambda>op. \<not> plain_insert op) (take 2 scenario_ops)"
    by (simp add: scenario_ops_def)
  have e: "owned empty_db"
    by (simp add: owned_def empty_db_def)
  from sum_invariant_while_owned [of empty_db scenario_ops] ledger_ok_empty o
  have "list_all
     (\<lambda>t. tr_total_expenses t =
        (\<Sum>e \<leftarrow> filter (\<lambda>e. er_trip_id e = tr_id t)
                 (tbl_expenses (foldl settle_op empty_db scenario_ops)).
           er_amount e))
     (tbl_trips (foldl settle_op empty_db scenario_ops))"
    by (simp add: list_all_iff)
  moreover from sum_invariant_while_owned [of empty_db "take 2 scenario_ops"]
    ledger_ok_empty e p
  have "list_all owned (states empty_db (take 2 scenario_ops))"
    by blast
  ultimately show ?thesis
    using ledger_ok_empty o v p by blast
qed

text \<open>
  The claim as it stands fails for a plain insert into the trip of another user.  In
  the database of the two users every total is the sum of its trip's rows and every
  expense row carries the user of its trip.  User \<open>U\<close> adds an expense of 0.20 with the
  id of the trip of user \<open>V\<close>.  The procedure \<^verbatim>\<open>add_expense_with_total\<close> refuses;
  \<^verbatim>\<open>addExpenseOptimized\<close> then falls back to the plain insert of \<^verbatim>\<open>addExpenseManual\<close>: the policy
  accepts the row, which carries the id of \<open>U\<close>, the foreign key finds the trip, and the
  trigger, run as \<open>U\<close>, may not update the trip of \<open>V\<close>.  The statement settles, the trip
  of \<open>V\<close> keeps its total of 45.00, and the rows with its id sum to 45.20.
\<close>

theorem foreign_insert_breaks_sum_counterexample:
  "map tr_id (tbl_trips two_user_db) = [''T'', ''S''] \<and>
   map tr_total_expenses (tbl_trips two_user_db) = [12050, 4500] \<and>
   map (sum_amount two_user_db) [''T'', ''S''] = [12050, 4500] \<and>
   ledger_ok two_user_db \<and> owned two_user_db \<and>
   rpc (add_expense_with_total ''C'' ''S'' ''U'' (Some ''tip'') (Some 20) (Some ''other'')
          (Some ''2024-02-01'') (Some ''16:00'')) two_user_db =
     (Inl trip_not_found_or_access_denied, two_user_db) \<and>
   run_mutation (authenticated ''U'')
     (Insert ''C'' ''S'' ''U'' (Some ''tip'') (Some 20) (Some ''other'') (Some ''2024-02-01'')
        (Some ''16:00'')) two_user_db =
     Inr (settle_op two_user_db foreign_insert) \<and>
   map er_id (tbl_expenses (settle_op two_user_db foreign_insert)) = [''A'', ''B'', ''C''] \<and>
   map tr_total_expenses (tbl_trips (settle_op two_user_db foreign_insert)) = [12050, 4500] \<and>
   map (sum_amount (settle_op two_user_db foreign_insert)) [''T'', ''S''] = [12050, 4520] \<and>
   \<not> owned (settle_op two_user_db foreign_insert)"
  by (simp add: foreign_insert_def two_user_db_def ledger_eval call_eval ledger_ok_def
        total_invariant_def owned_def)

section \<open>Partial updates of an expense\<close>





lemma COALESCE_simps [simp]: "COALESCE None b = b" "COALESCE (Some a) b = a"
  by (simp_all add: COALESCE_def)






section \<open>The status of a trip\<close>

text \<open>
  Claim C9, as amended.  \<^verbatim>\<open>updateTrip\<close> stores the status the update carries on the
  caller's trip with the given id, whatever status the trip had, and leaves the status
  of every trip alone when the update carries none; the stored status is one of
  \<open>planning\<close>, \<open>in_progress\<close>, \<open>completed\<close> by its type.  \<^verbatim>\<open>startTrip\<close> and \<^verbatim>\<open>completeTrip\<close>
  store \<open>in_progress\<close> and \<open>completed\<close> in the same way.
\<close>

theorem updateTrip_status:
  "map tr_status (tbl_trips (updateTrip tripId uid updates d)) =
     map (\<lambda>t. if tr_id t = tripId \<and> tr_user_id t = uid
               then (case tu_status updates of Some s \<Rightarrow> s | None \<Rightarrow> tr_status t)
               else tr_status t)
         (tbl_trips d) \<and>
   map tr_status (tbl_trips (startTrip tripId uid d)) =
     map (\<lambda>t. if tr_id t = tripId \<and> tr_user_id t = uid then in_progress else tr_status t)
         (tbl_trips d) \<and>
   map tr_status (tbl_trips (completeTrip tripId uid d)) =
     map (\<lambda>t. if tr_id t = tripId \<and> tr_user_id t = uid then completed else tr_status t)
         (tbl_trips d)"
  by (simp add: updateTrip_def startTrip_def completeTrip_def no_updates_def COALESCE_def
           split: option.splits)

text \<open>
  A completed trip of user \<open>U\<close> goes back to \<open>planning\<close> through \<^verbatim>\<open>updateTrip\<close>, and back to
  \<open>in_progress\<close> through \<^verbatim>\<open>startTrip\<close>.
\<close>

theorem updateTrip_status_backward_counterexample:
  "map tr_status (tbl_trips two_user_db) = [completed, planning] \<and>
   map tr_status
     (tbl_trips (updateTrip ''T'' ''U'' (no_updates\<lparr>tu_status := Some planning\<rparr>) two_user_db)) =
     [planning, planning] \<and>
   map tr_status (tbl_trips (startTrip ''T'' ''U'' two_user_db)) = [in_progress, planning] \<and>
   status_rank planning < status_rank completed \<and>
   status_rank in_progress < status_rank completed"
  by (simp add: updateTrip_def startTrip_def no_updates_def two_user_db_def COALESCE_def)

section \<open>The batch procedure\<close>













section \<open>Trip numbers\<close>

















section \<open>Rolling back an optimistic update of an expense\<close>

lemma find_map_same:
  assumes "\<And>x. P (f x) = P x"
  shows "find P (map f xs) = map_option f (find P xs)"
  by (induction xs) (simp_all add: assms)

lemma find_SomeD: "find P xs = Some x \<Longrightarrow> P x \<and> x \<in> set xs"
  by (auto simp: find_Some_iff)

lemma id_expense_spread:
  "id_opt updates = None \<or> id_opt updates = Some (id_expense exp) \<Longrightarrow>
   id_expense (spread exp updates) = id_expense exp"
  by (auto simp: spread_def)

lemma put_back_original:
  assumes "find (\<lambda>e. id_expense e = expenseId) xs = Some original"
  shows "find (\<lambda>e. id_expense e = expenseId)
           (map (\<lambda>exp. if id_expense exp = expenseId then original else exp) xs) =
         Some original"
proof -
  have o: "id_expense original = expenseId"
    using find_SomeD [OF assms] by simp
  have "find (\<lambda>e. id_expense e = expenseId)
          (map (\<lambda>exp. if id_expense exp = expenseId then original else exp) xs) =
        map_option (\<lambda>exp. if id_expense exp = expenseId then original else exp)
          (find (\<lambda>e. id_expense e = expenseId) xs)"
    by (rule find_map_same) (simp add: o)
  then show ?thesis
    by (simp add: assms o)
qed

lemma put_back_original_distinct:
  assumes "find (\<lambda>e. id_expense e = expenseId) xs = Some original"
    and "distinct (map id_expense xs)"
  shows "map (\<lambda>exp. if id_expense exp = expenseId then original else exp) xs = xs"
proof (rule map_idI)
  fix exp assume exp: "exp \<in> set xs"
  have o: "id_expense original = expenseId" "original \<in> set xs"
    using find_SomeD [OF assms(1)] by simp_all
  have "inj_on id_expense (set xs)"
    using assms(2) by (simp add: distinct_map)
  then have "id_expense exp = expenseId \<Longrightarrow> exp = original"
    using exp o by (auto dest: inj_onD)
  then show "(if id_expense exp = expenseId then original else exp) = exp"
    by simp
qed

lemma updateExpense_begin_Some:
  assumes "updateExpense_begin seen now isoNow tripId expenseId updates st = (Some ctx, st1)"
  obtains originalTrip originalExpense where
    "find (\<lambda>t. id_trip t = tripId) (trips seen) = Some originalTrip"
    "find (\<lambda>e. id_expense e = expenseId) (expenses originalTrip) = Some originalExpense"
    "fst (snd ctx) = originalExpense"
    "snd (snd ctx) = totalExpenses originalTrip"
    "trips st1 =
       map (\<lambda>trip. if id_trip trip = tripId
              then trip\<lparr>expenses :=
                          map (\<lambda>exp. if id_expense exp = expenseId
                                      then spread exp updates else exp)
                              (expenses trip),
                        totalExpenses :=
                          js_add (totalExpenses trip)
                            (js_sub (case amount_opt updates of
                                       Some a \<Rightarrow> a | None \<Rightarrow> amount originalExpense)
                                    (amount originalExpense)),
                        updatedAt := isoNow\<rparr>
              else trip)
           (trips st)"
    "toasts st1 = toasts st"
    "pendingOperations st1 = insert (fst ctx) (pendingOperations st)"
    "fst ctx \<notin> pendingOperations st"
    "activeTrip st1 =
       (if map_option id_trip (activeTrip seen) = Some tripId
        then map_option
               (\<lambda>trip. trip\<lparr>expenses :=
                               map (\<lambda>exp. if id_expense exp = expenseId
                                           then spread exp updates else exp)
                                   (expenses trip),
                             totalExpenses :=
                               js_add (totalExpenses trip)
                                 (js_sub (case amount_opt updates of
                                            Some a \<Rightarrow> a | None \<Rightarrow> amount originalExpense)
                                         (amount originalExpense)),
                             updatedAt := isoNow\<rparr>)
               (activeTrip st)
        else activeTrip st)"
  using assms
  by (auto simp: updateExpense_begin_def Let_def applyOptimisticUpdate_def
           split: if_splits option.splits)

text \<open>
  Claim C3, as amended.  Let an update of an expense have been applied optimistically
  by a function whose render saw the trips as they were when it was called, and let the
  update not give the expense another id.  When the awaited call fails, the state after
  the \<^verbatim>\<open>catch\<close> and the \<^verbatim>\<open>finally\<close> is such that the trip holds the total it held before
  the update, the expense with the id is again the expense as it was before the update,
  in every field, and the other fields of the trip are as before except \<^verbatim>\<open>updatedAt\<close>;
  when the ids of the trip's expenses are distinct the whole list of expenses is the
  list as it was before.  The active trip, when it is that trip, is restored in the same
  way, and when the render's active trip is another trip or none it is not touched.
  One error is shown and the set of pending operations is as before the call.  This
  holds whatever the update changed, the amount included.
\<close>

theorem updateExpense_rollback_exact:
  assumes "updateExpense_begin seen now isoNow tripId expenseId updates st = (Some ctx, st1)"
    and "trips seen = trips st"
    and "id_opt updates = None \<or> id_opt updates = Some expenseId"
  shows
    "\<exists>originalTrip originalExpense restored.
       find (\<lambda>t. id_trip t = tripId) (trips st) = Some originalTrip \<and>
       find (\<lambda>e. id_expense e = expenseId) (expenses originalTrip) = Some originalExpense \<and>
       find (\<lambda>t. id_trip t = tripId)
         (trips (updateExpense_settle seen tripId expenseId ctx (Inl err) st1)) =
         Some restored \<and>
       totalExpenses restored = totalExpenses originalTrip \<and>
       find (\<lambda>e. id_expense e = expenseId) (expenses restored) = Some originalExpense \<and>
       (distinct (map id_expense (expenses originalTrip)) \<longrightarrow>
          expenses restored = expenses originalTrip) \<and>
       restored = originalTrip\<lparr>expenses := expenses restored, updatedAt := isoNow\<rparr> \<and>
       (activeTrip seen = Some originalTrip \<and> activeTrip st = Some originalTrip \<longrightarrow>
          activeTrip (updateExpense_settle seen tripId expenseId ctx (Inl err) st1) =
            Some restored) \<and>
       (map_option id_trip (activeTrip seen) \<noteq> Some tripId \<longrightarrow>
          activeTrip (updateExpense_settle seen tripId expenseId ctx (Inl err) st1) =
            activeTrip st) \<and>
       toasts (updateExpense_settle seen tripId expenseId ctx (Inl err) st1) =
         toasts st @ [''Error''] \<and>
       pendingOperations (updateExpense_settle seen tripId expenseId ctx (Inl err) st1) =
         pendingOperations st"
proof -
  from assms(1) obtain originalTrip originalExpense where
    trip': "find (\<lambda>t. id_trip t = tripId) (trips seen) = Some originalTrip" and
    expense: "find (\<lambda>e. id_expense e = expenseId) (expenses originalTrip) =
                Some originalExpense" and
    ctx: "fst (snd ctx) = originalExpense" "snd (snd ctx) = totalExpenses originalTrip" and
    st1: "trips st1 =
       map (\<lambda>trip. if id_trip trip = tripId
              then trip\<lparr>expenses :=
                          map (\<lambda>exp. if id_expense exp = expenseId
                                      then spread exp updates else exp)
                              (expenses trip),
                        totalExpenses :=
                          js_add (totalExpenses trip)
                            (js_sub (case amount_opt updates of
                                       Some a \<Rightarrow> a | None \<Rightarrow> amount originalExpense)
                                    (amount originalExpense)),
                        updatedAt := isoNow\<rparr>
              else trip)
           (trips st)" and
    t1: "toasts st1 = toasts st" and
    p1: "pendingOperations st1 = insert (fst ctx) (pendingOperations st)"
        "fst ctx \<notin> pendingOperations st" and
    a1: "activeTrip st1 =
       (if map_option id_trip (activeTrip seen) = Some tripId
        then map_option
               (\<lambda>trip. trip\<lparr>expenses :=
                               map (\<lambda>exp. if id_expense exp = expenseId
                                           then spread exp updates else exp)
                                   (expenses trip),
                             totalExpenses :=
                               js_add (totalExpenses trip)
                                 (js_sub (case amount_opt updates of
                                            Some a \<Rightarrow> a | None \<Rightarrow> amount originalExpense)
                                         (amount originalExpense)),
                             updatedAt := isoNow\<rparr>)
               (activeTrip st)
        else activeTrip st)"
    by (rule updateExpense_begin_Some)
  from trip' assms(2) have trip: "find (\<lambda>t. id_trip t = tripId) (trips st) = Some originalTrip"
    by simp
  let ?orig = "\<lambda>exp. if id_expense exp = expenseId then originalExpense else exp"
  let ?restore = "\<lambda>trip. if id_trip trip = tripId
                    then trip\<lparr>expenses := map ?orig (expenses trip),
                              totalExpenses := totalExpenses originalTrip,
                              updatedAt := isoNow\<rparr>
                    else trip"
  let ?final = "updateExpense_settle seen tripId expenseId ctx (Inl err) st1"
  have same_id: "\<And>exp. id_expense exp = expenseId \<Longrightarrow>
                   id_expense (spread exp updates) = expenseId"
    using assms(3) id_expense_spread [of updates] by auto
  have back_spread:
    "?orig \<circ> (\<lambda>exp. if id_expense exp = expenseId then spread exp updates else exp) =
       ?orig"
    by (rule ext) (simp add: same_id)
  have final: "trips ?final = map ?restore (trips st)"
    by (simp add: updateExpense_settle_def updateExpense_revert_def toast_def
          applyOptimisticUpdate_def st1 ctx back_spread)
  have "find (\<lambda>t. id_trip t = tripId) (map ?restore (trips st)) =
          map_option ?restore (find (\<lambda>t. id_trip t = tripId) (trips st))"
    by (rule find_map_same) simp
  then have restored: "find (\<lambda>t. id_trip t = tripId) (trips ?final) =
                         Some (?restore originalTrip)"
    by (simp add: final trip)
  have tid: "id_trip originalTrip = tripId"
    using find_SomeD [OF trip] by simp
  have toasts: "toasts ?final = toasts st @ [''Error'']"
    by (simp add: updateExpense_settle_def updateExpense_revert_def toast_def
          applyOptimisticUpdate_def t1)
  have pending: "pendingOperations ?final = pendingOperations st"
    using p1
    by (simp add: updateExpense_settle_def updateExpense_revert_def toast_def
          applyOptimisticUpdate_def)
  have active: "activeTrip ?final =
      (if map_option id_trip (activeTrip seen) = Some tripId
       then map_option
              (\<lambda>trip. trip\<lparr>expenses := map ?orig (expenses trip),
                            totalExpenses := totalExpenses originalTrip,
                            updatedAt := isoNow\<rparr>)
              (activeTrip st)
       else activeTrip st)"
    by (cases "activeTrip st")
       (auto simp: updateExpense_settle_def updateExpense_revert_def toast_def
          applyOptimisticUpdate_def a1 ctx back_spread)
  show ?thesis
  proof (intro exI conjI)
    show "find (\<lambda>t. id_trip t = tripId) (trips st) = Some originalTrip"
      by (rule trip)
    show "find (\<lambda>e. id_expense e = expenseId) (expenses originalTrip) = Some originalExpense"
      by (rule expense)
    show "find (\<lambda>t. id_trip t = tripId) (trips ?final) = Some (?restore originalTrip)"
      by (rule restored)
    show "totalExpenses (?restore originalTrip) = totalExpenses originalTrip"
      by (simp add: tid)
    show "find (\<lambda>e. id_expense e = expenseId) (expenses (?restore originalTrip)) =
            Some originalExpense"
      using put_back_original [OF expense] by (simp add: tid)
    show "distinct (map id_expense (expenses originalTrip)) \<longrightarrow>
            expenses (?restore originalTrip) = expenses originalTrip"
      using put_back_original_distinct [OF expense] by (simp add: tid)
    show "?restore originalTrip =
            originalTrip\<lparr>expenses := expenses (?restore originalTrip), updatedAt := isoNow\<rparr>"
      by (simp add: tid)
    show "activeTrip seen = Some originalTrip \<and> activeTrip st = Some originalTrip \<longrightarrow>
            activeTrip ?final = Some (?restore originalTrip)"
      by (simp add: active tid)
    show "map_option id_trip (activeTrip seen) \<noteq> Some tripId \<longrightarrow>
            activeTrip ?final = activeTrip st"
    proof
      assume other: "map_option id_trip (activeTrip seen) \<noteq> Some tripId"
      show "activeTrip ?final = activeTrip st"
        by (simp only: active other if_False)
    qed
    show "toasts ?final = toasts st @ [''Error'']"
      by (rule toasts)
    show "pendingOperations ?final = pendingOperations st"
      by (rule pending)
  qed
qed

text \<open>The sums of numbers the examples need: 0.2 - 0.1, 0.1 + 0.1, 0.1 + 0.2, 0.3... - 0.2.\<close>

lemmas number_eval =
  js_add_def js_sub_def round_to_double_def normalize_number.simps excess_bits.simps
  Let_def

lemma number_facts:
  "js_sub (3602879701896397, -54) (3602879701896397, -55) = (3602879701896397, -55)"
  "js_add (3602879701896397, -55) (3602879701896397, -55) = (3602879701896397, -54)"
  "js_add (3602879701896397, -55) (3602879701896397, -54) = (1351079888211149, -52)"
  "js_sub (1351079888211149, -52) (3602879701896397, -54) = (1801439850948199, -54)"
  "js_sub (3602879701896397, -55) (3602879701896397, -55) = (0, 0)"
  "js_add (3602879701896397, -54) (0, 0) = (3602879701896397, -54)"
  "js_add (0, 0) (3602879701896397, -55) = (3602879701896397, -55)"
  by (simp_all add: number_eval cong: let_weak_cong)

lemmas hook_eval =
  addExpense_begin_def addExpense_settle_def addExpense_revert_def addExpense_confirm_def
  addExpense_def updateExpense_begin_def updateExpense_settle_def updateExpense_revert_def
  updateExpense_confirm_def updateExpense_def deleteExpense_begin_def
  deleteExpense_settle_def deleteExpense_revert_def deleteExpense_confirm_def
  deleteExpense_def applyOptimisticUpdate_def toast_def
  with_id_def spread_def goa_state_def goa_trip_def lunch_def tea_def no_changes_def
  integer_text.simps digit_char_def Let_def

theorem updateExpense_rollback_exact_witness:
  "updateExpense_begin goa_state 7 ''now'' ''T'' ''e1'' costs_more goa_state =
     (Some (the (fst (updateExpense_begin goa_state 7 ''now'' ''T'' ''e1'' costs_more
                        goa_state))),
      snd (updateExpense_begin goa_state 7 ''now'' ''T'' ''e1'' costs_more goa_state)) \<and>
   id_opt costs_more = None \<and>
   map (map amount \<circ> expenses) (trips goa_state) = [[(3602879701896397, -55)]] \<and>
   map totalExpenses (trips goa_state) = [(3602879701896397, -55)] \<and>
   map (map amount \<circ> expenses)
     (trips (snd (updateExpense_begin goa_state 7 ''now'' ''T'' ''e1'' costs_more goa_state))) =
     [[(3602879701896397, -54)]] \<and>
   map totalExpenses
     (trips (snd (updateExpense_begin goa_state 7 ''now'' ''T'' ''e1'' costs_more goa_state))) =
     [(3602879701896397, -54)] \<and>
   map expenses
     (trips (updateExpense_settle goa_state ''T'' ''e1''
               (the (fst (updateExpense_begin goa_state 7 ''now'' ''T'' ''e1'' costs_more
                            goa_state)))
               (Inl (Error ''Failed to update expense: timeout''))
               (snd (updateExpense_begin goa_state 7 ''now'' ''T'' ''e1'' costs_more
                       goa_state)))) =
     [[lunch]] \<and>
   map totalExpenses
     (trips (updateExpense_settle goa_state ''T'' ''e1''
               (the (fst (updateExpense_begin goa_state 7 ''now'' ''T'' ''e1'' costs_more
                            goa_state)))
               (Inl (Error ''Failed to update expense: timeout''))
               (snd (updateExpense_begin goa_state 7 ''now'' ''T'' ''e1'' costs_more
                       goa_state)))) =
     [(3602879701896397, -55)] \<and>
   map_option expenses
     (activeTrip
        (updateExpense_settle goa_state ''T'' ''e1''
           (the (fst (updateExpense_begin goa_state 7 ''now'' ''T'' ''e1'' costs_more
                        goa_state)))
           (Inl (Error ''Failed to update expense: timeout''))
           (snd (updateExpense_begin goa_state 7 ''now'' ''T'' ''e1'' costs_more
                   goa_state)))) =
     Some [lunch] \<and>
   map_option totalExpenses
     (activeTrip
        (updateExpense_settle goa_state ''T'' ''e1''
           (the (fst (updateExpense_begin goa_state 7 ''now'' ''T'' ''e1'' costs_more
                        goa_state)))
           (Inl (Error ''Failed to update expense: timeout''))
           (snd (updateExpense_begin goa_state 7 ''now'' ''T'' ''e1'' costs_more
                   goa_state)))) =
     Some (3602879701896397, -55) \<and>
   toasts
     (updateExpense_settle goa_state ''T'' ''e1''
        (the (fst (updateExpense_begin goa_state 7 ''now'' ''T'' ''e1'' costs_more goa_state)))
        (Inl (Error ''Failed to update expense: timeout''))
        (snd (updateExpense_begin goa_state 7 ''now'' ''T'' ''e1'' costs_more goa_state))) =
     [''Error'']"
proof -
  let ?X = "updateExpense_begin goa_state 7 ''now'' ''T'' ''e1'' costs_more goa_state"
  let ?final = "updateExpense_settle goa_state ''T'' ''e1'' (the (fst ?X))
                  (Inl (Error ''Failed to update expense: timeout'')) (snd ?X)"
  have "\<exists>ctx. fst ?X = Some ctx"
    by (simp add: hook_eval costs_more_def)
  then have x: "?X = (Some (the (fst ?X)), snd ?X)"
    by (cases ?X) auto
  have i: "id_opt costs_more = None \<or> id_opt costs_more = Some ''e1''"
    by (simp add: costs_more_def no_changes_def)
  have before: "map (map amount \<circ> expenses) (trips goa_state) = [[(3602879701896397, -55)]] \<and>
                map totalExpenses (trips goa_state) = [(3602879701896397, -55)]"
    by (simp add: goa_state_def goa_trip_def lunch_def)
  have during: "map (map amount \<circ> expenses) (trips (snd ?X)) = [[(3602879701896397, -54)]] \<and>
                map totalExpenses (trips (snd ?X)) = [(3602879701896397, -54)]"
    by (simp add: hook_eval costs_more_def number_facts)
  have after: "map expenses (trips ?final) = [[lunch]] \<and>
               map totalExpenses (trips ?final) = [(3602879701896397, -55)] \<and>
               map_option expenses (activeTrip ?final) = Some [lunch] \<and>
               map_option totalExpenses (activeTrip ?final) = Some (3602879701896397, -55)"
    by (simp add: hook_eval costs_more_def)
  from updateExpense_rollback_exact
         [OF x refl i, of "Error ''Failed to update expense: timeout''"]
  have "toasts ?final = toasts goa_state @ [''Error'']"
    by blast
  then have "toasts ?final = [''Error'']"
    by (simp add: goa_state_def)
  with x i before during after show ?thesis
    by (simp add: costs_more_def no_changes_def)
qed

text \<open>
  The claim as it stands fails in two ways.  First, the function reads the original
  expense and total from the trips of its render.  The amount of the lunch has been
  updated from 0.1 to 0.2 and the total is 0.2; a function of the render before that
  update is asked to change the description and the call fails: the rollback stores
  the lunch at 0.1 and the total 0.1, not the 0.2 and 0.2 from before the failed
  update.  Second, an update can carry an id: the expense gets the new id at once, the
  rollback looks for the old id and finds none, and the expense stays as the update
  made it.
\<close>

theorem updateExpense_rollback_counterexample:
  "map (map amount \<circ> expenses) (trips goa_state_later) = [[(3602879701896397, -54)]] \<and>
   map totalExpenses (trips goa_state_later) = [(3602879701896397, -54)] \<and>
   map (map amount \<circ> expenses)
     (trips (updateExpense goa_state 8 ''now'' ''T'' ''e1'' renamed
               (Inl (Error ''Failed to update expense: timeout'')) goa_state_later)) =
     [[(3602879701896397, -55)]] \<and>
   map totalExpenses
     (trips (updateExpense goa_state 8 ''now'' ''T'' ''e1'' renamed
               (Inl (Error ''Failed to update expense: timeout'')) goa_state_later)) =
     [(3602879701896397, -55)] \<and>
   map (map id_expense \<circ> expenses) (trips goa_state) = [[''e1'']] \<and>
   map (map id_expense \<circ> expenses)
     (trips (updateExpense goa_state 7 ''now'' ''T'' ''e1'' other_id
               (Inl (Error ''Failed to update expense: timeout'')) goa_state)) = [[''e9'']] \<and>
   map (map amount \<circ> expenses)
     (trips (updateExpense goa_state 7 ''now'' ''T'' ''e1'' other_id
               (Inl (Error ''Failed to update expense: timeout'')) goa_state)) =
     [[(3602879701896397, -54)]]"
  by (simp add: goa_state_later_def dearer_lunch_def renamed_def other_id_def costs_more_def
        hook_eval number_facts)

section \<open>Rolling back an optimistic add\<close>

lemma addExpense_begin_Some:
  assumes "addExpense_begin seen now1 now2 isoNow tripId expense st = (Some ctx, st1)"
  shows "snd ctx = with_id (''temp-'' @ integer_text now2) expense"
    and "trips st1 =
           map (\<lambda>trip. if id_trip trip = tripId
                  then trip\<lparr>expenses := expenses trip @ [snd ctx],
                            totalExpenses := js_add (totalExpenses trip) (amount expense),
                            updatedAt := isoNow\<rparr>
                  else trip)
               (trips st)"
  using assms
  by (auto simp: addExpense_begin_def Let_def applyOptimisticUpdate_def split: if_splits)

text \<open>
  Claim C2, on a trip whose total is 0.1, with one expense: an expense of 0.2 is added
  and the call fails.  The list of expenses is the old one again, the total is not: it
  is 0.1 + 0.2 - 0.2 in binary64, which is 0.10000000000000003, the pair
  \<open>(1801439850948199, -54)\<close>, and not 0.1.
\<close>

theorem addExpense_rollback_total_drifts:
  "map totalExpenses (trips goa_state) = [(3602879701896397, -55)] \<and>
   amount tea = (3602879701896397, -54) \<and>
   js_add (3602879701896397, -55) (3602879701896397, -54) = (1351079888211149, -52) \<and>
   map expenses
     (trips (addExpense goa_state 5 5 ''now'' ''T'' tea
               (Inl (Error ''Failed to add expense: timeout'')) goa_state)) =
     map expenses (trips goa_state) \<and>
   map totalExpenses
     (trips (addExpense goa_state 5 5 ''now'' ''T'' tea
               (Inl (Error ''Failed to add expense: timeout'')) goa_state)) =
     [(1801439850948199, -54)] \<and>
   map totalExpenses
     (trips (addExpense goa_state 5 5 ''now'' ''T'' tea
               (Inl (Error ''Failed to add expense: timeout'')) goa_state)) \<noteq>
     map totalExpenses (trips goa_state)"
  by (simp add: hook_eval number_facts)

section \<open>Fallback and escalation\<close>

lemma times_called_simps [simp]:
  "times_called c [] = 0"
  "times_called c (x # xs) = (if x = c then Suc (times_called c xs) else times_called c xs)"
  "times_called c (xs @ ys) = times_called c xs + times_called c ys"
  by (simp_all add: times_called_def)

text \<open>What a failed call leaves in the hook, from the state before the call.\<close>

lemma addExpense_failed:
  assumes "user seen \<noteq> None"
    and "''add-'' @ tripId @ ''-'' @ integer_text now1 \<notin> pendingOperations st"
  shows "trips (addExpense seen now1 now2 isoNow tripId expense (Inl err) st) =
           map (\<lambda>trip. if id_trip trip = tripId
                  then trip\<lparr>expenses :=
                              filter (\<lambda>exp. id_expense exp \<noteq> ''temp-'' @ integer_text now2)
                                     (expenses trip),
                            totalExpenses :=
                              js_sub (js_add (totalExpenses trip) (amount expense))
                                     (amount expense),
                            updatedAt := isoNow\<rparr>
                  else trip)
               (trips st)"
    and "toasts (addExpense seen now1 now2 isoNow tripId expense (Inl err) st) =
           toasts st @ [''Error'']"
    and "pendingOperations (addExpense seen now1 now2 isoNow tripId expense (Inl err) st) =
           pendingOperations st"
  using assms
  by (auto simp: addExpense_def addExpense_begin_def addExpense_settle_def
        addExpense_revert_def applyOptimisticUpdate_def toast_def with_id_def Let_def)

lemma updateExpense_failed:
  assumes "user seen \<noteq> None"
    and "''update-'' @ expenseId @ ''-'' @ integer_text now \<notin> pendingOperations st"
    and "find (\<lambda>t. id_trip t = tripId) (trips seen) = Some originalTrip"
    and "find (\<lambda>e. id_expense e = expenseId) (expenses originalTrip) = Some originalExpense"
  shows "trips (updateExpense seen now isoNow tripId expenseId updates (Inl err) st) =
           map (\<lambda>trip. if id_trip trip = tripId
                  then trip\<lparr>expenses :=
                              map (\<lambda>exp. if id_expense exp = expenseId
                                          then originalExpense else exp)
                                (map (\<lambda>exp. if id_expense exp = expenseId
                                            then spread exp updates else exp)
                                   (expenses trip)),
                            totalExpenses := totalExpenses originalTrip,
                            updatedAt := isoNow\<rparr>
                  else trip)
               (trips st)"
    and "toasts (updateExpense seen now isoNow tripId expenseId updates (Inl err) st) =
           toasts st @ [''Error'']"
    and "pendingOperations (updateExpense seen now isoNow tripId expenseId updates (Inl err) st) =
           pendingOperations st"
  using assms
  by (auto simp: updateExpense_def updateExpense_begin_def updateExpense_settle_def
        updateExpense_revert_def applyOptimisticUpdate_def toast_def Let_def comp_def)

lemma deleteExpense_failed:
  assumes "user seen \<noteq> None"
    and "''delete-'' @ expenseId @ ''-'' @ integer_text now \<notin> pendingOperations st"
    and "find (\<lambda>t. id_trip t = tripId) (trips seen) = Some originalTrip"
    and "find (\<lambda>e. id_expense e = expenseId) (expenses originalTrip) = Some expenseToDelete"
  shows "trips (deleteExpense seen getTime now isoNow tripId expenseId (Inl err) st) =
           map (\<lambda>trip. if id_trip trip = tripId
                  then trip\<lparr>expenses :=
                              sort_key (\<lambda>e. - getTime (date e @ '' '' @ time e))
                                (filter (\<lambda>exp. id_expense exp \<noteq> expenseId) (expenses trip) @
                                 [expenseToDelete]),
                            totalExpenses :=
                              js_add (js_sub (totalExpenses trip) (amount expenseToDelete))
                                     (amount expenseToDelete),
                            updatedAt := isoNow\<rparr>
                  else trip)
               (trips st)"
    and "toasts (deleteExpense seen getTime now isoNow tripId expenseId (Inl err) st) =
           toasts st @ [''Error'']"
    and "pendingOperations (deleteExpense seen getTime now isoNow tripId expenseId (Inl err) st) =
           pendingOperations st"
  using assms
  by (auto simp: deleteExpense_def deleteExpense_begin_def deleteExpense_settle_def
        deleteExpense_revert_def applyOptimisticUpdate_def toast_def Let_def comp_def)

lemma addExpenseOptimized_fallback:
  "add_user a = Some u \<and> add_rpc a = Inl e \<longrightarrow>
     addExpenseOptimized a tripId expense =
       ([auth_getUser, rpc_call ''add_expense_with_total''] @
          fst (addExpenseManual a tripId expense),
        snd (addExpenseManual a tripId expense)) \<and>
     times_called (rpc_call ''add_expense_with_total'')
       (fst (addExpenseOptimized a tripId expense)) = 1 \<and>
     (add_manual_user a = None \<longrightarrow>
        times_called (from_insert ''expenses'') (fst (addExpenseOptimized a tripId expense)) = 0 \<and>
        snd (addExpenseOptimized a tripId expense) = Inl (Error ''User not authenticated'')) \<and>
     (add_manual_user a = Some u' \<longrightarrow>
        times_called (from_insert ''expenses'') (fst (addExpenseOptimized a tripId expense)) = 1 \<and>
        (\<forall>m. add_insert a = Inl m \<longrightarrow>
           snd (addExpenseOptimized a tripId expense) =
             Inl (Error (''Failed to add expense: '' @ m))))"
  by (auto simp: addExpenseOptimized_def addExpenseManual_def
        split: sum.splits option.splits prod.splits)

lemma updateExpenseOptimized_fallback:
  "upd_user b = Some u \<and> upd_rpc b = Inl e \<longrightarrow>
     updateExpenseOptimized b expenseId updates =
       ([auth_getUser, rpc_call ''update_expense_with_total''] @
          fst (updateExpenseManual b expenseId updates),
        snd (updateExpenseManual b expenseId updates)) \<and>
     times_called (rpc_call ''update_expense_with_total'')
       (fst (updateExpenseOptimized b expenseId updates)) = 1 \<and>
     (upd_manual_user b = None \<longrightarrow>
        times_called (from_update ''expenses'')
          (fst (updateExpenseOptimized b expenseId updates)) = 0 \<and>
        snd (updateExpenseOptimized b expenseId updates) =
          Inl (Error ''User not authenticated'')) \<and>
     (upd_manual_user b = Some u' \<longrightarrow>
        times_called (from_update ''expenses'')
          (fst (updateExpenseOptimized b expenseId updates)) = 1 \<and>
        (\<forall>m. upd_update b = Inl m \<longrightarrow>
           snd (updateExpenseOptimized b expenseId updates) =
             Inl (Error (''Failed to update expense: '' @ m))))"
  by (auto simp: updateExpenseOptimized_def updateExpenseManual_def
        split: sum.splits option.splits prod.splits)

lemma deleteExpenseOptimized_fallback:
  "del_user c = Some u \<and> del_rpc c = Inl e \<longrightarrow>
     deleteExpenseOptimized c expenseId =
       ([auth_getUser, rpc_call ''delete_expense_with_total''] @
          fst (deleteExpenseManual c expenseId),
        snd (deleteExpenseManual c expenseId)) \<and>
     times_called (rpc_call ''delete_expense_with_total'')
       (fst (deleteExpenseOptimized c expenseId)) = 1 \<and>
     (del_manual_user c = None \<longrightarrow>
        times_called (from_delete ''expenses'') (fst (deleteExpenseOptimized c expenseId)) = 0 \<and>
        snd (deleteExpenseOptimized c expenseId) = Inl (Error ''User not authenticated'')) \<and>
     (del_manual_user c = Some u' \<longrightarrow>
        (\<forall>m. del_select c = Inl m \<longrightarrow>
           times_called (from_delete ''expenses'') (fst (deleteExpenseOptimized c expenseId)) = 0 \<and>
           snd (deleteExpenseOptimized c expenseId) =
             Inl (Error (''Failed to fetch expense details: '' @ m))) \<and>
        (\<forall>t. del_select c = Inr t \<longrightarrow>
           times_called (from_delete ''expenses'') (fst (deleteExpenseOptimized c expenseId)) = 1 \<and>
           (\<forall>m. del_delete c = Some m \<longrightarrow>
              snd (deleteExpenseOptimized c expenseId) =
                Inl (Error (''Failed to delete expense: '' @ m)))))"
  by (auto simp: deleteExpenseOptimized_def deleteExpenseManual_def
        split: sum.splits option.splits prod.splits)

text \<open>
  Claim C7, as amended.  In \<^verbatim>\<open>addExpenseOptimized\<close>, \<^verbatim>\<open>updateExpenseOptimized\<close> and
  \<^verbatim>\<open>deleteExpenseOptimized\<close>, when the user is authenticated and the stored procedure
  answers with an error, the function makes the one procedure call, then runs the manual
  function once and hands on whatever that gives: no call is repeated; the manual write
  is sent exactly once when the manual function finds the user (for a delete, when it
  also finds the expense); when the manual function finds no user, or its write fails,
  or the read before a delete fails, the function throws that failure.  The hook that
  awaits a thrown failure undoes its optimistic change the way its \<^verbatim>\<open>catch\<close> does: an add
  takes the temporary expense out and subtracts the amount again, an update puts the
  captured expense and the captured total back, a delete puts the captured expense back
  into the sorted list and adds its amount again; it shows one error and clears the
  pending operation.
\<close>

theorem rpc_failure_falls_back_once:
  "(add_user a = Some u \<and> add_rpc a = Inl e \<longrightarrow>
     addExpenseOptimized a tripId expense =
       ([auth_getUser, rpc_call ''add_expense_with_total''] @
          fst (addExpenseManual a tripId expense),
        snd (addExpenseManual a tripId expense)) \<and>
     times_called (rpc_call ''add_expense_with_total'')
       (fst (addExpenseOptimized a tripId expense)) = 1 \<and>
     (add_manual_user a = None \<longrightarrow>
        times_called (from_insert ''expenses'') (fst (addExpenseOptimized a tripId expense)) = 0 \<and>
        snd (addExpenseOptimized a tripId expense) = Inl (Error ''User not authenticated'')) \<and>
     (add_manual_user a = Some u' \<longrightarrow>
        times_called (from_insert ''expenses'') (fst (addExpenseOptimized a tripId expense)) = 1 \<and>
        (\<forall>m. add_insert a = Inl m \<longrightarrow>
           snd (addExpenseOptimized a tripId expense) =
             Inl (Error (''Failed to add expense: '' @ m))))) \<and>
   (upd_user b = Some u \<and> upd_rpc b = Inl e \<longrightarrow>
     updateExpenseOptimized b expenseId updates =
       ([auth_getUser, rpc_call ''update_expense_with_total''] @
          fst (updateExpenseManual b expenseId updates),
        snd (updateExpenseManual b expenseId updates)) \<and>
     times_called (rpc_call ''update_expense_with_total'')
       (fst (updateExpenseOptimized b expenseId updates)) = 1 \<and>
     (upd_manual_user b = None \<longrightarrow>
        times_called (from_update ''expenses'')
          (fst (updateExpenseOptimized b expenseId updates)) = 0 \<and>
        snd (updateExpenseOptimized b expenseId updates) =
          Inl (Error ''User not authenticated'')) \<and>
     (upd_manual_user b = Some u' \<longrightarrow>
        times_called (from_update ''expenses'')
          (fst (updateExpenseOptimized b expenseId updates)) = 1 \<and>
        (\<forall>m. upd_update b = Inl m \<longrightarrow>
           snd (updateExpenseOptimized b expenseId updates) =
             Inl (Error (''Failed to update expense: '' @ m))))) \<and>
   (del_user c = Some u \<and> del_rpc c = Inl e \<longrightarrow>
     deleteExpenseOptimized c expenseId =
       ([auth_getUser, rpc_call ''delete_expense_with_total''] @
          fst (deleteExpenseManual c expenseId),
        snd (deleteExpenseManual c expenseId)) \<and>
     times_called (rpc_call ''delete_expense_with_total'')
       (fst (deleteExpenseOptimized c expenseId)) = 1 \<and>
     (del_manual_user c = None \<longrightarrow>
        times_called (from_delete ''expenses'') (fst (deleteExpenseOptimized c expenseId)) = 0 \<and>
        snd (deleteExpenseOptimized c expenseId) = Inl (Error ''User not authenticated'')) \<and>
     (del_manual_user c = Some u' \<longrightarrow>
        (\<forall>m. del_select c = Inl m \<longrightarrow>
           times_called (from_delete ''expenses'') (fst (deleteExpenseOptimized c expenseId)) = 0 \<and>
           snd (deleteExpenseOptimized c expenseId) =
             Inl (Error (''Failed to fetch expense details: '' @ m))) \<and>
        (\<forall>t. del_select c = Inr t \<longrightarrow>
           times_called (from_delete ''expenses'') (fst (deleteExpenseOptimized c expenseId)) = 1 \<and>
           (\<forall>m. del_delete c = Some m \<longrightarrow>
              snd (deleteExpenseOptimized c expenseId) =
                Inl (Error (''Failed to delete expense: '' @ m)))))) \<and>
   (\<forall>err. snd (addExpenseOptimized a tripId expense) = Inl err \<and> user seen \<noteq> None \<and>
          ''add-'' @ tripId @ ''-'' @ integer_text now \<notin> pendingOperations st \<longrightarrow>
      trips (addExpense seen now now' isoNow tripId expense
               (snd (addExpenseOptimized a tripId expense)) st) =
        map (\<lambda>trip. if id_trip trip = tripId
               then trip\<lparr>expenses :=
                           filter (\<lambda>exp. id_expense exp \<noteq> ''temp-'' @ integer_text now')
                                  (expenses trip),
                         totalExpenses :=
                           js_sub (js_add (totalExpenses trip) (amount expense))
                                  (amount expense),
                         updatedAt := isoNow\<rparr>
               else trip)
            (trips st) \<and>
      toasts (addExpense seen now now' isoNow tripId expense
                (snd (addExpenseOptimized a tripId expense)) st) = toasts st @ [''Error''] \<and>
      pendingOperations (addExpense seen now now' isoNow tripId expense
                           (snd (addExpenseOptimized a tripId expense)) st) =
        pendingOperations st) \<and>
   (\<forall>err originalTrip originalExpense.
      snd (updateExpenseOptimized b expenseId updates) = Inl err \<and> user seen \<noteq> None \<and>
      ''update-'' @ expenseId @ ''-'' @ integer_text now \<notin> pendingOperations st \<and>
      find (\<lambda>t. id_trip t = tripId) (trips seen) = Some originalTrip \<and>
      find (\<lambda>e. id_expense e = expenseId) (expenses originalTrip) = Some originalExpense \<longrightarrow>
      trips (updateExpense seen now isoNow tripId expenseId updates
               (snd (updateExpenseOptimized b expenseId updates)) st) =
        map (\<lambda>trip. if id_trip trip = tripId
               then trip\<lparr>expenses :=
                           map (\<lambda>exp. if id_expense exp = expenseId
                                       then originalExpense else exp)
                             (map (\<lambda>exp. if id_expense exp = expenseId
                                         then spread exp updates else exp)
                                (expenses trip)),
                         totalExpenses := totalExpenses originalTrip,
                         updatedAt := isoNow\<rparr>
               else trip)
            (trips st) \<and>
      toasts (updateExpense seen now isoNow tripId expenseId updates
                (snd (updateExpenseOptimized b expenseId updates)) st) =
        toasts st @ [''Error''] \<and>
      pendingOperations (updateExpense seen now isoNow tripId expenseId updates
                           (snd (updateExpenseOptimized b expenseId updates)) st) =
        pendingOperations st) \<and>
   (\<forall>err originalTrip expenseToDelete.
      snd (deleteExpenseOptimized c expenseId) = Inl err \<and> user seen \<noteq> None \<and>
      ''delete-'' @ expenseId @ ''-'' @ integer_text now \<notin> pendingOperations st \<and>
      find (\<lambda>t. id_trip t = tripId) (trips seen) = Some originalTrip \<and>
      find (\<lambda>e. id_expense e = expenseId) (expenses originalTrip) = Some expenseToDelete \<longrightarrow>
      trips (deleteExpense seen getTime now isoNow tripId expenseId
               (snd (deleteExpenseOptimized c expenseId)) st) =
        map (\<lambda>trip. if id_trip trip = tripId
               then trip\<lparr>expenses :=
                           sort_key (\<lambda>e. - getTime (date e @ '' '' @ time e))
                             (filter (\<lambda>exp. id_expense exp \<noteq> expenseId) (expenses trip) @
                              [expenseToDelete]),
                         totalExpenses :=
                           js_add (js_sub (totalExpenses trip) (amount expenseToDelete))
                                  (amount expenseToDelete),
                         updatedAt := isoNow\<rparr>
               else trip)
            (trips st) \<and>
      toasts (deleteExpense seen getTime now isoNow tripId expenseId
                (snd (deleteExpenseOptimized c expenseId)) st) = toasts st @ [''Error''] \<and>
      pendingOperations (deleteExpense seen getTime now isoNow tripId expenseId
                           (snd (deleteExpenseOptimized c expenseId)) st) =
        pendingOperations st)"
proof (intro conjI allI)
  fix err
  show "snd (addExpenseOptimized a tripId expense) = Inl err \<and> user seen \<noteq> None \<and>
          ''add-'' @ tripId @ ''-'' @ integer_text now \<notin> pendingOperations st \<longrightarrow>
      trips (addExpense seen now now' isoNow tripId expense
               (snd (addExpenseOptimized a tripId expense)) st) =
        map (\<lambda>trip. if id_trip trip = tripId
               then trip\<lparr>expenses :=
                           filter (\<lambda>exp. id_expense exp \<noteq> ''temp-'' @ integer_text now')
                                  (expenses trip),
                         totalExpenses :=
                           js_sub (js_add (totalExpenses trip) (amount expense))
                                  (amount expense),
                         updatedAt := isoNow\<rparr>
               else trip)
            (trips st) \<and>
      toasts (addExpense seen now now' isoNow tripId expense
                (snd (addExpenseOptimized a tripId expense)) st) = toasts st @ [''Error''] \<and>
      pendingOperations (addExpense seen now now' isoNow tripId expense
                           (snd (addExpenseOptimized a tripId expense)) st) =
        pendingOperations st"
    using addExpense_failed [of seen tripId now st now' isoNow expense err] by simp
next
  fix err originalTrip originalExpense
  show "snd (updateExpenseOptimized b expenseId updates) = Inl err \<and> user seen \<noteq> None \<and>
      ''update-'' @ expenseId @ ''-'' @ integer_text now \<notin> pendingOperations st \<and>
      find (\<lambda>t. id_trip t = tripId) (trips seen) = Some originalTrip \<and>
      find (\<lambda>e. id_expense e = expenseId) (expenses originalTrip) = Some originalExpense \<longrightarrow>
      trips (updateExpense seen now isoNow tripId expenseId updates
               (snd (updateExpenseOptimized b expenseId updates)) st) =
        map (\<lambda>trip. if id_trip trip = tripId
               then trip\<lparr>expenses :=
                           map (\<lambda>exp. if id_expense exp = expenseId
                                       then originalExpense else exp)
                             (map (\<lambda>exp. if id_expense exp = expenseId
                                         then spread exp updates else exp)
                                (expenses trip)),
                         totalExpenses := totalExpenses originalTrip,
                         updatedAt := isoNow\<rparr>
               else trip)
            (trips st) \<and>
      toasts (updateExpense seen now isoNow tripId expenseId updates
                (snd (updateExpenseOptimized b expenseId updates)) st) =
        toasts st @ [''Error''] \<and>
      pendingOperations (updateExpense seen now isoNow tripId expenseId updates
                           (snd (updateExpenseOptimized b expenseId updates)) st) =
        pendingOperations st"
    using updateExpense_failed
            [of seen expenseId now st tripId originalTrip originalExpense isoNow updates err]
    by simp
next
  fix err originalTrip expenseToDelete
  show "snd (deleteExpenseOptimized c expenseId) = Inl err \<and> user seen \<noteq> None \<and>
      ''delete-'' @ expenseId @ ''-'' @ integer_text now \<notin> pendingOperations st \<and>
      find (\<lambda>t. id_trip t = tripId) (trips seen) = Some originalTrip \<and>
      find (\<lambda>e. id_expense e = expenseId) (expenses originalTrip) = Some expenseToDelete \<longrightarrow>
      trips (deleteExpense seen getTime now isoNow tripId expenseId
               (snd (deleteExpenseOptimized c expenseId)) st) =
        map (\<lambda>trip. if id_trip trip = tripId
               then trip\<lparr>expenses :=
                           sort_key (\<lambda>e. - getTime (date e @ '' '' @ time e))
                             (filter (\<lambda>exp. id_expense exp \<noteq> expenseId) (expenses trip) @
                              [expenseToDelete]),
                         totalExpenses :=
                           js_add (js_sub (totalExpenses trip) (amount expenseToDelete))
                                  (amount expenseToDelete),
                         updatedAt := isoNow\<rparr>
               else trip)
            (trips st) \<and>
      toasts (deleteExpense seen getTime now isoNow tripId expenseId
                (snd (deleteExpenseOptimized c expenseId)) st) = toasts st @ [''Error''] \<and>
      pendingOperations (deleteExpense seen getTime now isoNow tripId expenseId
                           (snd (deleteExpenseOptimized c expenseId)) st) =
        pendingOperations st"
    using deleteExpense_failed
            [of seen expenseId now st tripId originalTrip expenseToDelete getTime isoNow err]
    by simp
qed (rule addExpenseOptimized_fallback updateExpenseOptimized_fallback
       deleteExpenseOptimized_fallback)+

lemmas service_eval =
  addExpenseOptimized_def addExpenseManual_def updateExpenseOptimized_def
  updateExpenseManual_def deleteExpenseOptimized_def deleteExpenseManual_def
  add_read_fails_def add_write_fails_def update_read_fails_def update_write_fails_def
  delete_read_fails_def delete_write_fails_def tea_row_def


theorem rpc_failure_falls_back_once_witness:
  "add_user add_write_fails = Some ''U'' \<and>
   add_rpc add_write_fails = Inl ''function not found'' \<and>
   add_manual_user add_write_fails = Some ''U'' \<and>
   add_insert add_write_fails = Inl ''timeout'' \<and>
   addExpenseOptimized add_write_fails ''T'' tea =
     ([auth_getUser, rpc_call ''add_expense_with_total'', auth_getUser,
       from_insert ''expenses''],
      Inl (Error ''Failed to add expense: timeout'')) \<and>
   map expenses
     (trips (addExpense goa_state 5 5 ''now'' ''T'' tea
               (snd (addExpenseOptimized add_write_fails ''T'' tea)) goa_state)) = [[lunch]] \<and>
   toasts (addExpense goa_state 5 5 ''now'' ''T'' tea
             (snd (addExpenseOptimized add_write_fails ''T'' tea)) goa_state) = [''Error''] \<and>
   upd_user update_write_fails = Some ''U'' \<and>
   upd_rpc update_write_fails = Inl ''function not found'' \<and>
   updateExpenseOptimized update_write_fails ''e1'' costs_more =
     ([auth_getUser, rpc_call ''update_expense_with_total'', auth_getUser,
       from_update ''expenses''],
      Inl (Error ''Failed to update expense: timeout'')) \<and>
   map expenses
     (trips (updateExpense goa_state 5 ''now'' ''T'' ''e1'' costs_more
               (snd (updateExpenseOptimized update_write_fails ''e1'' costs_more))
               goa_state)) = [[lunch]] \<and>
   map totalExpenses
     (trips (updateExpense goa_state 5 ''now'' ''T'' ''e1'' costs_more
               (snd (updateExpenseOptimized update_write_fails ''e1'' costs_more))
               goa_state)) = [(3602879701896397, -55)] \<and>
   del_user delete_write_fails = Some ''U'' \<and>
   del_rpc delete_write_fails = Inl ''function not found'' \<and>
   deleteExpenseOptimized delete_write_fails ''e1'' =
     ([auth_getUser, rpc_call ''delete_expense_with_total'', auth_getUser,
       from_select ''expenses'', from_delete ''expenses''],
      Inl (Error ''Failed to delete expense: timeout'')) \<and>
   map expenses
     (trips (deleteExpense goa_state (\<lambda>s. 0) 5 ''now'' ''T'' ''e1''
               (snd (deleteExpenseOptimized delete_write_fails ''e1'')) goa_state)) =
     [[lunch]] \<and>
   pendingOperations
     (deleteExpense goa_state (\<lambda>s. 0) 5 ''now'' ''T'' ''e1''
        (snd (deleteExpenseOptimized delete_write_fails ''e1'')) goa_state) = {}"
proof -
  have h: "add_user add_write_fails = Some ''U'' \<and>
           add_rpc add_write_fails = Inl ''function not found'' \<and>
           add_manual_user add_write_fails = Some ''U'' \<and>
           add_insert add_write_fails = Inl ''timeout'' \<and>
           upd_user update_write_fails = Some ''U'' \<and>
           upd_rpc update_write_fails = Inl ''function not found'' \<and>
           upd_manual_user update_write_fails = Some ''U'' \<and>
           upd_update update_write_fails = Inl ''timeout'' \<and>
           del_user delete_write_fails = Some ''U'' \<and>
           del_rpc delete_write_fails = Inl ''function not found'' \<and>
           del_manual_user delete_write_fails = Some ''U'' \<and>
           del_select delete_write_fails = Inr ''T'' \<and>
           del_delete delete_write_fails = Some ''timeout''"
    by (simp add: service_eval)
  have m: "fst (addExpenseManual add_write_fails ''T'' tea) =
             [auth_getUser, from_insert ''expenses''] \<and>
           fst (updateExpenseManual update_write_fails ''e1'' costs_more) =
             [auth_getUser, from_update ''expenses''] \<and>
           fst (deleteExpenseManual delete_write_fails ''e1'') =
             [auth_getUser, from_select ''expenses'', from_delete ''expenses'']"
    by (simp add: service_eval)
  have g: "user goa_state \<noteq> None \<and> pendingOperations goa_state = {} \<and>
           toasts goa_state = [] \<and>
           find (\<lambda>t. id_trip t = ''T'') (trips goa_state) = Some goa_trip \<and>
           find (\<lambda>e. id_expense e = ''e1'') (expenses goa_trip) = Some lunch"
    by (simp add: goa_state_def goa_trip_def lunch_def)
  note inst = rpc_failure_falls_back_once
      [where a = add_write_fails and b = update_write_fails and c = delete_write_fails
         and u = "''U''" and u' = "''U''" and e = "''function not found''"
         and tripId = "''T''" and expense = tea and expenseId = "''e1''"
         and updates = costs_more and seen = goa_state and st = goa_state and now = 5
         and now' = 5 and isoNow = "''now''" and getTime = "\<lambda>s. 0"]
  note A = inst [THEN conjunct1]
    and B = inst [THEN conjunct2, THEN conjunct1]
    and C = inst [THEN conjunct2, THEN conjunct2, THEN conjunct1]
    and D = inst [THEN conjunct2, THEN conjunct2, THEN conjunct2, THEN conjunct1]
    and E = inst [THEN conjunct2, THEN conjunct2, THEN conjunct2, THEN conjunct2,
                  THEN conjunct1]
    and F = inst [THEN conjunct2, THEN conjunct2, THEN conjunct2, THEN conjunct2,
                  THEN conjunct2]
  from A B C h m have service:
    "addExpenseOptimized add_write_fails ''T'' tea =
       ([auth_getUser, rpc_call ''add_expense_with_total'', auth_getUser,
         from_insert ''expenses''],
        Inl (Error ''Failed to add expense: timeout'')) \<and>
     updateExpenseOptimized update_write_fails ''e1'' costs_more =
       ([auth_getUser, rpc_call ''update_expense_with_total'', auth_getUser,
         from_update ''expenses''],
        Inl (Error ''Failed to update expense: timeout'')) \<and>
     deleteExpenseOptimized delete_write_fails ''e1'' =
       ([auth_getUser, rpc_call ''delete_expense_with_total'', auth_getUser,
         from_select ''expenses'', from_delete ''expenses''],
        Inl (Error ''Failed to delete expense: timeout''))"
    by (auto simp: prod_eq_iff)
  with D E F g have hook:
    "trips (addExpense goa_state 5 5 ''now'' ''T'' tea
              (snd (addExpenseOptimized add_write_fails ''T'' tea)) goa_state) =
       map (\<lambda>trip. if id_trip trip = ''T''
              then trip\<lparr>expenses :=
                          filter (\<lambda>exp. id_expense exp \<noteq> ''temp-'' @ integer_text 5)
                                 (expenses trip),
                        totalExpenses :=
                          js_sub (js_add (totalExpenses trip) (amount tea)) (amount tea),
                        updatedAt := ''now''\<rparr>
              else trip)
           (trips goa_state) \<and>
     toasts (addExpense goa_state 5 5 ''now'' ''T'' tea
               (snd (addExpenseOptimized add_write_fails ''T'' tea)) goa_state) = [''Error''] \<and>
     trips (updateExpense goa_state 5 ''now'' ''T'' ''e1'' costs_more
              (snd (updateExpenseOptimized update_write_fails ''e1'' costs_more))
              goa_state) =
       map (\<lambda>trip. if id_trip trip = ''T''
              then trip\<lparr>expenses :=
                          map (\<lambda>exp. if id_expense exp = ''e1'' then lunch else exp)
                            (map (\<lambda>exp. if id_expense exp = ''e1''
                                        then spread exp costs_more else exp)
                               (expenses trip)),
                        totalExpenses := totalExpenses goa_trip,
                        updatedAt := ''now''\<rparr>
              else trip)
           (trips goa_state) \<and>
     trips (deleteExpense goa_state (\<lambda>s. 0) 5 ''now'' ''T'' ''e1''
              (snd (deleteExpenseOptimized delete_write_fails ''e1'')) goa_state) =
       map (\<lambda>trip. if id_trip trip = ''T''
              then trip\<lparr>expenses :=
                          sort_key (\<lambda>e. - (0::int))
                            (filter (\<lambda>exp. id_expense exp \<noteq> ''e1'') (expenses trip) @ [lunch]),
                        totalExpenses :=
                          js_add (js_sub (totalExpenses trip) (amount lunch)) (amount lunch),
                        updatedAt := ''now''\<rparr>
              else trip)
           (trips goa_state) \<and>
     pendingOperations
       (deleteExpense goa_state (\<lambda>s. 0) 5 ''now'' ''T'' ''e1''
          (snd (deleteExpenseOptimized delete_write_fails ''e1'')) goa_state) = {}"
    by simp
  have shown:
    "map expenses
       (trips (addExpense goa_state 5 5 ''now'' ''T'' tea
                 (snd (addExpenseOptimized add_write_fails ''T'' tea)) goa_state)) =
       [[lunch]] \<and>
     map expenses
       (trips (updateExpense goa_state 5 ''now'' ''T'' ''e1'' costs_more
                 (snd (updateExpenseOptimized update_write_fails ''e1'' costs_more))
                 goa_state)) = [[lunch]] \<and>
     map totalExpenses
       (trips (updateExpense goa_state 5 ''now'' ''T'' ''e1'' costs_more
                 (snd (updateExpenseOptimized update_write_fails ''e1'' costs_more))
                 goa_state)) = [(3602879701896397, -55)] \<and>
     map expenses
       (trips (deleteExpense goa_state (\<lambda>s. 0) 5 ''now'' ''T'' ''e1''
                 (snd (deleteExpenseOptimized delete_write_fails ''e1'')) goa_state)) =
       [[lunch]]"
    by (simp only: hook)
       (simp add: goa_state_def goa_trip_def lunch_def tea_def costs_more_def no_changes_def
          spread_def integer_text.simps digit_char_def)
  from h service hook shown show ?thesis
    by simp
qed

text \<open>
  The claim as it stands fails when it is the last step of the fallback that fails, the
  read of the trip's total.  The procedure is not there, the plain insert goes through
  and the read fails: \<^verbatim>\<open>addExpenseOptimized\<close> resolves, with the amount of the new
  expense as the total, and the hook shows the expense as added with a total of 0.2
  where the trip holds 0.1 + 0.2.  In the same way \<^verbatim>\<open>deleteExpenseOptimized\<close> resolves
  with a total of 0.  Nothing is thrown and nothing is rolled back.
\<close>

theorem fallback_read_failure_counterexample:
  "add_rpc add_read_fails = Inl ''function not found'' \<and>
   add_insert add_read_fails = Inr tea_row \<and>
   add_trip_total add_read_fails = Inl ''timeout'' \<and>
   fst (addExpenseOptimized add_read_fails ''T'' tea) =
     [auth_getUser, rpc_call ''add_expense_with_total'', auth_getUser,
      from_insert ''expenses'', from_select ''trips''] \<and>
   map_sum id ar_newTotal (snd (addExpenseOptimized add_read_fails ''T'' tea)) =
     Inr (3602879701896397, -54) \<and>
   toasts (addExpense goa_state 5 5 ''now'' ''T'' tea
             (snd (addExpenseOptimized add_read_fails ''T'' tea)) goa_state) =
     [''Expense Added''] \<and>
   map (map id_expense \<circ> expenses)
     (trips (addExpense goa_state 5 5 ''now'' ''T'' tea
               (snd (addExpenseOptimized add_read_fails ''T'' tea)) goa_state)) =
     [[''e1'', ''e2'']] \<and>
   map totalExpenses
     (trips (addExpense goa_state 5 5 ''now'' ''T'' tea
               (snd (addExpenseOptimized add_read_fails ''T'' tea)) goa_state)) =
     [(3602879701896397, -54)] \<and>
   del_rpc delete_read_fails = Inl ''function not found'' \<and>
   del_trip_total delete_read_fails = Inl ''timeout'' \<and>
   deleteExpenseOptimized delete_read_fails ''e1'' =
     ([auth_getUser, rpc_call ''delete_expense_with_total'', auth_getUser,
       from_select ''expenses'', from_delete ''expenses'', from_select ''trips''],
      Inr \<lparr>dr_newTotal = (0, 0), dr_tripId = ''T''\<rparr>) \<and>
   toasts (deleteExpense goa_state (\<lambda>s. 0) 5 ''now'' ''T'' ''e1''
             (snd (deleteExpenseOptimized delete_read_fails ''e1'')) goa_state) =
     [''Expense Deleted'']"
  by (simp add: service_eval hook_eval number_facts)

section \<open>The total a manual path reports when the read of the trip fails\<close>

text \<open>
  Claim C10.  In the manual functions, when the write of the expense has succeeded and
  the read of the trip's \<^verbatim>\<open>total_expenses\<close> fails, the function still resolves, and the
  total it reports is not the stored one: \<^verbatim>\<open>addExpenseManual\<close> reports the amount of the
  expense it was given, \<^verbatim>\<open>updateExpenseManual\<close> the amount of the updated expense, and
  \<^verbatim>\<open>deleteExpenseManual\<close> reports 0.  The optimized functions hand that result on when
  they have fallen back.
\<close>

theorem manual_total_when_read_fails:
  "(add_manual_user a = Some u \<and> add_insert a = Inr row \<and> add_trip_total a = Inl err \<longrightarrow>
      (\<exists>r. snd (addExpenseManual a tripId expense) = Inr r \<and>
           ar_newTotal r = amount expense \<and> id_expense (ar_expense r) = xd_id row) \<and>
      (add_user a = Some u \<and> add_rpc a = Inl e \<longrightarrow>
         snd (addExpenseOptimized a tripId expense) = snd (addExpenseManual a tripId expense))) \<and>
   (upd_manual_user b = Some u \<and> upd_update b = Inr row \<and> upd_trip_total b = Inl err \<longrightarrow>
      (\<exists>r. snd (updateExpenseManual b expenseId updates) = Inr r \<and>
           ur_newTotal r = xd_amount row \<and> ur_newTotal r = amount (ur_expense r)) \<and>
      (upd_user b = Some u \<and> upd_rpc b = Inl e \<longrightarrow>
         snd (updateExpenseOptimized b expenseId updates) =
           snd (updateExpenseManual b expenseId updates))) \<and>
   (del_manual_user c = Some u \<and> del_select c = Inr t \<and> del_delete c = None \<and>
    del_trip_total c = Inl err \<longrightarrow>
      (\<exists>r. snd (deleteExpenseManual c expenseId) = Inr r \<and> dr_newTotal r = (0, 0)) \<and>
      (del_user c = Some u \<and> del_rpc c = Inl e \<longrightarrow>
         snd (deleteExpenseOptimized c expenseId) = snd (deleteExpenseManual c expenseId)))"
  by (auto simp: addExpenseManual_def addExpenseOptimized_def updateExpenseManual_def
        updateExpenseOptimized_def deleteExpenseManual_def deleteExpenseOptimized_def
        split: prod.splits)

theorem manual_total_when_read_fails_witness:
  "add_manual_user add_read_fails = Some ''U'' \<and> add_insert add_read_fails = Inr tea_row \<and>
   add_trip_total add_read_fails = Inl ''timeout'' \<and>
   map ar_newTotal (projr (snd (addExpenseManual add_read_fails ''T'' tea)) # []) =
     [amount tea] \<and>
   upd_manual_user update_read_fails = Some ''U'' \<and>
   upd_update update_read_fails = Inr tea_row \<and>
   upd_trip_total update_read_fails = Inl ''timeout'' \<and>
   map ur_newTotal
     (projr (snd (updateExpenseManual update_read_fails ''e2'' no_changes)) # []) =
     [xd_amount tea_row] \<and>
   del_manual_user delete_read_fails = Some ''U'' \<and> del_select delete_read_fails = Inr ''T'' \<and>
   del_delete delete_read_fails = None \<and> del_trip_total delete_read_fails = Inl ''timeout'' \<and>
   snd (deleteExpenseOptimized delete_read_fails ''e2'') =
     Inr \<lparr>dr_newTotal = (0, 0), dr_tripId = ''T''\<rparr>"
proof -
  have h: "add_manual_user add_read_fails = Some ''U'' \<and>
           add_insert add_read_fails = Inr tea_row \<and>
           add_trip_total add_read_fails = Inl ''timeout'' \<and>
           upd_manual_user update_read_fails = Some ''U'' \<and>
           upd_update update_read_fails = Inr tea_row \<and>
           upd_trip_total update_read_fails = Inl ''timeout'' \<and>
           del_manual_user delete_read_fails = Some ''U'' \<and>
           del_select delete_read_fails = Inr ''T'' \<and>
           del_delete delete_read_fails = None \<and>
           del_trip_total delete_read_fails = Inl ''timeout'' \<and>
           del_user delete_read_fails = Some ''U'' \<and>
           del_rpc delete_read_fails = Inl ''function not found''"
    by (simp add: add_read_fails_def update_read_fails_def delete_read_fails_def)
  have d: "dr_tripId (projr (snd (deleteExpenseManual delete_read_fails ''e2''))) = ''T''"
    by (simp add: deleteExpenseManual_def delete_read_fails_def)
  from h d
    manual_total_when_read_fails
      [where a = add_read_fails and b = update_read_fails and c = delete_read_fails
         and u = "''U''" and row = tea_row and err = "''timeout''" and t = "''T''"
         and e = "''function not found''" and tripId = "''T''" and expense = tea
         and expenseId = "''e2''" and updates = no_changes]
  show ?thesis
    by auto
qed

section \<open>Repeated calls and the operation cache\<close>

lemma cached_hit: "operationCache s k = Some p \<Longrightarrow> cached k operation s = (p, s)"
  by (simp add: cached_def)

lemma cached_caches: "operationCache (snd (cached k operation s)) k = Some (fst (cached k operation s))"
  by (simp add: cached_def split: option.splits)

lemma cached_other:
  "operationCache s k = Some p \<Longrightarrow> operationCache (snd (cached k' operation s)) k = Some p"
  by (cases "k' = k") (auto simp: cached_def split: option.splits)

lemma step_keeps_cached:
  assumes "operationCache s k = Some p" and "ev \<noteq> Timer_fires k"
  shows "operationCache (step number_text s ev) k = Some p"
  using assms
  by (cases ev)
     (auto simp: cached_addExpense_def cached_updateExpense_def cached_deleteExpense_def
        cached_other timer_fires_def promise_settles_def)

lemma steps_keep_cached:
  assumes "operationCache s k = Some p" and "\<forall>ev \<in> set evs. ev \<noteq> Timer_fires k"
  shows "operationCache (foldl (step number_text) s evs) k = Some p"
  using assms
proof (induction evs arbitrary: s)
  case Nil
  then show ?case by simp
next
  case (Cons ev evs)
  then show ?case
    using step_keeps_cached [of s k p ev number_text] by simp
qed

lemma cached_again:
  assumes "\<forall>ev \<in> set evs. ev \<noteq> Timer_fires k"
  shows "cached k operation' (foldl (step number_text) (snd (cached k operation s)) evs) =
           (fst (cached k operation s), foldl (step number_text) (snd (cached k operation s)) evs)"
  using steps_keep_cached [OF cached_caches assms] by (rule cached_hit)

lemma addExpense_begin_pending:
  assumes "addExpense_begin seen now1 now2 isoNow tripId expense st = (Some ctx, st1)"
  shows "addExpense_begin seen' now1 now2' isoNow' tripId expense' st1 = (None, st1)"
proof -
  from assms have "''add-'' @ tripId @ ''-'' @ integer_text now1 \<in> pendingOperations st1"
    by (auto simp: addExpense_begin_def Let_def applyOptimisticUpdate_def split: if_splits)
  then show ?thesis
    by (simp add: addExpense_begin_def)
qed

text \<open>
  Claim C4, as amended.  Let \<^verbatim>\<open>cachedExpenseService\<close> be called for a mutation, let
  anything happen afterwards except that the timer of this call's cache key fires, and
  let it be called again with arguments that give the same cache key: the same
  operation, the same trip or expense id, and a payload with the same text, which for
  an object means the same properties with the same values in the same order.  Then the
  second call returns the promise of the first call and leaves the service as it is; in
  particular it starts no operation, so no second mutation is sent.  Whether the first
  promise has settled in between makes no difference.  In the hook, a second
  \<^verbatim>\<open>addExpense\<close> for the same trip, of any render and with any expense, that reads the
  same millisecond from the clock while the first is pending returns at once and
  changes nothing.
\<close>

theorem second_call_returns_cached_promise:
  "((\<forall>ev \<in> set evs.
       ev \<noteq> Timer_fires (''add-'' @ tripId @ ''-'' @ JSON_stringify number_text expense)) \<and>
    ''add-'' @ tripId' @ ''-'' @ JSON_stringify number_text expense' =
      ''add-'' @ tripId @ ''-'' @ JSON_stringify number_text expense \<longrightarrow>
      cached_addExpense number_text tripId' expense'
          (foldl (step number_text) (snd (cached_addExpense number_text tripId expense s)) evs) =
        (fst (cached_addExpense number_text tripId expense s),
         foldl (step number_text) (snd (cached_addExpense number_text tripId expense s)) evs)) \<and>
   ((\<forall>ev \<in> set evs.
       ev \<noteq> Timer_fires (''update-'' @ expenseId @ ''-'' @ JSON_stringify number_text updates)) \<and>
    ''update-'' @ expenseId' @ ''-'' @ JSON_stringify number_text updates' =
      ''update-'' @ expenseId @ ''-'' @ JSON_stringify number_text updates \<longrightarrow>
      cached_updateExpense number_text expenseId' updates'
          (foldl (step number_text)
             (snd (cached_updateExpense number_text expenseId updates s)) evs) =
        (fst (cached_updateExpense number_text expenseId updates s),
         foldl (step number_text)
           (snd (cached_updateExpense number_text expenseId updates s)) evs)) \<and>
   ((\<forall>ev \<in> set evs. ev \<noteq> Timer_fires (''delete-'' @ expenseId)) \<longrightarrow>
      cached_deleteExpense expenseId
          (foldl (step number_text) (snd (cached_deleteExpense expenseId s)) evs) =
        (fst (cached_deleteExpense expenseId s),
         foldl (step number_text) (snd (cached_deleteExpense expenseId s)) evs)) \<and>
   (\<forall>ctx st1. addExpense_begin seen now later isoNow tripId hookExpense st = (Some ctx, st1) \<longrightarrow>
      addExpense_begin seen' now later' isoNow' tripId hookExpense' st1 = (None, st1))"
proof (intro conjI impI allI)
  let ?k = "''add-'' @ tripId @ ''-'' @ JSON_stringify number_text expense"
  assume a: "(\<forall>ev \<in> set evs. ev \<noteq> Timer_fires ?k) \<and>
    ''add-'' @ tripId' @ ''-'' @ JSON_stringify number_text expense' = ?k"
  then have t: "\<forall>ev \<in> set evs. ev \<noteq> Timer_fires ?k"
    and k: "''add-'' @ tripId' @ ''-'' @ JSON_stringify number_text expense' = ?k"
    by blast+
  have "cached ?k (addExpenseOptimized_of tripId' expense')
          (foldl (step number_text) (snd (cached ?k (addExpenseOptimized_of tripId expense) s))
             evs) =
        (fst (cached ?k (addExpenseOptimized_of tripId expense) s),
         foldl (step number_text) (snd (cached ?k (addExpenseOptimized_of tripId expense) s))
           evs)"
    using t by (rule cached_again)
  then show "cached_addExpense number_text tripId' expense'
          (foldl (step number_text) (snd (cached_addExpense number_text tripId expense s)) evs) =
        (fst (cached_addExpense number_text tripId expense s),
         foldl (step number_text) (snd (cached_addExpense number_text tripId expense s)) evs)"
    by (simp only: cached_addExpense_def k)
next
  let ?k = "''update-'' @ expenseId @ ''-'' @ JSON_stringify number_text updates"
  assume a: "(\<forall>ev \<in> set evs. ev \<noteq> Timer_fires ?k) \<and>
    ''update-'' @ expenseId' @ ''-'' @ JSON_stringify number_text updates' = ?k"
  then have t: "\<forall>ev \<in> set evs. ev \<noteq> Timer_fires ?k"
    and k: "''update-'' @ expenseId' @ ''-'' @ JSON_stringify number_text updates' = ?k"
    by blast+
  have "cached ?k (updateExpenseOptimized_of expenseId' updates')
          (foldl (step number_text)
             (snd (cached ?k (updateExpenseOptimized_of expenseId updates) s)) evs) =
        (fst (cached ?k (updateExpenseOptimized_of expenseId updates) s),
         foldl (step number_text)
           (snd (cached ?k (updateExpenseOptimized_of expenseId updates) s)) evs)"
    using t by (rule cached_again)
  then show "cached_updateExpense number_text expenseId' updates'
          (foldl (step number_text)
             (snd (cached_updateExpense number_text expenseId updates s)) evs) =
        (fst (cached_updateExpense number_text expenseId updates s),
         foldl (step number_text)
           (snd (cached_updateExpense number_text expenseId updates s)) evs)"
    by (simp only: cached_updateExpense_def k)
next
  assume "\<forall>ev \<in> set evs. ev \<noteq> Timer_fires (''delete-'' @ expenseId)"
  then show "cached_deleteExpense expenseId
          (foldl (step number_text) (snd (cached_deleteExpense expenseId s)) evs) =
        (fst (cached_deleteExpense expenseId s),
         foldl (step number_text) (snd (cached_deleteExpense expenseId s)) evs)"
    unfolding cached_deleteExpense_def by (rule cached_again)
next
  fix ctx st1
  assume "addExpense_begin seen now later isoNow tripId hookExpense st = (Some ctx, st1)"
  then show "addExpense_begin seen' now later' isoNow' tripId hookExpense' st1 = (None, st1)"
    by (rule addExpense_begin_pending)
qed

lemmas cache_eval =
  cached_addExpense_def cached_updateExpense_def cached_deleteExpense_def cached_def
  timer_fires_def promise_settles_def initial_service_def

lemmas json_eval =
  JSON_stringify_def QuoteJSONString_def quote_char_def List.map_filter_def
  tea_object_def tea_object_amount_first_def

text \<open>
  The first call starts operation 0; its promise settles, another expense is deleted;
  the second call, within the second, gets promise 0 and one add has been sent.
\<close>

theorem second_call_returns_cached_promise_witness:
  "\<forall>number_text.
     list_all
       (\<lambda>ev. ev \<noteq> Timer_fires (''add-'' @ ''T'' @ ''-'' @ JSON_stringify number_text tea_object))
       [Promise_settles 0, Calls_deleteExpense ''e1''] \<and>
     fst (cached_addExpense number_text ''T'' tea_object initial_service) = 0 \<and>
     fst (cached_addExpense number_text ''T'' tea_object
            (foldl (step number_text)
               (snd (cached_addExpense number_text ''T'' tea_object initial_service))
               [Promise_settles 0, Calls_deleteExpense ''e1''])) = 0 \<and>
     started (snd (cached_addExpense number_text ''T'' tea_object
                     (foldl (step number_text)
                        (snd (cached_addExpense number_text ''T'' tea_object initial_service))
                        [Promise_settles 0, Calls_deleteExpense ''e1'']))) =
       [addExpenseOptimized_of ''T'' tea_object, deleteExpenseOptimized_of ''e1''] \<and>
     addExpense_begin goa_state 5 5 ''now'' ''T'' tea goa_state =
       (Some (the (fst (addExpense_begin goa_state 5 5 ''now'' ''T'' tea goa_state))),
        snd (addExpense_begin goa_state 5 5 ''now'' ''T'' tea goa_state)) \<and>
     addExpense_begin goa_state 5 5 ''now'' ''T'' tea
         (snd (addExpense_begin goa_state 5 5 ''now'' ''T'' tea goa_state)) =
       (None, snd (addExpense_begin goa_state 5 5 ''now'' ''T'' tea goa_state))"
proof
  fix number_text :: "number \<Rightarrow> string"
  let ?evs = "[Promise_settles 0, Calls_deleteExpense ''e1'']"
  let ?k = "''add-'' @ ''T'' @ ''-'' @ JSON_stringify number_text tea_object"
  let ?s1 = "snd (cached_addExpense number_text ''T'' tea_object initial_service)"
  let ?X = "addExpense_begin goa_state 5 5 ''now'' ''T'' tea goa_state"
  have h: "\<forall>ev \<in> set ?evs. ev \<noteq> Timer_fires ?k"
    by simp
  have first: "fst (cached_addExpense number_text ''T'' tea_object initial_service) = 0"
    by (simp add: cache_eval)
  have sent: "started (foldl (step number_text) ?s1 ?evs) =
                [addExpenseOptimized_of ''T'' tea_object, deleteExpenseOptimized_of ''e1'']"
    by (simp add: cache_eval)
  have "\<exists>ctx. fst ?X = Some ctx"
    by (simp add: addExpense_begin_def goa_state_def Let_def)
  then have x: "?X = (Some (the (fst ?X)), snd ?X)"
    by (cases ?X) auto
  note inst = second_call_returns_cached_promise
    [where evs = ?evs and tripId = "''T''" and number_text = number_text
       and expense = tea_object and tripId' = "''T''" and expense' = tea_object
       and s = initial_service and seen = goa_state and now = 5 and later = 5
       and isoNow = "''now''" and hookExpense = tea and st = goa_state and later' = 5
       and isoNow' = "''now''" and seen' = goa_state and hookExpense' = tea]
  from inst h
  have "cached_addExpense number_text ''T'' tea_object (foldl (step number_text) ?s1 ?evs) =
          (fst (cached_addExpense number_text ''T'' tea_object initial_service),
           foldl (step number_text) ?s1 ?evs)"
    by blast
  moreover from inst x
  have "addExpense_begin goa_state 5 5 ''now'' ''T'' tea (snd ?X) = (None, snd ?X)"
    by blast
  ultimately show
    "list_all (\<lambda>ev. ev \<noteq> Timer_fires ?k) ?evs \<and>
     fst (cached_addExpense number_text ''T'' tea_object initial_service) = 0 \<and>
     fst (cached_addExpense number_text ''T'' tea_object
            (foldl (step number_text) ?s1 ?evs)) = 0 \<and>
     started (snd (cached_addExpense number_text ''T'' tea_object
                     (foldl (step number_text) ?s1 ?evs))) =
       [addExpenseOptimized_of ''T'' tea_object, deleteExpenseOptimized_of ''e1''] \<and>
     ?X = (Some (the (fst ?X)), snd ?X) \<and>
     addExpense_begin goa_state 5 5 ''now'' ''T'' tea (snd ?X) = (None, snd ?X)"
    using first sent x by simp
qed

text \<open>
  The claim as it stands fails in two ways, whatever text the engine gives a number.
  When the first call is slower than the timer: the first call starts operation 0,
  after a second the timer deletes the key while promise 0 has not settled, and the
  second call starts operation 1, so the same add is sent twice.  And when the payload
  of the second call has its properties in another order: the text of the first begins
  with the description, the text of the second with the amount, the keys differ, and
  the second call, made at once, starts operation 1.
\<close>

theorem second_call_after_timer_counterexample:
  "\<forall>number_text.
     fst (cached_addExpense number_text ''T'' tea_object initial_service) = 0 \<and>
     settled (foldl (step number_text)
                (snd (cached_addExpense number_text ''T'' tea_object initial_service))
                [Timer_fires (''add-'' @ ''T'' @ ''-'' @ JSON_stringify number_text tea_object)]) =
       {} \<and>
     fst (cached_addExpense number_text ''T'' tea_object
            (foldl (step number_text)
               (snd (cached_addExpense number_text ''T'' tea_object initial_service))
               [Timer_fires (''add-'' @ ''T'' @ ''-'' @ JSON_stringify number_text tea_object)])) =
       1 \<and>
     started (snd (cached_addExpense number_text ''T'' tea_object
                     (foldl (step number_text)
                        (snd (cached_addExpense number_text ''T'' tea_object initial_service))
                        [Timer_fires
                           (''add-'' @ ''T'' @ ''-'' @ JSON_stringify number_text tea_object)]))) =
       [addExpenseOptimized_of ''T'' tea_object, addExpenseOptimized_of ''T'' tea_object] \<and>
     take 3 (JSON_stringify number_text tea_object) = [CHR ''{'', CHR 0x22, CHR ''d''] \<and>
     take 3 (JSON_stringify number_text tea_object_amount_first) =
       [CHR ''{'', CHR 0x22, CHR ''a''] \<and>
     fst (cached_addExpense number_text ''T'' tea_object_amount_first
            (snd (cached_addExpense number_text ''T'' tea_object initial_service))) = 1 \<and>
     started (snd (cached_addExpense number_text ''T'' tea_object_amount_first
                     (snd (cached_addExpense number_text ''T'' tea_object initial_service)))) =
       [addExpenseOptimized_of ''T'' tea_object,
        addExpenseOptimized_of ''T'' tea_object_amount_first]"
  by (simp add: cache_eval json_eval)
end
